(* ===== verification/Prelude.thy ===== *)
theory Prelude
  imports Main "HOL-Library.Word" "HOL-Library.Sublist"
begin

section \<open>Shared vocabulary: byte strings, UTF-8 and Rust's string library\<close>

text \<open>
  A Rust \<open>str\<close> is a sequence of UTF-8 bytes and every offset the program computes is a byte
  offset. HOL's \<^typ>\<open>char\<close> is one byte, so a \<open>String\<close> is modelled by the \<^typ>\<open>string\<close> of its
  UTF-8 bytes and a Rust \<open>char\<close> (a Unicode scalar value) by the non-empty list of the bytes
  that encode it (\<open>uchar\<close>). \<open>usize\<close> positions are \<^typ>\<open>nat\<close>; machine integers whose overflow the
  code reasons about are words.

  The theory holds the functions of Rust's standard library that the modelled code calls
  (\<open>find\<close>, \<open>rfind\<close>, \<open>split_once\<close>, \<open>char_indices\<close>, \<open>parse\<close>, \<open>to_string\<close>, \<open>checked_add\<close>, \<dots>)
  and the lemmas on them that several components use.
\<close>

type_synonym uchar = string

type_synonym u8 = "8 word"
type_synonym u16 = "16 word"
type_synonym u32 = "32 word"
type_synonym u64 = "64 word"

abbreviation NUL :: char where "NUL \<equiv> CHR 0x00"
abbreviation TAB :: char where "TAB \<equiv> CHR 0x09"
abbreviation NL :: char where "NL \<equiv> CHR 0x0A"
abbreviation CR :: char where "CR \<equiv> CHR 0x0D"
abbreviation SP :: char where "SP \<equiv> CHR 0x20"
abbreviation DQ :: char where "DQ \<equiv> CHR 0x22"
abbreviation SQ :: char where "SQ \<equiv> CHR 0x27"
abbreviation BSL :: char where "BSL \<equiv> CHR 0x5C"
abbreviation EM_DASH :: string where "EM_DASH \<equiv> [CHR 0xE2, CHR 0x80, CHR 0x94]"
abbreviation ELLIPSIS :: string where "ELLIPSIS \<equiv> [CHR 0xE2, CHR 0x80, CHR 0xA6]"

named_theorems result_simps \<open>case analysis of fallible results\<close>


subsection \<open>Bytes and characters\<close>

definition byte :: "char \<Rightarrow> nat" where
  "byte c = of_char c"

lemma byte_less_256 [simp]: "byte c < 256"
  by (simp add: byte_def)

lemma byte_inj [simp]: "byte c = byte d \<longleftrightarrow> c = d"
  by (simp add: byte_def)

definition is_ascii_digit :: "char \<Rightarrow> bool" where
  "is_ascii_digit c \<longleftrightarrow> 48 \<le> byte c \<and> byte c \<le> 57"

definition is_ascii_lowercase :: "char \<Rightarrow> bool" where
  "is_ascii_lowercase c \<longleftrightarrow> 97 \<le> byte c \<and> byte c \<le> 122"

definition is_ascii_uppercase :: "char \<Rightarrow> bool" where
  "is_ascii_uppercase c \<longleftrightarrow> 65 \<le> byte c \<and> byte c \<le> 90"

definition is_ascii_alphabetic :: "char \<Rightarrow> bool" where
  "is_ascii_alphabetic c \<longleftrightarrow> is_ascii_lowercase c \<or> is_ascii_uppercase c"

definition is_ascii_alphanumeric :: "char \<Rightarrow> bool" where
  "is_ascii_alphanumeric c \<longleftrightarrow> is_ascii_alphabetic c \<or> is_ascii_digit c"

definition is_ascii_hexdigit :: "char \<Rightarrow> bool" where
  "is_ascii_hexdigit c \<longleftrightarrow>
     is_ascii_digit c \<or> (97 \<le> byte c \<and> byte c \<le> 102) \<or> (65 \<le> byte c \<and> byte c \<le> 70)"

lemmas ascii_defs =
  is_ascii_digit_def is_ascii_lowercase_def is_ascii_uppercase_def
  is_ascii_alphabetic_def is_ascii_alphanumeric_def is_ascii_hexdigit_def

definition to_ascii_uppercase :: "string \<Rightarrow> string" where
  "to_ascii_uppercase s =
     map (\<lambda>c. if is_ascii_lowercase c then char_of (byte c - 32) else c) s"

definition to_ascii_lowercase :: "string \<Rightarrow> string" where
  "to_ascii_lowercase s =
     map (\<lambda>c. if is_ascii_uppercase c then char_of (byte c + 32) else c) s"

text \<open>A continuation byte of UTF-8, and the length of a character from its leading byte.\<close>

definition is_cont :: "char \<Rightarrow> bool" where
  "is_cont c \<longleftrightarrow> 128 \<le> byte c \<and> byte c < 192"

definition utf8_len :: "char \<Rightarrow> nat" where
  "utf8_len c =
     (if byte c < 128 then 1 else if byte c < 224 then 2 else if byte c < 240 then 3 else 4)"

lemma utf8_len_pos [simp]: "0 < utf8_len c"
  by (simp add: utf8_len_def)

lemma utf8_len_neq_0 [simp]: "utf8_len c \<noteq> 0"
  by (simp add: utf8_len_def)

lemma utf8_len_ascii [simp]: "byte c < 128 \<Longrightarrow> utf8_len c = 1"
  by (simp add: utf8_len_def)

text \<open>\<open>str::chars\<close> and \<open>str::char_indices\<close>: the characters with their byte offsets.\<close>

fun char_indices_from :: "nat \<Rightarrow> string \<Rightarrow> (nat \<times> uchar) list" where
  "char_indices_from i [] = []"
| "char_indices_from i (b # bs) =
     (i, b # take (utf8_len b - 1) bs)
       # char_indices_from (i + utf8_len b) (drop (utf8_len b - 1) bs)"

definition char_indices :: "string \<Rightarrow> (nat \<times> uchar) list" where
  "char_indices s = char_indices_from 0 s"

definition chars :: "string \<Rightarrow> uchar list" where
  "chars s = map snd (char_indices s)"

text \<open>Lifting a test on ASCII bytes to a Rust \<open>char\<close>: a multi-byte character never passes.\<close>

fun uchar_is :: "(char \<Rightarrow> bool) \<Rightarrow> uchar \<Rightarrow> bool" where
  "uchar_is P [c] = P c"
| "uchar_is P _ = False"

lemma char_indices_from_all:
  assumes "\<And>c. P c \<Longrightarrow> byte c < 128"
  shows "(\<forall>x \<in> set (char_indices_from i s). uchar_is P (snd x)) \<longleftrightarrow> list_all P s"
proof (induction i s rule: char_indices_from.induct)
  case (1 i)
  then show ?case by simp
next
  case (2 i b bs)
  show ?case
  proof (cases "byte b < 128")
    case True
    with 2 show ?thesis by simp
  next
    case False
    then have np: "\<not> P b" using assms by blast
    have "\<not> uchar_is P (b # take (utf8_len b - 1) bs)"
      using np by (cases "take (utf8_len b - 1) bs") auto
    with np show ?thesis by auto
  qed
qed

lemma char_indices_from_mem:
  assumes "(j, ch) \<in> set (char_indices_from k s)"
  shows "k \<le> j \<and> j < k + length s \<and> ch = take (utf8_len (s ! (j - k))) (drop (j - k) s)"
  using assms
proof (induction k s rule: char_indices_from.induct)
  case (1 k)
  then show ?case by simp
next
  case (2 k b bs)
  show ?case
  proof (cases "(j, ch) = (k, b # take (utf8_len b - 1) bs)")
    case True
    then show ?thesis by (cases "utf8_len b") auto
  next
    case False
    let ?n = "utf8_len b"
    from False 2 have ih: "k + ?n \<le> j \<and> j < k + ?n + length (drop (?n - 1) bs) \<and>
      ch = take (utf8_len (drop (?n - 1) bs ! (j - (k + ?n)))) (drop (j - (k + ?n)) (drop (?n - 1) bs))"
      by auto
    then have d: "j - k = Suc (?n - 1 + (j - (k + ?n)))"
      using utf8_len_pos [of b] by linarith
    have le: "?n - 1 \<le> length bs" using ih by (simp split: nat_diff_split_asm)
    show ?thesis using ih le by (auto simp: d add.commute)
  qed
qed

lemma char_indices_nil [simp]: "char_indices s = [] \<longleftrightarrow> s = []"
  by (cases s) (simp_all add: char_indices_def)

lemma char_indices_empty [simp]: "char_indices [] = []"
  by (simp add: char_indices_def)

lemma char_indices_Cons_ascii:
  "byte b < 128 \<Longrightarrow> char_indices (b # bs) = (0, [b]) # char_indices_from 1 bs"
  by (simp add: char_indices_def)

text \<open>\<open>str::is_char_boundary\<close>, and strings whose bytes are grouped as UTF-8 groups them.\<close>

definition is_char_boundary :: "string \<Rightarrow> nat \<Rightarrow> bool" where
  "is_char_boundary s i \<longleftrightarrow> i = 0 \<or> i = length s \<or> (i < length s \<and> \<not> is_cont (s ! i))"

fun wf_utf8 :: "string \<Rightarrow> bool" where
  "wf_utf8 [] = True"
| "wf_utf8 (b # bs) =
     (\<not> is_cont b \<and> utf8_len b - 1 \<le> length bs \<and> list_all is_cont (take (utf8_len b - 1) bs) \<and>
      wf_utf8 (drop (utf8_len b - 1) bs))"

lemma is_cont_not_ascii [simp]: "byte c < 128 \<Longrightarrow> \<not> is_cont c"
  by (simp add: is_cont_def)

text \<open>Rust indexing of a string by a byte range, in range.\<close>

definition slice :: "string \<Rightarrow> nat \<Rightarrow> nat \<Rightarrow> string" where
  "slice s a b = take (b - a) (drop a s)"

lemma length_slice [simp]: "length (slice s a b) = min (b - a) (length s - a)"
  by (simp add: slice_def min.commute)

lemma slice_full [simp]: "slice s 0 (length s) = s"
  by (simp add: slice_def)

lemma slice_append: "a \<le> b \<Longrightarrow> b \<le> c \<Longrightarrow> slice s a b @ slice s b c = slice s a c"
  using take_add [of "b - a" "c - b" "drop a s"] by (simp add: slice_def)

lemma slice_nth: "i < b - a \<Longrightarrow> a + i < length s \<Longrightarrow> slice s a b ! i = s ! (a + i)"
  by (simp add: slice_def)


subsection \<open>Searching and splitting\<close>

fun find_byte :: "char \<Rightarrow> string \<Rightarrow> nat option" where
  "find_byte c [] = None"
| "find_byte c (b # bs) = (if b = c then Some 0 else map_option Suc (find_byte c bs))"

definition rfind_byte :: "char \<Rightarrow> string \<Rightarrow> nat option" where
  "rfind_byte c s = map_option (\<lambda>i. length s - 1 - i) (find_byte c (rev s))"

lemma find_byte_None: "find_byte c s = None \<longleftrightarrow> c \<notin> set s"
  by (induction s) auto

lemma find_byte_Some:
  "find_byte c s = Some i \<longleftrightarrow> i < length s \<and> s ! i = c \<and> c \<notin> set (take i s)"
proof (induction s arbitrary: i)
  case Nil
  then show ?case by simp
next
  case (Cons b bs)
  then show ?case by (cases i) auto
qed

lemma find_byte_Some_bound: "find_byte c s = Some i \<Longrightarrow> i < length s"
  by (simp add: find_byte_Some)

lemma find_byte_Some_mem: "find_byte c s = Some i \<Longrightarrow> c \<in> set s"
  by (auto simp: find_byte_Some)

lemma rfind_byte_None: "rfind_byte c s = None \<longleftrightarrow> c \<notin> set s"
  by (simp add: rfind_byte_def find_byte_None)

lemma rfind_byte_Some:
  assumes "rfind_byte c s = Some i"
  shows "i < length s" and "s ! i = c" and "c \<notin> set (drop (Suc i) s)"
proof -
  from assms obtain j where j: "find_byte c (rev s) = Some j" and i: "i = length s - 1 - j"
    by (auto simp: rfind_byte_def)
  from j have jl: "j < length s" and sj: "rev s ! j = c" and nj: "c \<notin> set (take j (rev s))"
    by (auto simp: find_byte_Some)
  show "i < length s" using i jl by simp
  show "s ! i = c" using i jl sj by (simp add: rev_nth)
  have "take j (rev s) = rev (drop (Suc i) s)"
    using i jl by (simp add: take_rev Suc_diff_Suc)
  with nj show "c \<notin> set (drop (Suc i) s)" by simp
qed

lemma rfind_byte_Some_mem: "rfind_byte c s = Some i \<Longrightarrow> c \<in> set s"
  by (metis nth_mem rfind_byte_Some(1,2))

definition starts_with :: "string \<Rightarrow> string \<Rightarrow> bool" where
  "starts_with s p \<longleftrightarrow> take (length p) s = p"

definition ends_with_byte :: "string \<Rightarrow> char \<Rightarrow> bool" where
  "ends_with_byte s c \<longleftrightarrow> s \<noteq> [] \<and> last s = c"

definition strip_prefix :: "string \<Rightarrow> string \<Rightarrow> string option" where
  "strip_prefix s p = (if starts_with s p then Some (drop (length p) s) else None)"

lemma starts_with_append: "starts_with s p \<longleftrightarrow> (\<exists>t. s = p @ t)"
  unfolding starts_with_def by (metis append_take_drop_id append_eq_conv_conj)

lemma strip_prefix_Some [simp]: "strip_prefix s p = Some t \<longleftrightarrow> s = p @ t"
  by (auto simp: strip_prefix_def starts_with_append)

lemma strip_prefix_None: "strip_prefix s p = None \<longleftrightarrow> \<not> starts_with s p"
  by (simp add: strip_prefix_def)

fun contains_str :: "string \<Rightarrow> string \<Rightarrow> bool" where
  "contains_str [] p = (p = [])"
| "contains_str (b # bs) p = (starts_with (b # bs) p \<or> contains_str bs p)"

definition split_once :: "char \<Rightarrow> string \<Rightarrow> (string \<times> string) option" where
  "split_once c s = map_option (\<lambda>i. (take i s, drop (Suc i) s)) (find_byte c s)"

lemma split_once_Some:
  "split_once c s = Some (a, b) \<longleftrightarrow> s = a @ c # b \<and> c \<notin> set a"
proof
  assume "split_once c s = Some (a, b)"
  then obtain i where i: "find_byte c s = Some i" and a: "a = take i s" and b: "b = drop (Suc i) s"
    by (auto simp: split_once_def)
  then show "s = a @ c # b \<and> c \<notin> set a"
    by (auto simp: find_byte_Some id_take_nth_drop)
next
  assume s: "s = a @ c # b \<and> c \<notin> set a"
  then have "find_byte c s = Some (length a)"
    by (auto simp: find_byte_Some)
  with s show "split_once c s = Some (a, b)"
    by (simp add: split_once_def find_byte_None)
qed

lemma split_once_None: "split_once c s = None \<longleftrightarrow> c \<notin> set s"
  by (simp add: split_once_def find_byte_None)

fun split_on :: "char \<Rightarrow> string \<Rightarrow> string list" where
  "split_on c [] = [[]]"
| "split_on c (b # bs) =
     (if b = c then [] # split_on c bs
      else (b # hd (split_on c bs)) # tl (split_on c bs))"

lemma split_on_not_Nil [simp]: "split_on c s \<noteq> []"
  by (cases s) auto

lemma split_on_no_sep: "x \<in> set (split_on c s) \<Longrightarrow> c \<notin> set x"
proof (induction s arbitrary: x)
  case Nil
  then show ?case by simp
next
  case (Cons b bs)
  have "hd (split_on c bs) \<in> set (split_on c bs)" by simp
  with Cons show ?case by (auto split: if_splits dest: list.set_sel(2) [rotated])
qed

lemma split_on_none: "c \<notin> set a \<Longrightarrow> split_on c a = [a]"
  by (induction a) auto

lemma split_on_append: "c \<notin> set a \<Longrightarrow> split_on c (a @ c # b) = a # split_on c b"
  by (induction a) auto

fun join :: "string \<Rightarrow> string list \<Rightarrow> string" where
  "join sep [] = []"
| "join sep [x] = x"
| "join sep (x # y # ys) = x @ sep @ join sep (y # ys)"

lemma join_Cons: "xs \<noteq> [] \<Longrightarrow> join sep (x # xs) = x @ sep @ join sep xs"
  by (cases xs) auto

lemma join_split_on [simp]: "join [c] (split_on c s) = s"
proof (induction s)
  case (Cons b bs)
  then show ?case by (cases "split_on c bs"; cases "tl (split_on c bs)") (auto simp: join_Cons)
qed simp

lemma split_on_join:
  "xs \<noteq> [] \<Longrightarrow> \<forall>x \<in> set xs. c \<notin> set x \<Longrightarrow> split_on c (join [c] xs) = xs"
  by (induction "[c]" xs rule: join.induct) (auto simp: split_on_none split_on_append)

lemma set_join: "set (join sep xs) \<subseteq> \<Union> (set ` set xs) \<union> set sep"
  by (induction sep xs rule: join.induct) auto

lemma rfind_byte_append: "c \<notin> set b \<Longrightarrow> rfind_byte c (a @ c # b) = Some (length a)"
proof -
  assume "c \<notin> set b"
  then have "find_byte c (rev b @ c # rev a) = Some (length b)"
    by (simp add: find_byte_Some nth_append)
  then show ?thesis by (simp add: rfind_byte_def)
qed

lemma find_byte_append: "c \<notin> set a \<Longrightarrow> find_byte c (a @ c # b) = Some (length a)"
  by (auto simp: find_byte_Some)

lemma find_byte_split:
  assumes "find_byte c s = Some i"
  shows "s = take i s @ c # drop (Suc i) s" and "c \<notin> set (take i s)"
  using assms id_take_nth_drop [of i s] by (simp_all add: find_byte_Some)

lemma rfind_byte_split:
  assumes "rfind_byte c s = Some i"
  shows "s = take i s @ c # drop (Suc i) s" and "c \<notin> set (drop (Suc i) s)"
  using rfind_byte_Some [OF assms] id_take_nth_drop [of i s] by simp_all


subsection \<open>Decimal numbers\<close>

definition digit_value :: "char \<Rightarrow> nat" where
  "digit_value c = byte c - 48"

definition digit_char :: "nat \<Rightarrow> char" where
  "digit_char d = char_of (48 + d)"

definition dec_value :: "string \<Rightarrow> nat" where
  "dec_value s = foldl (\<lambda>n c. 10 * n + digit_value c) 0 s"

fun show_nat :: "nat \<Rightarrow> string" where
  "show_nat n =
     (if n < 10 then [digit_char n] else show_nat (n div 10) @ [digit_char (n mod 10)])"

declare show_nat.simps [simp del]

lemma byte_digit_char [simp]: "d < 10 \<Longrightarrow> byte (digit_char d) = 48 + d"
  by (simp add: byte_def digit_char_def)

lemma is_ascii_digit_digit_char [simp]: "d < 10 \<Longrightarrow> is_ascii_digit (digit_char d)"
  by (simp add: is_ascii_digit_def)

lemma digit_value_digit_char [simp]: "d < 10 \<Longrightarrow> digit_value (digit_char d) = d"
  by (simp add: digit_value_def)

lemma digit_value_less: "is_ascii_digit c \<Longrightarrow> digit_value c < 10"
  by (auto simp: is_ascii_digit_def digit_value_def)

lemma dec_value_simps [simp]:
  "dec_value [] = 0"
  "dec_value (s @ [c]) = 10 * dec_value s + digit_value c"
  by (simp_all add: dec_value_def)

lemma dec_value_show_nat [simp]: "dec_value (show_nat n) = n"
proof (induction n rule: show_nat.induct)
  case (1 n)
  show ?case
  proof (cases "n < 10")
    case True
    then show ?thesis by (subst show_nat.simps) (simp add: dec_value_def)
  next
    case False
    with 1 show ?thesis by (subst show_nat.simps) simp
  qed
qed

lemma show_nat_digits: "list_all is_ascii_digit (show_nat n)"
proof (induction n rule: show_nat.induct)
  case (1 n)
  then show ?case by (subst show_nat.simps) simp
qed

lemma show_nat_not_Nil [simp]: "show_nat n \<noteq> []"
  by (subst show_nat.simps) simp

text \<open>
  \<open>str::parse::<uN>()\<close> for an unsigned type of \<open>w\<close> bits: an optional leading \<open>+\<close> followed by
  at least one digit, nothing else, and a value that fits.
\<close>

definition parse_uint :: "nat \<Rightarrow> string \<Rightarrow> nat option" where
  "parse_uint w s =
     (let ds = (case s of c # cs \<Rightarrow> if c = CHR ''+'' \<and> cs \<noteq> [] then cs else s | [] \<Rightarrow> [])
      in if ds \<noteq> [] \<and> list_all is_ascii_digit ds \<and> dec_value ds < 2 ^ w
         then Some (dec_value ds) else None)"

lemma parse_uint_bound: "parse_uint w s = Some n \<Longrightarrow> n < 2 ^ w"
  by (auto simp: parse_uint_def Let_def split: if_splits)

lemma parse_uint_show_nat: "n < 2 ^ w \<Longrightarrow> parse_uint w (show_nat n) = Some n"
proof -
  assume n: "n < 2 ^ w"
  have d: "list_all is_ascii_digit (show_nat n)" by (rule show_nat_digits)
  obtain c cs where s: "show_nat n = c # cs" by (cases "show_nat n") auto
  with d have "c \<noteq> CHR ''+''" by (auto simp: is_ascii_digit_def byte_def)
  then show ?thesis
    using n d s dec_value_show_nat [of n] by (simp add: parse_uint_def Let_def)
qed


subsection \<open>Checked machine arithmetic\<close>

definition checked_add :: "'w::len word \<Rightarrow> 'w word \<Rightarrow> 'w word option" where
  "checked_add a b = (if unat a + unat b < 2 ^ LENGTH('w) then Some (a + b) else None)"

definition checked_mul :: "'w::len word \<Rightarrow> 'w word \<Rightarrow> 'w word option" where
  "checked_mul a b = (if unat a * unat b < 2 ^ LENGTH('w) then Some (a * b) else None)"

lemma checked_add_Some: "checked_add a b = Some c \<Longrightarrow> unat c = unat a + unat b"
  by (auto simp: checked_add_def unat_word_ariths split: if_splits)

lemma checked_mul_Some: "checked_mul a b = Some c \<Longrightarrow> unat c = unat a * unat b"
  by (auto simp: checked_mul_def unat_word_ariths split: if_splits)

lemma checked_add_None: "checked_add a b = None \<longleftrightarrow> 2 ^ LENGTH('w) \<le> unat a + unat (b :: 'w::len word)"
  by (auto simp: checked_add_def)

lemma checked_mul_None: "checked_mul a b = None \<longleftrightarrow> 2 ^ LENGTH('w) \<le> unat a * unat (b :: 'w::len word)"
  by (auto simp: checked_mul_def)

end
