(* ===== verification/Validation.thy ===== *)
theory Validation
  imports Prelude
begin

text \<open>
  The interface of the validated newtypes, \<open>crates/umf-core/src/types/mod.rs\<close>: the trait
  \<open>ValidationError\<close> as a record of what a trait object answers, and the contract that every
  newtype constructor keeps as a locale.  Each newtype's theory interprets the locale on its own
  constructor, with the grammar the type promises as the reference predicate.
\<close>

section \<open>The trait object\<close>

record validation_error =
  ve_text :: string
  ve_offset :: "nat option"
  ve_hint :: "string option"

definition dyn_error ::
  "('e \<Rightarrow> string) \<Rightarrow> ('e \<Rightarrow> nat option) \<Rightarrow> ('e \<Rightarrow> string option) \<Rightarrow> 'e \<Rightarrow> validation_error" where
  "dyn_error text offset hint e =
     \<lparr> ve_text = text e, ve_offset = offset e, ve_hint = hint e \<rparr>"

definition map_error :: "('e \<Rightarrow> 'f) \<Rightarrow> 'e + 'a \<Rightarrow> 'f + 'a" where
  "map_error f r = (case r of Inl e \<Rightarrow> Inl (f e) | Inr a \<Rightarrow> Inr a)"

lemma ve_offset_dyn_error [simp]: "ve_offset (dyn_error t off h e) = off e"
  by (simp add: dyn_error_def)

lemma map_error_simps [simp]:
  "map_error f (Inl e) = Inl (f e)"
  "map_error f (Inr a) = Inr a"
  by (simp_all add: map_error_def)

lemma map_error_Inr [simp]: "map_error f r = Inr a \<longleftrightarrow> r = Inr a"
  by (cases r) auto

lemma map_error_Inl: "map_error f r = Inl v \<longleftrightarrow> (\<exists>e. r = Inl e \<and> v = f e)"
  by (cases r) auto


section \<open>The contract of a newtype\<close>

locale validated_newtype =
  fixes new :: "string \<Rightarrow> 'e + 'a"
    and as_str :: "'a \<Rightarrow> string"
    and offset :: "'e \<Rightarrow> nat option"
    and grammar :: "string \<Rightarrow> bool"
  assumes accepts: "(\<exists>x. new s = Inr x) \<longleftrightarrow> grammar s"
    and keeps: "new s = Inr x \<Longrightarrow> as_str x = s"
    and offset_in: "new s = Inl e \<Longrightarrow> offset e = Some i \<Longrightarrow> i \<le> length s"
begin

lemma ok_grammar: "new s = Inr x \<Longrightarrow> grammar (as_str x)"
  using accepts keeps by metis

lemma roundtrip: "new s = Inr x \<Longrightarrow> new (as_str x) = Inr x"
  using keeps by simp

lemma inj: "new s = Inr x \<Longrightarrow> new t = Inr x \<Longrightarrow> s = t"
  using keeps by metis

lemma rejects: "(\<exists>e. new s = Inl e) \<longleftrightarrow> \<not> grammar s"
  using accepts by (metis Inl_Inr_False sum.exhaust)

lemma dyn_offset_in:
  "map_error (dyn_error t offset h) (new s) = Inl v \<Longrightarrow> ve_offset v = Some i \<Longrightarrow> i \<le> length s"
  using offset_in by (auto simp: map_error_Inl)

end


section \<open>Scans over characters\<close>

text \<open>
  Every character test of the newtypes accepts ASCII only, so a scan over the characters of a
  string decides the same as the test of each byte.
\<close>

lemma find_None_iff_all: "find (\<lambda>(i, ch). \<not> P ch) xs = None \<longleftrightarrow> (\<forall>x \<in> set xs. P (snd x))"
  by (auto simp: find_None_iff split: prod.splits)

lemma find_Some_mem: "find P xs = Some x \<Longrightarrow> x \<in> set xs"
  by (auto simp: find_Some_iff)

lemma char_indices_find_bound:
  assumes "find P (char_indices s) = Some (i, ch)"
  shows "i < length s"
  using char_indices_from_mem [of i ch 0 s] find_Some_mem [OF assms] by (simp add: char_indices_def)

lemma char_indices_mem_bound: "(i, ch) \<in> set (char_indices s) \<Longrightarrow> i < length s"
  using char_indices_from_mem [of i ch 0 s] by (simp add: char_indices_def)

lemma char_indices_all:
  assumes "\<And>c. P c \<Longrightarrow> byte c < 128"
  shows "find (\<lambda>(i, ch). \<not> uchar_is P ch) (char_indices s) = None \<longleftrightarrow> list_all P s"
  using char_indices_from_all [of P 0 s] assms by (simp add: find_None_iff_all char_indices_def)

text \<open>A leading character of one class followed by characters of another.\<close>

definition lead_rest :: "(char \<Rightarrow> bool) \<Rightarrow> (char \<Rightarrow> bool) \<Rightarrow> string \<Rightarrow> bool" where
  "lead_rest P Q s = (case s of [] \<Rightarrow> False | b # bs \<Rightarrow> P b \<and> list_all Q bs)"

lemma char_indices_cases:
  obtains (empty) "s = []" "char_indices s = []"
  | (ascii) b bs where "s = b # bs" "byte b < 128" "char_indices s = (0, [b]) # char_indices_from 1 bs"
  | (multi) b bs u rest where "s = b # bs" "128 \<le> byte b" "char_indices s = (0, b # u) # rest"
proof (cases s)
  case Nil
  then show ?thesis using empty by simp
next
  case (Cons b bs)
  then show ?thesis
    using ascii [of b bs] multi [of b bs] by (cases "byte b < 128") (auto simp: char_indices_def)
qed

lemma uchar_is_Cons: "uchar_is P (b # u) \<longleftrightarrow> u = [] \<and> P b"
  by (cases u) auto

lemma char_indices_lead_rest:
  assumes P: "\<And>c. P c \<Longrightarrow> byte c < 128" and Q: "\<And>c. Q c \<Longrightarrow> byte c < 128"
  shows "(case char_indices s of
            [] \<Rightarrow> False
          | (_, first) # rest \<Rightarrow>
              uchar_is P first \<and> find (\<lambda>(i, ch). \<not> uchar_is Q ch) rest = None) \<longleftrightarrow> lead_rest P Q s"
proof (cases s rule: char_indices_cases)
  case (ascii b bs)
  have "(\<forall>x \<in> set (char_indices_from 1 bs). uchar_is Q (snd x)) \<longleftrightarrow> list_all Q bs"
    using Q by (rule char_indices_from_all)
  with ascii show ?thesis by (simp add: lead_rest_def find_None_iff_all)
next
  case (multi b bs u rest)
  with P [of b] show ?thesis by (auto simp: lead_rest_def uchar_is_Cons)
qed (simp add: lead_rest_def char_indices_def)

end
