(* ===== verification/Identifiers.thy ===== *)
theory Identifiers
  imports Validation
begin

text \<open>
  The identifier newtypes of \<open>crates/umf-core/src/types/identifier/\<close>: environment variable names
  and values, label keys and values, stage names, secret ids, service unit names and user
  specifications.  For each: the type, its error type with text, offset and hint, and the
  constructor.
\<close>

section \<open>Shared helper (\<open>identifier/mod.rs\<close>)\<close>

definition reject_nul :: "string \<Rightarrow> nat + unit" where
  "reject_nul raw = (case find_byte NUL raw of Some pos \<Rightarrow> Inl pos | None \<Rightarrow> Inr ())"


section \<open>Environment variables (\<open>identifier/env.rs\<close>)\<close>

datatype EnvVarName = EnvVarName (env_name_str: string)

datatype EnvVarNameError =
    EVN_Empty
  | EVN_InvalidLeadingChar uchar
  | EVN_InvalidChar uchar nat

definition EnvVarName_new :: "string \<Rightarrow> EnvVarNameError + EnvVarName" where
  "EnvVarName_new raw =
     (case char_indices raw of
        [] \<Rightarrow> Inl EVN_Empty
      | (_, first) # rest \<Rightarrow>
          if \<not> uchar_is (\<lambda>b. is_ascii_alphabetic b \<or> b = CHR ''_'') first
          then Inl (EVN_InvalidLeadingChar first)
          else (case find (\<lambda>(i, ch). \<not> uchar_is (\<lambda>b. is_ascii_alphanumeric b \<or> b = CHR ''_'') ch) rest of
                  Some (i, ch) \<Rightarrow> Inl (EVN_InvalidChar ch i)
                | None \<Rightarrow> Inr (EnvVarName raw)))"

fun EnvVarNameError_text :: "EnvVarNameError \<Rightarrow> string" where
  "EnvVarNameError_text EVN_Empty = ''environment variable name cannot be empty''"
| "EnvVarNameError_text (EVN_InvalidLeadingChar ch) =
     ''environment variable name must start with a letter or `_`, not `'' @ ch @ ''`''"
| "EnvVarNameError_text (EVN_InvalidChar ch _) =
     ''environment variable name may only contain letters, digits, and `_` '' @ EM_DASH @
     '' found `'' @ ch @ ''`''"

fun EnvVarNameError_offset :: "EnvVarNameError \<Rightarrow> nat option" where
  "EnvVarNameError_offset EVN_Empty = None"
| "EnvVarNameError_offset (EVN_InvalidLeadingChar _) = Some 0"
| "EnvVarNameError_offset (EVN_InvalidChar _ offset) = Some offset"

definition EnvVarNameError_hint :: "EnvVarNameError \<Rightarrow> string option" where
  "EnvVarNameError_hint _ = Some ''env var names follow POSIX: `[A-Za-z_][A-Za-z0-9_]*`''"

datatype EnvVarValue = EnvVarValue (env_value_str: string)

datatype EnvVarValueError = EVV_NulByte nat

definition EnvVarValue_new :: "string \<Rightarrow> EnvVarValueError + EnvVarValue" where
  "EnvVarValue_new raw =
     (case reject_nul raw of
        Inl offset \<Rightarrow> Inl (EVV_NulByte offset)
      | Inr _ \<Rightarrow> Inr (EnvVarValue raw))"

fun EnvVarValueError_text :: "EnvVarValueError \<Rightarrow> string" where
  "EnvVarValueError_text (EVV_NulByte _) = ''environment variable value cannot contain a NUL byte''"

fun EnvVarValueError_offset :: "EnvVarValueError \<Rightarrow> nat option" where
  "EnvVarValueError_offset (EVV_NulByte offset) = Some offset"


section \<open>Labels (\<open>identifier/label.rs\<close>)\<close>

datatype LabelKey = LabelKey (label_key_str: string)

datatype LabelKeyError =
    LK_Empty
  | LK_InvalidSegmentStart uchar nat
  | LK_InvalidChar uchar nat
  | LK_LeadingSeparator uchar nat
  | LK_TrailingSeparator nat
  | LK_ConsecutiveSeparators nat

text \<open>The two loops of \<open>LabelKey::new\<close>; the first returns the final \<open>prev_was_separator\<close>, the
  second the final \<open>segment_start\<close>.\<close>

fun label_key_scan :: "bool \<Rightarrow> (nat \<times> uchar) list \<Rightarrow> LabelKeyError + bool" where
  "label_key_scan prev_was_separator [] = Inr prev_was_separator"
| "label_key_scan prev_was_separator ((i, ch) # rest) =
     (if uchar_is (\<lambda>b. is_ascii_lowercase b \<or> is_ascii_digit b) ch then label_key_scan False rest
      else if ch = ''.'' \<or> ch = ''-'' then
        (if prev_was_separator then Inl (LK_ConsecutiveSeparators i)
         else if i = 0 then Inl (LK_LeadingSeparator ch 0)
         else label_key_scan True rest)
      else Inl (LK_InvalidChar ch i))"

definition check_segment_start :: "string \<Rightarrow> nat \<Rightarrow> LabelKeyError option" where
  "check_segment_start segment segment_start =
     (case chars segment of
        first # _ \<Rightarrow>
          if \<not> uchar_is is_ascii_lowercase first
          then Some (LK_InvalidSegmentStart first segment_start) else None
      | [] \<Rightarrow> None)"

fun label_key_segments ::
  "string \<Rightarrow> nat \<Rightarrow> (nat \<times> uchar) list \<Rightarrow> LabelKeyError + nat" where
  "label_key_segments raw segment_start [] = Inr segment_start"
| "label_key_segments raw segment_start ((i, ch) # rest) =
     (if ch = ''.'' then
        (case check_segment_start (slice raw segment_start i) segment_start of
           Some e \<Rightarrow> Inl e
         | None \<Rightarrow> label_key_segments raw (i + 1) rest)
      else label_key_segments raw segment_start rest)"

definition LabelKey_new :: "string \<Rightarrow> LabelKeyError + LabelKey" where
  "LabelKey_new raw =
     (case raw of
        [] \<Rightarrow> Inl LK_Empty
      | b # _ \<Rightarrow>
          if \<not> is_ascii_lowercase b
          then Inl (LK_InvalidSegmentStart (hd (chars raw)) 0)
          else (case label_key_scan False (char_indices raw) of
                  Inl e \<Rightarrow> Inl e
                | Inr prev_was_separator \<Rightarrow>
                    if prev_was_separator then Inl (LK_TrailingSeparator (length raw - 1))
                    else (case label_key_segments raw 0 (char_indices raw) of
                            Inl e \<Rightarrow> Inl e
                          | Inr segment_start \<Rightarrow>
                              (case check_segment_start (drop segment_start raw) segment_start of
                                 Some e \<Rightarrow> Inl e
                               | None \<Rightarrow> Inr (LabelKey raw)))))"

fun LabelKeyError_text :: "LabelKeyError \<Rightarrow> string" where
  "LabelKeyError_text LK_Empty = ''label key cannot be empty''"
| "LabelKeyError_text (LK_InvalidSegmentStart ch _) =
     ''label key segment must start with a lowercase letter, not `'' @ ch @ ''`''"
| "LabelKeyError_text (LK_InvalidChar ch _) =
     ''label key may only contain lowercase letters, digits, `.`, and `-` '' @ EM_DASH @
     '' found `'' @ ch @ ''`''"
| "LabelKeyError_text (LK_LeadingSeparator ch _) = ''label key cannot start with `'' @ ch @ ''`''"
| "LabelKeyError_text (LK_TrailingSeparator _) = ''label key cannot end with a separator''"
| "LabelKeyError_text (LK_ConsecutiveSeparators _) =
     ''label key cannot contain consecutive separators''"

fun LabelKeyError_offset :: "LabelKeyError \<Rightarrow> nat option" where
  "LabelKeyError_offset LK_Empty = None"
| "LabelKeyError_offset (LK_InvalidSegmentStart _ offset) = Some offset"
| "LabelKeyError_offset (LK_InvalidChar _ offset) = Some offset"
| "LabelKeyError_offset (LK_LeadingSeparator _ offset) = Some offset"
| "LabelKeyError_offset (LK_TrailingSeparator offset) = Some offset"
| "LabelKeyError_offset (LK_ConsecutiveSeparators offset) = Some offset"

definition LabelKeyError_hint :: "LabelKeyError \<Rightarrow> string option" where
  "LabelKeyError_hint _ =
     Some ''OCI label keys are reverse-DNS, e.g. `org.imagilux.umf.author`''"

datatype LabelValue = LabelValue (label_value_str: string)

datatype LabelValueError = LV_NulByte nat

definition LabelValue_new :: "string \<Rightarrow> LabelValueError + LabelValue" where
  "LabelValue_new raw =
     (case reject_nul raw of
        Inl offset \<Rightarrow> Inl (LV_NulByte offset)
      | Inr _ \<Rightarrow> Inr (LabelValue raw))"

fun LabelValueError_text :: "LabelValueError \<Rightarrow> string" where
  "LabelValueError_text (LV_NulByte _) = ''label value cannot contain a NUL byte''"

fun LabelValueError_offset :: "LabelValueError \<Rightarrow> nat option" where
  "LabelValueError_offset (LV_NulByte offset) = Some offset"


section \<open>Stage names and secret ids (\<open>identifier/stage.rs\<close>)\<close>

datatype BareIdentifierViolation =
    BI_Empty
  | BI_InvalidLeadingChar uchar
  | BI_InvalidChar uchar nat

definition validate_bare_identifier :: "string \<Rightarrow> BareIdentifierViolation + unit" where
  "validate_bare_identifier raw =
     (case char_indices raw of
        [] \<Rightarrow> Inl BI_Empty
      | (_, first) # rest \<Rightarrow>
          if \<not> uchar_is (\<lambda>b. is_ascii_alphabetic b \<or> b = CHR ''_'') first
          then Inl (BI_InvalidLeadingChar first)
          else (case find (\<lambda>(i, ch). \<not> uchar_is
                  (\<lambda>b. is_ascii_alphanumeric b \<or> b = CHR ''_'' \<or> b = CHR ''-'') ch) rest of
                  Some (i, ch) \<Rightarrow> Inl (BI_InvalidChar ch i)
                | None \<Rightarrow> Inr ()))"

datatype StageName = StageName (stage_name_str: string)

datatype StageNameError =
    SN_Empty
  | SN_InvalidLeadingChar uchar
  | SN_InvalidChar uchar nat

definition StageName_new :: "string \<Rightarrow> StageNameError + StageName" where
  "StageName_new raw =
     (case validate_bare_identifier raw of
        Inr _ \<Rightarrow> Inr (StageName raw)
      | Inl BI_Empty \<Rightarrow> Inl SN_Empty
      | Inl (BI_InvalidLeadingChar ch) \<Rightarrow> Inl (SN_InvalidLeadingChar ch)
      | Inl (BI_InvalidChar ch offset) \<Rightarrow> Inl (SN_InvalidChar ch offset))"

fun StageNameError_text :: "StageNameError \<Rightarrow> string" where
  "StageNameError_text SN_Empty = ''stage name cannot be empty''"
| "StageNameError_text (SN_InvalidLeadingChar ch) =
     ''stage name must start with a letter or `_`, not `'' @ ch @ ''`''"
| "StageNameError_text (SN_InvalidChar ch _) =
     ''stage name may only contain letters, digits, `_`, and `-` '' @ EM_DASH @
     '' found `'' @ ch @ ''`''"

fun StageNameError_offset :: "StageNameError \<Rightarrow> nat option" where
  "StageNameError_offset SN_Empty = None"
| "StageNameError_offset (SN_InvalidLeadingChar _) = Some 0"
| "StageNameError_offset (SN_InvalidChar _ offset) = Some offset"

definition StageNameError_hint :: "StageNameError \<Rightarrow> string option" where
  "StageNameError_hint _ =
     Some ''stage names look like identifiers: e.g. `builder`, `runtime-stage`''"

datatype SecretId = SecretId (secret_id_str: string)

datatype SecretIdError =
    SI_Empty
  | SI_InvalidLeadingChar uchar
  | SI_InvalidChar uchar nat

definition SecretId_new :: "string \<Rightarrow> SecretIdError + SecretId" where
  "SecretId_new raw =
     (case validate_bare_identifier raw of
        Inr _ \<Rightarrow> Inr (SecretId raw)
      | Inl BI_Empty \<Rightarrow> Inl SI_Empty
      | Inl (BI_InvalidLeadingChar ch) \<Rightarrow> Inl (SI_InvalidLeadingChar ch)
      | Inl (BI_InvalidChar ch offset) \<Rightarrow> Inl (SI_InvalidChar ch offset))"

fun SecretIdError_text :: "SecretIdError \<Rightarrow> string" where
  "SecretIdError_text SI_Empty = ''secret id cannot be empty''"
| "SecretIdError_text (SI_InvalidLeadingChar ch) =
     ''secret id must start with a letter or `_`, not `'' @ ch @ ''`''"
| "SecretIdError_text (SI_InvalidChar ch _) =
     ''secret id may only contain letters, digits, `_`, and `-` '' @ EM_DASH @
     '' found `'' @ ch @ ''`''"

fun SecretIdError_offset :: "SecretIdError \<Rightarrow> nat option" where
  "SecretIdError_offset SI_Empty = None"
| "SecretIdError_offset (SI_InvalidLeadingChar _) = Some 0"
| "SecretIdError_offset (SI_InvalidChar _ offset) = Some offset"

definition SecretIdError_hint :: "SecretIdError \<Rightarrow> string option" where
  "SecretIdError_hint _ = Some ''secret ids look like identifiers: e.g. `signing-key`''"


section \<open>Service unit names (\<open>identifier/unit.rs\<close>)\<close>

datatype UnitSuffix =
    SufService | SufSocket | SufTimer | SufTarget | SufPath | SufMount
  | SufDevice | SufSwap | SufSlice | SufScope | SufAutomount

fun UnitSuffix_as_str :: "UnitSuffix \<Rightarrow> string" where
  "UnitSuffix_as_str SufService = ''service''"
| "UnitSuffix_as_str SufSocket = ''socket''"
| "UnitSuffix_as_str SufTimer = ''timer''"
| "UnitSuffix_as_str SufTarget = ''target''"
| "UnitSuffix_as_str SufPath = ''path''"
| "UnitSuffix_as_str SufMount = ''mount''"
| "UnitSuffix_as_str SufDevice = ''device''"
| "UnitSuffix_as_str SufSwap = ''swap''"
| "UnitSuffix_as_str SufSlice = ''slice''"
| "UnitSuffix_as_str SufScope = ''scope''"
| "UnitSuffix_as_str SufAutomount = ''automount''"

definition UnitSuffix_from_str :: "string \<Rightarrow> UnitSuffix option" where
  "UnitSuffix_from_str s =
     (if s = ''service'' then Some SufService
      else if s = ''socket'' then Some SufSocket
      else if s = ''timer'' then Some SufTimer
      else if s = ''target'' then Some SufTarget
      else if s = ''path'' then Some SufPath
      else if s = ''mount'' then Some SufMount
      else if s = ''device'' then Some SufDevice
      else if s = ''swap'' then Some SufSwap
      else if s = ''slice'' then Some SufSlice
      else if s = ''scope'' then Some SufScope
      else if s = ''automount'' then Some SufAutomount
      else None)"

record ServiceUnitName =
  unit_raw :: string
  unit_suffix_start :: "nat option"
  unit_suffix :: "UnitSuffix option"

datatype ServiceUnitNameError =
    SU_Empty
  | SU_EmptyBareName
  | SU_InvalidChar uchar nat
  | SU_UnknownSuffix string nat

definition unit_char :: "char \<Rightarrow> bool" where
  "unit_char b \<longleftrightarrow> is_ascii_alphanumeric b \<or> b \<in> set ''_.-@:''"

definition ServiceUnitName_new :: "string \<Rightarrow> ServiceUnitNameError + ServiceUnitName" where
  "ServiceUnitName_new raw =
     (if raw = [] then Inl SU_Empty
      else case find (\<lambda>(i, ch). \<not> uchar_is unit_char ch) (char_indices raw) of
        Some (i, ch) \<Rightarrow> Inl (SU_InvalidChar ch i)
      | None \<Rightarrow>
          let plain = Inr \<lparr> unit_raw = raw, unit_suffix_start = None, unit_suffix = None \<rparr>
          in (case rfind_byte CHR ''.'' raw of
                Some dot_pos \<Rightarrow>
                  let tail = drop (dot_pos + 1) raw
                  in if tail \<noteq> [] \<and> list_all (uchar_is is_ascii_alphabetic) (chars tail)
                     then (case UnitSuffix_from_str tail of
                             Some suf \<Rightarrow>
                               if dot_pos = 0 then Inl SU_EmptyBareName
                               else Inr \<lparr> unit_raw = raw, unit_suffix_start = Some (dot_pos + 1),
                                          unit_suffix = Some suf \<rparr>
                           | None \<Rightarrow> Inl (SU_UnknownSuffix tail (dot_pos + 1)))
                     else plain
              | None \<Rightarrow> plain))"

definition bare_name :: "ServiceUnitName \<Rightarrow> string" where
  "bare_name u = (case unit_suffix_start u of
     Some pos \<Rightarrow> take (pos - 1) (unit_raw u)
   | None \<Rightarrow> unit_raw u)"

definition with_default_suffix :: "ServiceUnitName \<Rightarrow> UnitSuffix \<Rightarrow> string" where
  "with_default_suffix u dflt =
     (if unit_suffix u \<noteq> None then unit_raw u
      else unit_raw u @ ''.'' @ UnitSuffix_as_str dflt)"

fun ServiceUnitNameError_offset :: "ServiceUnitNameError \<Rightarrow> nat option" where
  "ServiceUnitNameError_offset SU_Empty = None"
| "ServiceUnitNameError_offset SU_EmptyBareName = None"
| "ServiceUnitNameError_offset (SU_InvalidChar _ offset) = Some offset"
| "ServiceUnitNameError_offset (SU_UnknownSuffix _ offset) = Some offset"


section \<open>User specifications (\<open>identifier/user.rs\<close>)\<close>

datatype Username = Username (username_str: string)

datatype UsernameError =
    UN_Empty
  | UN_EmptyUser
  | UN_EmptyGroup nat
  | UN_TooLong nat nat
  | UN_InvalidLeadingChar uchar nat
  | UN_InvalidChar uchar nat
  | UN_NumericOverflow nat

definition MAX_LOGIN_LEN :: nat where
  "MAX_LOGIN_LEN = 32"

definition login_body_char :: "char \<Rightarrow> bool" where
  "login_body_char b \<longleftrightarrow>
     is_ascii_lowercase b \<or> is_ascii_digit b \<or> b = CHR ''_'' \<or> b = CHR ''-''"

definition validate_user_component :: "string \<Rightarrow> nat \<Rightarrow> UsernameError + unit" where
  "validate_user_component component base_offset =
     (if list_all (uchar_is is_ascii_digit) (chars component) then
        (case parse_uint 32 component of
           None \<Rightarrow> Inl (UN_NumericOverflow base_offset)
         | Some _ \<Rightarrow> Inr ())
      else if length component > MAX_LOGIN_LEN
      then Inl (UN_TooLong base_offset (length component))
      else case char_indices component of
        [] \<Rightarrow> Inl UN_Empty
      | (_, first) # rest \<Rightarrow>
          if \<not> uchar_is (\<lambda>b. is_ascii_lowercase b \<or> b = CHR ''_'') first
          then Inl (UN_InvalidLeadingChar first base_offset)
          else
            let end_byte = length component;
                body_end = (if ends_with_byte component CHR ''$'' then end_byte - 1 else end_byte)
            in (case find (\<lambda>(i, ch). \<not> uchar_is login_body_char ch)
                       (takeWhile (\<lambda>(i, ch). i < body_end) rest) of
                  Some (i, ch) \<Rightarrow> Inl (UN_InvalidChar ch (base_offset + i))
                | None \<Rightarrow> Inr ()))"

definition Username_new :: "string \<Rightarrow> UsernameError + Username" where
  "Username_new raw =
     (if raw = [] then Inl UN_Empty
      else
        let (user, group_offset) =
              (case find_byte CHR '':'' raw of
                 Some pos \<Rightarrow> (take pos raw, Some (pos + 1))
               | None \<Rightarrow> (raw, None))
        in if user = [] then Inl UN_EmptyUser
           else (case validate_user_component user 0 of
                   Inl e \<Rightarrow> Inl e
                 | Inr _ \<Rightarrow>
                     (case group_offset of
                        Some off \<Rightarrow>
                          let grp = drop off raw
                          in if grp = [] then Inl (UN_EmptyGroup off)
                             else (case validate_user_component grp off of
                                     Inl e \<Rightarrow> Inl e
                                   | Inr _ \<Rightarrow> Inr (Username raw))
                      | None \<Rightarrow> Inr (Username raw))))"

fun UsernameError_text :: "UsernameError \<Rightarrow> string" where
  "UsernameError_text UN_Empty = ''user spec cannot be empty''"
| "UsernameError_text UN_EmptyUser = ''user component cannot be empty''"
| "UsernameError_text (UN_EmptyGroup _) = ''group component cannot be empty''"
| "UsernameError_text (UN_TooLong _ len) =
     ''login-name component is '' @ show_nat len @ '' chars '' @ EM_DASH @ '' POSIX limit is 32''"
| "UsernameError_text (UN_InvalidLeadingChar ch _) =
     ''login name must start with a lowercase letter or `_`, not `'' @ ch @ ''`''"
| "UsernameError_text (UN_InvalidChar ch _) =
     ''login name may only contain lowercase letters, digits, `_`, and `-` '' @ EM_DASH @
     '' found `'' @ ch @ ''`''"
| "UsernameError_text (UN_NumericOverflow _) = ''numeric uid/gid must fit in 32 bits''"

fun UsernameError_offset :: "UsernameError \<Rightarrow> nat option" where
  "UsernameError_offset UN_Empty = None"
| "UsernameError_offset UN_EmptyUser = None"
| "UsernameError_offset (UN_EmptyGroup offset) = Some offset"
| "UsernameError_offset (UN_TooLong offset _) = Some offset"
| "UsernameError_offset (UN_InvalidLeadingChar _ offset) = Some offset"
| "UsernameError_offset (UN_InvalidChar _ offset) = Some offset"
| "UsernameError_offset (UN_NumericOverflow offset) = Some offset"

definition UsernameError_hint :: "UsernameError \<Rightarrow> string option" where
  "UsernameError_hint _ = Some ''examples: `nginx`, `1000`, `nginx:nginx`, `0:0`''"

end
