(* ===== verification/Identifier_Laws.thy ===== *)
theory Identifier_Laws
  imports Identifiers
begin

text \<open>
  The identifier newtypes against their grammars: for each type the grammar it promises, stated
  without the scanning loop, and the interpretation of \<open>validated_newtype\<close> on its constructor.
\<close>

section \<open>The grammars\<close>

definition env_name_grammar :: "string \<Rightarrow> bool" where
  "env_name_grammar =
     lead_rest (\<lambda>b. is_ascii_alphabetic b \<or> b = CHR ''_'')
               (\<lambda>b. is_ascii_alphanumeric b \<or> b = CHR ''_'')"

definition bare_identifier_grammar :: "string \<Rightarrow> bool" where
  "bare_identifier_grammar =
     lead_rest (\<lambda>b. is_ascii_alphabetic b \<or> b = CHR ''_'')
               (\<lambda>b. is_ascii_alphanumeric b \<or> b = CHR ''_'' \<or> b = CHR ''-'')"

definition no_nul :: "string \<Rightarrow> bool" where
  "no_nul s \<longleftrightarrow> NUL \<notin> set s"

definition label_segment :: "string \<Rightarrow> bool" where
  "label_segment seg \<longleftrightarrow>
     seg \<noteq> [] \<and> is_ascii_lowercase (hd seg) \<and>
     list_all (\<lambda>b. is_ascii_lowercase b \<or> is_ascii_digit b \<or> b = CHR ''-'') seg \<and>
     \<not> contains_str seg ''--'' \<and> last seg \<noteq> CHR ''-''"

definition label_key_grammar :: "string \<Rightarrow> bool" where
  "label_key_grammar s \<longleftrightarrow> list_all label_segment (split_on CHR ''.'' s)"

definition unit_grammar :: "string \<Rightarrow> bool" where
  "unit_grammar s \<longleftrightarrow>
     s \<noteq> [] \<and> list_all unit_char s \<and>
     (\<forall>dot_pos. rfind_byte CHR ''.'' s = Some dot_pos \<longrightarrow>
        (let tail = drop (Suc dot_pos) s
         in tail \<noteq> [] \<and> list_all is_ascii_alphabetic tail \<longrightarrow>
            tail \<in> UnitSuffix_as_str ` UNIV \<and> 0 < dot_pos))"

definition login_grammar :: "string \<Rightarrow> bool" where
  "login_grammar s \<longleftrightarrow>
     length s \<le> 32 \<and>
     lead_rest (\<lambda>b. is_ascii_lowercase b \<or> b = CHR ''_'') login_body_char
       (if ends_with_byte s CHR ''$'' then butlast s else s)"

definition user_component_grammar :: "string \<Rightarrow> bool" where
  "user_component_grammar s \<longleftrightarrow>
     s \<noteq> [] \<and> (if list_all is_ascii_digit s then dec_value s < 2 ^ 32 else login_grammar s)"

definition username_grammar :: "string \<Rightarrow> bool" where
  "username_grammar s =
     (case split_once CHR '':'' s of
        None \<Rightarrow> user_component_grammar s
      | Some (user, grp) \<Rightarrow> user_component_grammar user \<and> user_component_grammar grp)"


section \<open>The newtypes keep the contract\<close>

lemma ident_ascii:
  "is_ascii_alphabetic b \<or> b = CHR ''_'' \<Longrightarrow> byte b < 128"
  "is_ascii_alphanumeric b \<or> b = CHR ''_'' \<Longrightarrow> byte b < 128"
  "is_ascii_alphanumeric b \<or> b = CHR ''_'' \<or> b = CHR ''-'' \<Longrightarrow> byte b < 128"
  "is_ascii_lowercase b \<or> b = CHR ''_'' \<Longrightarrow> byte b < 128"
  "is_ascii_lowercase b \<or> is_ascii_digit b \<Longrightarrow> byte b < 128"
  "is_ascii_digit b \<Longrightarrow> byte b < 128"
  "is_ascii_alphabetic b \<Longrightarrow> byte b < 128"
  "login_body_char b \<Longrightarrow> byte b < 128"
  "unit_char b \<Longrightarrow> byte b < 128"
  by (auto simp: ascii_defs byte_def login_body_char_def unit_char_def)

lemma chars_all_ascii:
  assumes "\<And>c. P c \<Longrightarrow> byte c < 128"
  shows "list_all (uchar_is P) (chars s) \<longleftrightarrow> list_all P s"
  using char_indices_from_all [of P 0 s] assms by (simp add: chars_def char_indices_def list_all_iff)

lemma tail_offset_bound:
  assumes "char_indices s = x # rest" and "find P rest = Some (i, ch)"
  shows "i < length s"
  using char_indices_mem_bound [of i ch s] find_Some_mem [OF assms(2)] assms(1) by simp

lemma EnvVarName_accepts: "(\<exists>x. EnvVarName_new s = Inr x) \<longleftrightarrow> env_name_grammar s"
  using char_indices_lead_rest [of "\<lambda>b. is_ascii_alphabetic b \<or> b = CHR ''_''"
      "\<lambda>b. is_ascii_alphanumeric b \<or> b = CHR ''_''" s, OF ident_ascii(1,2)]
  by (auto simp: EnvVarName_new_def env_name_grammar_def split: list.splits option.splits if_splits)

interpretation env_name: validated_newtype EnvVarName_new env_name_str EnvVarNameError_offset
  env_name_grammar
proof
  fix s e i
  assume "EnvVarName_new s = Inl e" and "EnvVarNameError_offset e = Some i"
  then show "i \<le> length s"
    by (auto simp: EnvVarName_new_def split: list.splits option.splits if_splits)
       (metis less_imp_le tail_offset_bound)
next
  fix s
  show "(\<exists>x. EnvVarName_new s = Inr x) \<longleftrightarrow> env_name_grammar s" by (rule EnvVarName_accepts)
qed (auto simp: EnvVarName_new_def split: list.splits option.splits if_splits)

lemma reject_nul_cases:
  "reject_nul s = Inr u \<longleftrightarrow> no_nul s"
  "reject_nul s = Inl i \<Longrightarrow> i < length s \<and> \<not> no_nul s"
  using find_byte_None [of NUL s]
  by (auto simp: reject_nul_def no_nul_def split: option.splits
      dest: find_byte_Some_bound find_byte_Some_mem)

interpretation env_value: validated_newtype EnvVarValue_new env_value_str EnvVarValueError_offset no_nul
proof
  fix s
  show "(\<exists>x. EnvVarValue_new s = Inr x) \<longleftrightarrow> no_nul s"
    by (auto simp: EnvVarValue_new_def reject_nul_cases split: sum.split dest: reject_nul_cases(2))
qed (auto simp: EnvVarValue_new_def split: sum.splits dest: reject_nul_cases(2))

interpretation label_value: validated_newtype LabelValue_new label_value_str LabelValueError_offset no_nul
proof
  fix s
  show "(\<exists>x. LabelValue_new s = Inr x) \<longleftrightarrow> no_nul s"
    by (auto simp: LabelValue_new_def reject_nul_cases split: sum.split dest: reject_nul_cases(2))
qed (auto simp: LabelValue_new_def split: sum.splits dest: reject_nul_cases(2))

lemma bare_identifier_accepts: "validate_bare_identifier s = Inr u \<longleftrightarrow> bare_identifier_grammar s"
  using char_indices_lead_rest [of "\<lambda>b. is_ascii_alphabetic b \<or> b = CHR ''_''"
      "\<lambda>b. is_ascii_alphanumeric b \<or> b = CHR ''_'' \<or> b = CHR ''-''" s, OF ident_ascii(1,3)]
  by (auto simp: validate_bare_identifier_def bare_identifier_grammar_def
      split: list.splits option.splits if_splits)

lemma bare_identifier_rejects: "validate_bare_identifier s = Inl v \<Longrightarrow> \<not> bare_identifier_grammar s"
  by (metis Inl_Inr_False bare_identifier_accepts)

lemma bare_identifier_offset:
  "validate_bare_identifier s = Inl (BI_InvalidChar ch i) \<Longrightarrow> i < length s"
  by (auto simp: validate_bare_identifier_def split: list.splits option.splits if_splits
      intro: tail_offset_bound)

interpretation stage_name: validated_newtype StageName_new stage_name_str StageNameError_offset
  bare_identifier_grammar
proof
  fix s
  show "(\<exists>x. StageName_new s = Inr x) \<longleftrightarrow> bare_identifier_grammar s"
    by (auto simp: StageName_new_def bare_identifier_accepts
        split: sum.splits BareIdentifierViolation.splits dest: bare_identifier_rejects)
qed (auto simp: StageName_new_def split: sum.splits BareIdentifierViolation.splits
      dest: bare_identifier_offset)

interpretation secret_id: validated_newtype SecretId_new secret_id_str SecretIdError_offset
  bare_identifier_grammar
proof
  fix s
  show "(\<exists>x. SecretId_new s = Inr x) \<longleftrightarrow> bare_identifier_grammar s"
    by (auto simp: SecretId_new_def bare_identifier_accepts
        split: sum.splits BareIdentifierViolation.splits dest: bare_identifier_rejects)
qed (auto simp: SecretId_new_def split: sum.splits BareIdentifierViolation.splits
      dest: bare_identifier_offset)

text \<open>Label keys: the scan as an automaton over bytes, and the segments it leaves.\<close>

fun sep_ok :: "bool \<Rightarrow> string \<Rightarrow> bool" where
  "sep_ok p [] = (\<not> p)"
| "sep_ok p (b # bs) =
     (if is_ascii_lowercase b \<or> is_ascii_digit b then sep_ok False bs
      else (b = CHR ''.'' \<or> b = CHR ''-'') \<and> \<not> p \<and> sep_ok True bs)"

fun dash_ok :: "bool \<Rightarrow> string \<Rightarrow> bool" where
  "dash_ok p [] = (\<not> p)"
| "dash_ok p (b # bs) =
     (if is_ascii_lowercase b \<or> is_ascii_digit b then dash_ok False bs
      else b = CHR ''-'' \<and> \<not> p \<and> dash_ok True bs)"

definition seg_start_ok :: "string \<Rightarrow> bool" where
  "seg_start_ok seg = (case seg of [] \<Rightarrow> True | b # _ \<Rightarrow> is_ascii_lowercase b)"

lemma sep_char_ascii: "b = CHR ''.'' \<or> b = CHR ''-'' \<Longrightarrow> byte b < 128"
  by (auto simp: byte_def)

lemma sep_char_not_alnum:
  "\<not> is_ascii_lowercase CHR ''.''" "\<not> is_ascii_digit CHR ''.''"
  "\<not> is_ascii_lowercase CHR ''-''" "\<not> is_ascii_digit CHR ''-''"
  by (simp_all add: ascii_defs byte_def)

lemma label_key_scan_bytes:
  "0 < k \<Longrightarrow> label_key_scan p (char_indices_from k s) = Inr False \<longleftrightarrow> sep_ok p s"
proof (induction k s arbitrary: p rule: char_indices_from.induct)
  case (2 k b bs)
  show ?case
  proof (cases "byte b < 128")
    case True
    with 2 show ?thesis by auto
  next
    case False
    then have "\<not> (is_ascii_lowercase b \<or> is_ascii_digit b)" "\<not> (b = CHR ''.'' \<or> b = CHR ''-'')"
      using ident_ascii(5) sep_char_ascii by blast+
    then show ?thesis by (auto simp: uchar_is_Cons)
  qed
qed simp

lemma sep_ok_split:
  "sep_ok p s \<longleftrightarrow>
     dash_ok p (hd (split_on CHR ''.'' s)) \<and> list_all (dash_ok True) (tl (split_on CHR ''.'' s))"
proof (induction s arbitrary: p)
  case (Cons b bs)
  have "list_all P (split_on c bs) \<longleftrightarrow> P (hd (split_on c bs)) \<and> list_all P (tl (split_on c bs))" for P c
    by (cases "split_on c bs") auto
  with Cons show ?case by (auto simp: sep_char_not_alnum)
qed simp

lemma contains_double_dash:
  "contains_str (b # bs) ''--'' \<longleftrightarrow>
     (b = CHR ''-'' \<and> bs \<noteq> [] \<and> hd bs = CHR ''-'') \<or> contains_str bs ''--''"
  by (cases bs) (auto simp: starts_with_def)

lemma dash_ok_iff:
  "dash_ok p seg \<longleftrightarrow>
     list_all (\<lambda>b. is_ascii_lowercase b \<or> is_ascii_digit b \<or> b = CHR ''-'') seg \<and>
     \<not> contains_str seg ''--'' \<and> (seg \<noteq> [] \<longrightarrow> last seg \<noteq> CHR ''-'') \<and>
     (p \<longrightarrow> seg \<noteq> [] \<and> hd seg \<noteq> CHR ''-'')"
proof (induction seg arbitrary: p)
  case (Cons b bs)
  consider "is_ascii_lowercase b \<or> is_ascii_digit b" "b \<noteq> CHR ''-''" | "b = CHR ''-''"
    | "\<not> (is_ascii_lowercase b \<or> is_ascii_digit b)" "b \<noteq> CHR ''-''"
    using sep_char_not_alnum by blast
  then show ?case
  proof cases
    case 1
    then show ?thesis by (simp add: Cons contains_double_dash del: contains_str.simps)
  next
    case 2
    then show ?thesis
      by (cases p) (auto simp: Cons contains_double_dash sep_char_not_alnum simp del: contains_str.simps)
  next
    case 3
    then show ?thesis by simp
  qed
qed simp

lemma label_segment_iff: "label_segment seg \<longleftrightarrow> dash_ok True seg \<and> seg_start_ok seg"
  by (cases seg) (auto simp: label_segment_def dash_ok_iff seg_start_ok_def sep_char_not_alnum)

lemma check_segment_start_None: "check_segment_start seg st = None \<longleftrightarrow> seg_start_ok seg"
proof (cases seg rule: char_indices_cases)
  case (multi b bs u rest)
  with ident_ascii(4) [of b] show ?thesis
    by (auto simp: check_segment_start_def chars_def seg_start_ok_def uchar_is_Cons)
qed (simp_all add: check_segment_start_def chars_def seg_start_ok_def)

lemma label_key_segments_ok:
  assumes "drop k raw = s" and "st \<le> k" and "CHR ''.'' \<notin> set (slice raw st k)"
    and "list_all (\<lambda>b. byte b < 128) s" and "k \<le> length raw"
  shows "(case label_key_segments raw st (char_indices_from k s) of
            Inl e \<Rightarrow> False
          | Inr st' \<Rightarrow> check_segment_start (drop st' raw) st' = None) \<longleftrightarrow>
         list_all seg_start_ok (split_on CHR ''.'' (drop st raw))"
  using assms
proof (induction s arbitrary: k st)
  case Nil
  then have "drop st raw = slice raw st k" by (simp add: slice_def)
  with Nil show ?case by (simp add: split_on_none check_segment_start_None)
next
  case (Cons b s)
  then have k: "k < length raw" by (cases "k < length raw") auto
  with Cons.prems(1) have b: "raw ! k = b" and s: "drop (Suc k) raw = s"
    by (simp_all add: Cons_nth_drop_Suc [symmetric])
  have split: "drop st raw = slice raw st k @ b # s"
    using Cons.prems(1,2) by (metis append_take_drop_id drop_drop le_add_diff_inverse2 slice_def)
  show ?case
  proof (cases "b = CHR ''.''")
    case True
    have "slice raw (Suc k) (Suc k) = []" by (simp add: slice_def)
    with True Cons.IH [of "Suc k" "Suc k"] Cons.prems k s split
      check_segment_start_None [of "slice raw st k" st] show ?thesis
      by (cases "check_segment_start (slice raw st k) st") (simp_all add: split_on_append)
  next
    case False
    have "slice raw st (Suc k) = slice raw st k @ [b]"
      using Cons.prems(2) k b by (simp add: slice_def Suc_diff_le take_Suc_conv_app_nth)
    with False Cons.IH [of "Suc k" st] Cons.prems k s show ?thesis by simp
  qed
qed

lemma sep_ok_ascii: "sep_ok p s \<Longrightarrow> list_all (\<lambda>b. byte b < 128) s"
  by (induction p s rule: sep_ok.induct) (auto intro: ident_ascii(5) sep_char_ascii split: if_splits)

lemma label_key_grammar_iff:
  "label_key_grammar s \<longleftrightarrow>
     s \<noteq> [] \<and> is_ascii_lowercase (hd s) \<and> sep_ok False s \<and> list_all seg_start_ok (split_on CHR ''.'' s)"
proof -
  obtain seg segs where split: "split_on CHR ''.'' s = seg # segs"
    by (cases "split_on CHR ''.'' s") auto
  have first: "seg \<noteq> [] \<Longrightarrow> s \<noteq> [] \<and> hd s = hd seg" "seg = [] \<Longrightarrow> s = [] \<or> hd s = CHR ''.''"
    using split by (cases s; auto split: if_splits)+
  have tl: "list_all label_segment segs \<longleftrightarrow> list_all (dash_ok True) segs \<and> list_all seg_start_ok segs"
    by (auto simp: list_all_iff label_segment_iff)
  show ?thesis
    using first tl split
    by (cases seg) (auto simp: label_key_grammar_def sep_ok_split label_segment_iff dash_ok_iff
        seg_start_ok_def sep_char_not_alnum)
qed

lemma LabelKey_accepts: "(\<exists>x. LabelKey_new s = Inr x) \<longleftrightarrow> label_key_grammar s"
proof (cases "s \<noteq> [] \<and> is_ascii_lowercase (hd s)")
  case False
  then show ?thesis by (auto simp: LabelKey_new_def label_key_grammar_iff split: list.splits)
next
  case True
  then obtain b bs where s: "s = b # bs" and b: "is_ascii_lowercase b" by (cases s) auto
  have b128: "byte b < 128" using b ident_ascii(4) by blast
  have scan: "label_key_scan False (char_indices s) = Inr False \<longleftrightarrow> sep_ok False s"
    using s b b128 label_key_scan_bytes [of 1 False bs] by (simp add: char_indices_Cons_ascii)
  show ?thesis
  proof (cases "sep_ok False s")
    case False
    then show ?thesis
      using scan s b by (auto simp: LabelKey_new_def label_key_grammar_iff split: sum.splits if_splits)
  next
    case ok: True
    have "slice s 0 0 = []" by (simp add: slice_def)
    then have "(case label_key_segments s 0 (char_indices s) of
            Inl e \<Rightarrow> False
          | Inr st' \<Rightarrow> check_segment_start (drop st' s) st' = None) \<longleftrightarrow>
         list_all seg_start_ok (split_on CHR ''.'' s)"
      using label_key_segments_ok [of 0 s s 0] sep_ok_ascii [OF ok] by (simp add: char_indices_def)
    then show ?thesis
      using scan s b ok
      by (auto simp: LabelKey_new_def label_key_grammar_iff split: sum.splits option.splits)
  qed
qed

lemma label_key_scan_offset:
  "label_key_scan p xs = Inl e \<Longrightarrow> LabelKeyError_offset e = Some i \<Longrightarrow> i = 0 \<or> i \<in> fst ` set xs"
  by (induction p xs rule: label_key_scan.induct) (auto split: if_splits)

lemma label_key_segments_offset:
  "label_key_segments raw st xs = Inl e \<Longrightarrow> LabelKeyError_offset e = Some i \<Longrightarrow>
     i = st \<or> i \<in> (\<lambda>x. fst x + 1) ` set xs"
  by (induction raw st xs rule: label_key_segments.induct)
     (auto simp: check_segment_start_def split: if_splits option.splits list.splits)

lemma label_key_segments_start:
  "label_key_segments raw st xs = Inr st' \<Longrightarrow> st' = st \<or> st' \<in> (\<lambda>x. fst x + 1) ` set xs"
  by (induction raw st xs rule: label_key_segments.induct) (auto split: if_splits option.splits)

lemma LabelKey_offset_in:
  assumes "LabelKey_new s = Inl e" and "LabelKeyError_offset e = Some i"
  shows "i \<le> length s"
  using assms
  by (auto simp: LabelKey_new_def check_segment_start_def
      split: list.splits sum.splits if_splits option.splits
      dest!: label_key_scan_offset label_key_segments_offset label_key_segments_start
        char_indices_mem_bound)

interpretation label_key: validated_newtype LabelKey_new label_key_str LabelKeyError_offset
  label_key_grammar
proof
  fix s e i
  show "(\<exists>x. LabelKey_new s = Inr x) \<longleftrightarrow> label_key_grammar s" by (rule LabelKey_accepts)
  show "i \<le> length s" if "LabelKey_new s = Inl e" "LabelKeyError_offset e = Some i"
    using that by (rule LabelKey_offset_in)
qed (auto simp: LabelKey_new_def split: list.splits sum.splits if_splits option.splits)

text \<open>Service unit names.\<close>

lemma if_Some_elim:
  "(if c then Some a else r) = Some b \<Longrightarrow> (c \<Longrightarrow> a = b \<Longrightarrow> P) \<Longrightarrow> (r = Some b \<Longrightarrow> P) \<Longrightarrow> P"
  by (simp split: if_splits)

lemma UnitSuffix_from_str_as_str [simp]: "UnitSuffix_from_str (UnitSuffix_as_str u) = Some u"
  by (cases u) (simp_all add: UnitSuffix_from_str_def)

lemma UnitSuffix_from_str_Some: "UnitSuffix_from_str s = Some u \<longleftrightarrow> s = UnitSuffix_as_str u"
proof
  show "UnitSuffix_from_str s = Some u \<Longrightarrow> s = UnitSuffix_as_str u"
    unfolding UnitSuffix_from_str_def by (elim if_Some_elim) simp_all
qed simp

lemma UnitSuffix_from_str_None: "UnitSuffix_from_str s = None \<longleftrightarrow> s \<notin> UnitSuffix_as_str ` UNIV"
  by (metis UnitSuffix_from_str_Some UnitSuffix_from_str_as_str image_iff not_None_eq rangeI)

lemma ServiceUnitName_accepts: "(\<exists>x. ServiceUnitName_new s = Inr x) \<longleftrightarrow> unit_grammar s"
proof (cases "s \<noteq> [] \<and> list_all unit_char s")
  case False
  then show ?thesis
    using char_indices_all [of unit_char s, OF ident_ascii(9)]
    by (auto simp: ServiceUnitName_new_def unit_grammar_def split: option.splits)
next
  case True
  then show ?thesis
    using char_indices_all [of unit_char s, OF ident_ascii(9)]
    by (cases "rfind_byte CHR ''.'' s")
       (auto simp: ServiceUnitName_new_def unit_grammar_def Let_def UnitSuffix_from_str_Some
         UnitSuffix_from_str_None chars_all_ascii [of is_ascii_alphabetic, OF ident_ascii(7)]
         split: option.split dest: rfind_byte_Some_mem)
qed

interpretation service_unit: validated_newtype ServiceUnitName_new unit_raw
  ServiceUnitNameError_offset unit_grammar
proof
  fix s e i
  show "(\<exists>x. ServiceUnitName_new s = Inr x) \<longleftrightarrow> unit_grammar s" by (rule ServiceUnitName_accepts)
  show "i \<le> length s" if "ServiceUnitName_new s = Inl e" "ServiceUnitNameError_offset e = Some i"
    using that rfind_byte_Some(1) [of "CHR ''.''" s]
    by (auto simp: ServiceUnitName_new_def Let_def split: if_splits option.splits
        dest!: char_indices_find_bound)
qed (auto simp: ServiceUnitName_new_def Let_def split: if_splits option.splits)

text \<open>User specifications.\<close>

lemma find_takeWhile_index:
  assumes "\<And>c. P c \<Longrightarrow> byte c < 128"
  shows "find (\<lambda>(i, ch). \<not> uchar_is P ch)
           (takeWhile (\<lambda>(i, ch). i < k + n) (char_indices_from k s)) = None \<longleftrightarrow> list_all P (take n s)"
proof (induction k s arbitrary: n rule: char_indices_from.induct)
  case (2 k b bs)
  show ?case
  proof (cases n)
    case (Suc m)
    show ?thesis
    proof (cases "byte b < 128")
      case True
      with 2 [of m] Suc show ?thesis by (simp add: add.commute add.left_commute)
    next
      case False
      then have "\<not> P b" using assms by blast
      with Suc show ?thesis by (simp add: uchar_is_Cons)
    qed
  qed simp
qed simp

lemma login_scan:
  assumes "\<not> list_all is_ascii_digit c" and "c \<noteq> []"
  shows "validate_user_component c off = Inr () \<longleftrightarrow> login_grammar c"
proof (cases c rule: char_indices_cases)
  case empty
  with assms show ?thesis by simp
next
  case (multi b bs u rest)
  then have "\<not> (is_ascii_lowercase b \<or> b = CHR ''_'')" using ident_ascii(4) [of b] by auto
  moreover from this have "\<not> lead_rest (\<lambda>b. is_ascii_lowercase b \<or> b = CHR ''_'') login_body_char
       (if ends_with_byte c CHR ''$'' then butlast c else c)"
    using multi by (cases bs) (auto simp: lead_rest_def)
  ultimately show ?thesis
    using assms multi
    by (auto simp: validate_user_component_def login_grammar_def uchar_is_Cons
        chars_all_ascii [of is_ascii_digit, OF ident_ascii(6)])
next
  case (ascii b bs)
  let ?n = "if ends_with_byte c CHR ''$'' then length bs - 1 else length bs"
  have lead: "lead_rest P login_body_char (if ends_with_byte c CHR ''$'' then butlast c else c) \<longleftrightarrow>
      P b \<and> list_all login_body_char (take ?n bs)" if "\<not> P CHR ''$''" for P
    using ascii that by (cases bs) (auto simp: lead_rest_def ends_with_byte_def butlast_conv_take)
  have body: "find (\<lambda>(i, ch). \<not> uchar_is login_body_char ch)
      (takeWhile (\<lambda>(i, ch). i < 1 + ?n) (char_indices_from 1 bs)) = None \<longleftrightarrow>
      list_all login_body_char (take ?n bs)"
    by (rule find_takeWhile_index) (rule ident_ascii(8))
  have nd: "\<not> (is_ascii_lowercase CHR ''$'' \<or> CHR ''$'' = CHR ''_'')"
    by (simp add: ascii_defs byte_def)
  have endb: "(if ends_with_byte c CHR ''$'' then length c - 1 else length c) = 1 + ?n"
    if "is_ascii_lowercase b \<or> b = CHR ''_''"
    using ascii that nd by (cases bs) (auto simp: ends_with_byte_def)
  have digits: "\<not> list_all (uchar_is is_ascii_digit) (chars c)"
    using assms(1) by (simp add: chars_all_ascii [of is_ascii_digit, OF ident_ascii(6)])
  have lead': "login_grammar c \<longleftrightarrow> length c \<le> 32 \<and> (is_ascii_lowercase b \<or> b = CHR ''_'') \<and>
      list_all login_body_char (take ?n bs)"
    unfolding login_grammar_def
    using lead [of "\<lambda>b. is_ascii_lowercase b \<or> b = CHR ''_''", OF nd] by simp
  show ?thesis
    using endb body
    by (simp add: lead' validate_user_component_def digits ascii(3) MAX_LOGIN_LEN_def Let_def
        split: option.split del: One_nat_def)
       (auto simp del: One_nat_def)
qed

lemma parse_uint_digits:
  assumes "list_all is_ascii_digit c" and "c \<noteq> []"
  shows "parse_uint w c = (if dec_value c < 2 ^ w then Some (dec_value c) else None)"
proof -
  from assms obtain b bs where c: "c = b # bs" and b: "is_ascii_digit b" by (cases c) auto
  have "b \<noteq> CHR ''+''" using b by (auto simp: is_ascii_digit_def byte_def)
  then show ?thesis using assms c by (simp add: parse_uint_def)
qed

lemma user_component_accepts:
  assumes "c \<noteq> []"
  shows "validate_user_component c off = Inr () \<longleftrightarrow> user_component_grammar c"
proof (cases "list_all is_ascii_digit c")
  case True
  with assms show ?thesis
    by (simp add: validate_user_component_def user_component_grammar_def parse_uint_digits
        chars_all_ascii [of is_ascii_digit, OF ident_ascii(6)])
next
  case False
  with assms show ?thesis by (simp add: login_scan user_component_grammar_def)
qed

lemma takeWhile_offset_bound:
  "find P (takeWhile Q rest) = Some (j, ch) \<Longrightarrow> char_indices c = x # rest \<Longrightarrow> j \<le> length c"
  by (metis char_indices_mem_bound find_Some_mem less_imp_le list.set_intros(2) set_takeWhileD)

lemma user_component_offset:
  assumes "validate_user_component c off = Inl e" and "UsernameError_offset e = Some i"
  shows "off \<le> i \<and> i \<le> off + length c"
  using assms
  by (auto simp: validate_user_component_def Let_def split: if_splits option.splits list.splits)
     (metis takeWhile_offset_bound)+

lemma Username_accepts: "(\<exists>x. Username_new s = Inr x) \<longleftrightarrow> username_grammar s"
proof (cases "find_byte CHR '':'' s")
  case None
  then show ?thesis
  proof (cases "s = []")
    case False
    with None user_component_accepts [OF False, of 0] show ?thesis
      by (cases "validate_user_component s 0")
         (auto simp: Username_new_def username_grammar_def split_once_def)
  qed (simp add: Username_new_def username_grammar_def split_once_def user_component_grammar_def)
next
  case (Some pos)
  then have "s \<noteq> []" by auto
  moreover have "\<not> user_component_grammar []" by (simp add: user_component_grammar_def)
  moreover note Some
  ultimately show ?thesis
    by (cases "take pos s = []"; cases "drop (Suc pos) s = []";
        cases "validate_user_component (take pos s) 0";
        cases "validate_user_component (drop (Suc pos) s) (Suc pos)")
       (simp_all add: Username_new_def username_grammar_def split_once_def
         user_component_accepts [symmetric, where off = 0 and c = "take pos s"]
         user_component_accepts [symmetric, where off = "Suc pos" and c = "drop (Suc pos) s"])
qed

lemma Username_offset_in:
  assumes "Username_new s = Inl e" and "UsernameError_offset e = Some i"
  shows "i \<le> length s"
proof (cases "find_byte CHR '':'' s")
  case None
  with assms show ?thesis
    by (auto simp: Username_new_def split: if_splits sum.splits dest: user_component_offset)
next
  case (Some pos)
  moreover from Some have "pos < length s" by (rule find_byte_Some_bound)
  ultimately show ?thesis
    using assms
    by (auto simp: Username_new_def Let_def split: if_splits sum.splits dest!: user_component_offset)
qed

interpretation username: validated_newtype Username_new username_str UsernameError_offset
  username_grammar
proof
  fix s e i
  show "(\<exists>x. Username_new s = Inr x) \<longleftrightarrow> username_grammar s" by (rule Username_accepts)
  show "i \<le> length s" if "Username_new s = Inl e" "UsernameError_offset e = Some i"
    using that by (rule Username_offset_in)
qed (auto simp: Username_new_def Let_def split: if_splits option.splits sum.splits)

section \<open>Properties\<close>

text \<open>
  C24: a label key is accepted exactly when each of its dot-separated segments starts with a lower-case
  letter, uses lower-case letters, digits and single hyphens, and does not end in a hyphen; the
  accepted value is the text itself.
\<close>

theorem LabelKey_iff_grammar: "(\<exists>k. LabelKey_new s = Inr k \<and> label_key_str k = s) \<longleftrightarrow> label_key_grammar s"
  using label_key.accepts label_key.keeps by blast

text \<open>
  C25: a \<open>USER\<close> value is accepted exactly when it is a user or \<open>user:group\<close>, each part a number below
  \<open>2 ^ 32\<close> or a login name of at most 32 bytes with an optional final dollar sign.
\<close>

theorem Username_iff_grammar: "(\<exists>u. Username_new s = Inr u \<and> username_str u = s) \<longleftrightarrow> username_grammar s"
  using username.accepts username.keeps by blast

text \<open>
  a unit name is accepted exactly when it is non-empty text of the unit alphabet whose alphabetic
  tail, if it has one, is a known unit suffix after a non-empty name.
\<close>

theorem ServiceUnitName_iff_grammar: "(\<exists>u. ServiceUnitName_new s = Inr u \<and> unit_raw u = s) \<longleftrightarrow> unit_grammar s"
  using service_unit.accepts service_unit.keeps by blast

text \<open>
  the identifier newtypes accept exactly their alphabets: variable names, stage names and secret
  ids by their first and later characters, variable and label values everything without a NUL byte.
\<close>

theorem identifiers_accept:
  "((\<exists>x. EnvVarName_new s = Inr x) \<longleftrightarrow> env_name_grammar s) \<and>
   ((\<exists>x. StageName_new s = Inr x) \<longleftrightarrow> bare_identifier_grammar s) \<and>
   ((\<exists>x. SecretId_new s = Inr x) \<longleftrightarrow> bare_identifier_grammar s) \<and>
   ((\<exists>x. EnvVarValue_new s = Inr x) \<longleftrightarrow> no_nul s) \<and>
   ((\<exists>x. LabelValue_new s = Inr x) \<longleftrightarrow> no_nul s)"
  using env_name.accepts stage_name.accepts secret_id.accepts env_value.accepts label_value.accepts by blast

text \<open>
  whatever an identifier newtype rejects, the byte offset that its error reports lies inside the
  rejected text, so the diagnostic built from it can point there.
\<close>

theorem identifier_error_offsets:
  "(case LabelKey_new s of Inr _ \<Rightarrow> True | Inl e \<Rightarrow> (case LabelKeyError_offset e of None \<Rightarrow> True | Some i \<Rightarrow> i \<le> length s)) \<and>
   (case Username_new s of Inr _ \<Rightarrow> True | Inl e \<Rightarrow> (case UsernameError_offset e of None \<Rightarrow> True | Some i \<Rightarrow> i \<le> length s)) \<and>
   (case StageName_new s of Inr _ \<Rightarrow> True | Inl e \<Rightarrow> (case StageNameError_offset e of None \<Rightarrow> True | Some i \<Rightarrow> i \<le> length s)) \<and>
   (case EnvVarName_new s of Inr _ \<Rightarrow> True | Inl e \<Rightarrow> (case EnvVarNameError_offset e of None \<Rightarrow> True | Some i \<Rightarrow> i \<le> length s)) \<and>
   (case ServiceUnitName_new s of Inr _ \<Rightarrow> True | Inl e \<Rightarrow> (case ServiceUnitNameError_offset e of None \<Rightarrow> True | Some i \<Rightarrow> i \<le> length s))"
  using label_key.offset_in [of s] username.offset_in [of s] stage_name.offset_in [of s]
    env_name.offset_in [of s] service_unit.offset_in [of s]
  by (auto split: sum.split option.split)

end
