(* ===== verification/Subst.thy ===== *)
theory Subst
  imports Prelude
begin

text \<open>
  Build-time variable substitution, \<open>crates/umf-core/src/subst.rs\<close>: the expansion of
  \<open>${NAME}\<close> and \<open>$NAME\<close> in one pass over the characters of a string, and the test for a
  placeholder that the parser uses.  \<open>segments\<close> is the specification: a split of the input
  into literal text and references that does not look at the values.
\<close>

section \<open>The code\<close>

definition is_name_start :: "uchar \<Rightarrow> bool" where
  "is_name_start = uchar_is (\<lambda>b. b = CHR ''_'' \<or> is_ascii_alphabetic b)"

definition is_name_continue :: "uchar \<Rightarrow> bool" where
  "is_name_continue = uchar_is (\<lambda>b. b = CHR ''_'' \<or> is_ascii_alphanumeric b)"

definition is_valid_name :: "string \<Rightarrow> bool" where
  "is_valid_name name =
     (case chars name of
        [] \<Rightarrow> False
      | c # cs \<Rightarrow> is_name_start c \<and> list_all is_name_continue cs)"

text \<open>The loop of \<open>substitute\<close>; the iterator over the remaining characters is the list.\<close>

function subst_loop :: "(string \<Rightarrow> string option) \<Rightarrow> uchar list \<Rightarrow> string" where
  "subst_loop lookup [] = []"
| "subst_loop lookup (c # cs) =
     (if c \<noteq> ''$'' then c @ subst_loop lookup cs
      else case cs of
        c2 # rest \<Rightarrow>
          if c2 = ''{'' then
            let name = concat (takeWhile (\<lambda>nc. nc \<noteq> ''}'') rest);
                after = dropWhile (\<lambda>nc. nc \<noteq> ''}'') rest;
                closed = (after \<noteq> [])
            in (case lookup name of
                  Some val \<Rightarrow>
                    if closed \<and> is_valid_name name then val
                    else ''${'' @ name @ (if closed then ''}'' else [])
                | None \<Rightarrow> ''${'' @ name @ (if closed then ''}'' else []))
               @ subst_loop lookup (drop 1 after)
          else if is_name_start c2 then
            let name = concat (takeWhile is_name_continue cs);
                after = dropWhile is_name_continue cs
            in (case lookup name of Some val \<Rightarrow> val | None \<Rightarrow> ''$'' @ name)
               @ subst_loop lookup after
          else ''$'' @ subst_loop lookup cs
      | [] \<Rightarrow> ''$'' @ subst_loop lookup [])"
  by pat_completeness auto

lemma length_tl_dropWhile [termination_simp]:
  "length (dropWhile P xs) - Suc 0 \<le> Suc (length xs)"
  using length_dropWhile_le [of P xs] by linarith

termination subst_loop
  by (relation "measure (\<lambda>(_, cs). length cs)")
     (auto simp: less_Suc_eq_le length_dropWhile_le le_SucI length_tl_dropWhile)

definition substitute :: "string \<Rightarrow> (string \<Rightarrow> string option) \<Rightarrow> string" where
  "substitute input lookup =
     (if CHR ''$'' \<notin> set input then input else subst_loop lookup (chars input))"

fun placeholder_loop :: "uchar list \<Rightarrow> bool" where
  "placeholder_loop (c # d # cs) =
     (if c = ''$'' \<and> (d = ''{'' \<or> is_name_start d) then True else placeholder_loop (d # cs))"
| "placeholder_loop _ = False"

definition contains_placeholder :: "string \<Rightarrow> bool" where
  "contains_placeholder input = placeholder_loop (chars input)"


section \<open>The specification\<close>

text \<open>
  A reference carries the name that is looked up and the source text it stands in, which is what
  an unknown name leaves behind.
\<close>

datatype segment = SegLit string | SegRef (seg_name: string) (seg_raw: string)

fun seg_text :: "segment \<Rightarrow> string" where
  "seg_text (SegLit s) = s"
| "seg_text (SegRef n raw) = raw"

fun seg_value :: "(string \<Rightarrow> string option) \<Rightarrow> segment \<Rightarrow> string" where
  "seg_value lookup (SegLit s) = s"
| "seg_value lookup (SegRef n raw) = (case lookup n of Some v \<Rightarrow> v | None \<Rightarrow> raw)"

function segments_loop :: "uchar list \<Rightarrow> segment list" where
  "segments_loop [] = []"
| "segments_loop (c # cs) =
     (if c \<noteq> ''$'' then SegLit c # segments_loop cs
      else case cs of
        c2 # rest \<Rightarrow>
          if c2 = ''{'' then
            let name = concat (takeWhile (\<lambda>nc. nc \<noteq> ''}'') rest);
                after = dropWhile (\<lambda>nc. nc \<noteq> ''}'') rest
            in (if after \<noteq> [] \<and> is_valid_name name then SegRef name (''${'' @ name @ ''}'')
                else SegLit (''${'' @ name @ (if after \<noteq> [] then ''}'' else [])))
               # segments_loop (drop 1 after)
          else if is_name_start c2 then
            let name = concat (takeWhile is_name_continue cs)
            in SegRef name (''$'' @ name) # segments_loop (dropWhile is_name_continue cs)
          else SegLit ''$'' # segments_loop cs
      | [] \<Rightarrow> [SegLit ''$''])"
  by pat_completeness auto

termination segments_loop
  by (relation "measure length")
     (auto simp: less_Suc_eq_le length_dropWhile_le le_SucI length_tl_dropWhile)

definition segments :: "string \<Rightarrow> segment list" where
  "segments input = segments_loop (chars input)"

definition seg_wf :: "segment \<Rightarrow> bool" where
  "seg_wf seg = (case seg of
     SegLit _ \<Rightarrow> True
   | SegRef n raw \<Rightarrow> is_valid_name n \<and> (raw = ''$'' @ n \<or> raw = ''${'' @ n @ ''}''))"


section \<open>Facts\<close>

lemma concat_char_indices_from [simp]: "concat (map snd (char_indices_from i s)) = s"
  by (induction i s rule: char_indices_from.induct) auto

lemma concat_chars [simp]: "concat (chars s) = s"
  by (simp add: chars_def char_indices_def)

lemma concat_takeWhile_dropWhile:
  "concat (takeWhile P xs) @ concat (dropWhile P xs) = concat xs"
  by (metis concat_append takeWhile_dropWhile_id)

lemma dropWhile_Cons_hd: "dropWhile P xs = y # ys \<Longrightarrow> \<not> P y"
  using hd_dropWhile [of P xs] by simp

lemma chars_concat_ascii:
  assumes "list_all (uchar_is P) us" and "\<And>b. P b \<Longrightarrow> byte b < 128"
  shows "map snd (char_indices_from i (concat us)) = us"
  using assms(1)
proof (induction us arbitrary: i)
  case Nil
  then show ?case by simp
next
  case (Cons u us)
  then obtain b where "u = [b]" and "P b"
    by (cases "(P, u)" rule: uchar_is.cases) auto
  with Cons assms(2) [of b] show ?case by simp
qed

lemma is_name_continueD:
  "is_name_start u \<Longrightarrow> is_name_continue u"
  unfolding is_name_start_def is_name_continue_def
  by (cases "(is_ascii_digit, u)" rule: uchar_is.cases) (auto simp: is_ascii_alphanumeric_def)

lemma name_byte_ascii: "b = CHR ''_'' \<or> is_ascii_alphanumeric b \<Longrightarrow> byte b < 128"
  by (auto simp: ascii_defs byte_def)

lemma is_valid_name_takeWhile:
  assumes "is_name_start c"
  shows "is_valid_name (concat (takeWhile is_name_continue (c # cs)))"
proof -
  let ?us = "takeWhile is_name_continue (c # cs)"
  have "list_all is_name_continue ?us"
    by (auto simp: list_all_iff dest: set_takeWhileD)
  then have "list_all (uchar_is (\<lambda>b. b = CHR ''_'' \<or> is_ascii_alphanumeric b)) ?us"
    by (simp add: is_name_continue_def)
  then have "chars (concat ?us) = ?us"
    unfolding chars_def char_indices_def by (rule chars_concat_ascii) (rule name_byte_ascii)
  with assms show ?thesis
    by (auto simp: is_valid_name_def is_name_continueD list_all_iff dest: set_takeWhileD)
qed

text \<open>The branches of the loop as rewrite rules, and an induction with one case per branch.\<close>

declare subst_loop.simps [simp del] segments_loop.simps [simp del]

lemma subst_loop_branches:
  "subst_loop lookup [] = []"
  "c \<noteq> ''$'' \<Longrightarrow> subst_loop lookup (c # cs) = c @ subst_loop lookup cs"
  "subst_loop lookup [''$''] = ''$''"
  "subst_loop lookup (''$'' # ''{'' # rest) =
     (let name = concat (takeWhile (\<lambda>nc. nc \<noteq> ''}'') rest);
          after = dropWhile (\<lambda>nc. nc \<noteq> ''}'') rest;
          raw = ''${'' @ name @ (if after \<noteq> [] then ''}'' else [])
      in (case lookup name of
            Some val \<Rightarrow> if after \<noteq> [] \<and> is_valid_name name then val else raw
          | None \<Rightarrow> raw) @ subst_loop lookup (drop 1 after))"
  "c2 \<noteq> ''{'' \<Longrightarrow> is_name_start c2 \<Longrightarrow> subst_loop lookup (''$'' # c2 # rest) =
     (let name = concat (takeWhile is_name_continue (c2 # rest))
      in (case lookup name of Some val \<Rightarrow> val | None \<Rightarrow> ''$'' @ name)
         @ subst_loop lookup (dropWhile is_name_continue (c2 # rest)))"
  "c2 \<noteq> ''{'' \<Longrightarrow> \<not> is_name_start c2 \<Longrightarrow>
     subst_loop lookup (''$'' # c2 # rest) = ''$'' @ subst_loop lookup (c2 # rest)"
  by (subst subst_loop.simps; auto simp: Let_def subst_loop.simps(1)
      simp del: takeWhile.simps dropWhile.simps split: option.split)+

lemma segments_loop_branches:
  "segments_loop [] = []"
  "c \<noteq> ''$'' \<Longrightarrow> segments_loop (c # cs) = SegLit c # segments_loop cs"
  "segments_loop [''$''] = [SegLit ''$'']"
  "segments_loop (''$'' # ''{'' # rest) =
     (let name = concat (takeWhile (\<lambda>nc. nc \<noteq> ''}'') rest);
          after = dropWhile (\<lambda>nc. nc \<noteq> ''}'') rest
      in (if after \<noteq> [] \<and> is_valid_name name then SegRef name (''${'' @ name @ ''}'')
          else SegLit (''${'' @ name @ (if after \<noteq> [] then ''}'' else [])))
         # segments_loop (drop 1 after))"
  "c2 \<noteq> ''{'' \<Longrightarrow> is_name_start c2 \<Longrightarrow> segments_loop (''$'' # c2 # rest) =
     (let name = concat (takeWhile is_name_continue (c2 # rest))
      in SegRef name (''$'' @ name) # segments_loop (dropWhile is_name_continue (c2 # rest)))"
  "c2 \<noteq> ''{'' \<Longrightarrow> \<not> is_name_start c2 \<Longrightarrow>
     segments_loop (''$'' # c2 # rest) = SegLit ''$'' # segments_loop (c2 # rest)"
  by (subst segments_loop.simps; auto simp: Let_def simp del: takeWhile.simps dropWhile.simps)+

lemma subst_induct [case_names nil lit last brace name dollar]:
  assumes "P []"
    and "\<And>c cs. c \<noteq> ''$'' \<Longrightarrow> P cs \<Longrightarrow> P (c # cs)"
    and "P [''$'']"
    and "\<And>rest. P (drop 1 (dropWhile (\<lambda>nc. nc \<noteq> ''}'') rest)) \<Longrightarrow> P (''$'' # ''{'' # rest)"
    and "\<And>c2 rest. c2 \<noteq> ''{'' \<Longrightarrow> is_name_start c2 \<Longrightarrow>
           P (dropWhile is_name_continue (c2 # rest)) \<Longrightarrow> P (''$'' # c2 # rest)"
    and "\<And>c2 rest. c2 \<noteq> ''{'' \<Longrightarrow> \<not> is_name_start c2 \<Longrightarrow> P (c2 # rest) \<Longrightarrow> P (''$'' # c2 # rest)"
  shows "P cs"
proof (induction cs rule: segments_loop.induct)
  case 1
  show ?case by (rule assms(1))
next
  case (2 c cs)
  show ?case
  proof (cases "c = ''$''")
    case False
    with 2(1) assms(2) show ?thesis by blast
  next
    case c: True
    show ?thesis
    proof (cases cs)
      case Nil
      with c assms(3) show ?thesis by simp
    next
      case (Cons c2 rest)
      consider "c2 = ''{''" | "c2 \<noteq> ''{''" "is_name_start c2" | "c2 \<noteq> ''{''" "\<not> is_name_start c2"
        by blast
      then show ?thesis
      proof cases
        case 1
        with c Cons 2(2) assms(4) show ?thesis by blast
      next
        case n: 2
        with c Cons 2(3) assms(5) show ?thesis by blast
      next
        case 3
        with c Cons 2(4) assms(6) show ?thesis by blast
      qed
    qed
  qed
qed

lemma subst_loop_segments:
  "subst_loop lookup cs = concat (map (seg_value lookup) (segments_loop cs))"
  by (induction cs rule: subst_induct)
     (auto simp: subst_loop_branches segments_loop_branches Let_def
       simp del: takeWhile.simps dropWhile.simps split: option.split)

lemma segments_loop_text: "concat (map seg_text (segments_loop cs)) = concat cs"
proof (induction cs rule: subst_induct)
  case (brace rest)
  let ?P = "\<lambda>nc. nc \<noteq> ''}''"
  have br: "concat rest = concat (takeWhile ?P rest) @ concat (dropWhile ?P rest)"
    by (rule concat_takeWhile_dropWhile [symmetric])
  show ?case
  proof (cases "dropWhile ?P rest")
    case Nil
    then show ?thesis
      using br by (simp only: segments_loop_branches Nil) (simp add: segments_loop_branches)
  next
    case (Cons u us)
    moreover from Cons have "u = ''}''" by (drule_tac dropWhile_Cons_hd) simp
    ultimately show ?thesis
      using br brace by (simp add: segments_loop_branches Let_def)
  qed
next
  case (name c2 rest)
  then show ?case
    using concat_takeWhile_dropWhile [of is_name_continue "c2 # rest"]
    by (simp add: segments_loop_branches Let_def del: takeWhile.simps dropWhile.simps)
qed (simp_all add: segments_loop_branches)

lemma segments_loop_wf: "list_all seg_wf (segments_loop cs)"
  by (induction cs rule: subst_induct)
     (auto simp: segments_loop_branches Let_def seg_wf_def is_valid_name_takeWhile
       simp del: takeWhile.simps dropWhile.simps)

lemma segments_loop_single: "segments_loop [c] = [SegLit c]"
  by (cases "c = ''$''") (auto simp: segments_loop_branches)

lemma no_placeholder_segments:
  "\<not> placeholder_loop cs \<Longrightarrow> segments_loop cs = map SegLit cs"
proof (induction cs rule: placeholder_loop.induct)
  case (1 c d cs)
  then show ?case by (cases "c = ''$''") (auto simp: segments_loop_branches split: if_splits)
qed (simp_all add: segments_loop_branches segments_loop_single)

lemma concat_literals [simp]: "concat (map (seg_value lookup \<circ> SegLit) cs) = concat cs"
  by (induction cs) auto

lemma substitute_eq_segments:
  "substitute input lookup = concat (map (seg_value lookup) (segments input))"
proof (cases "CHR ''$'' \<in> set input")
  case True
  then show ?thesis
    by (simp add: substitute_def segments_def subst_loop_segments)
next
  case False
  have "segments_loop cs = map SegLit cs" if "''$'' \<notin> set cs" for cs
    using that by (induction cs) (auto simp: segments_loop_branches)
  moreover have "''$'' \<notin> set (chars input)"
  proof
    assume "''$'' \<in> set (chars input)"
    then have "CHR ''$'' \<in> set (concat (chars input))"
      unfolding set_concat by (rule UN_I) simp
    with False show False by simp
  qed
  ultimately show ?thesis
    using False by (simp add: substitute_def segments_def)
qed

section \<open>Properties\<close>

text \<open>
  C12: substitution refines its specification.  The input splits into segments whose texts rebuild it
  exactly, every reference among them carries a valid name in one of the two source forms, and the
  result replaces each reference by its value, or by its own text when the name is unknown, and
  copies everything else.
\<close>

theorem substitute_correct:
  "substitute input lookup = concat (map (seg_value lookup) (segments input)) \<and>
   concat (map seg_text (segments input)) = input \<and> list_all seg_wf (segments input)"
  by (simp add: substitute_eq_segments segments_def segments_loop_text segments_loop_wf)

text \<open>
  text in which \<open>contains_placeholder\<close> finds nothing is left as it is by every substitution, so
  validating it before substitution validates what the build uses.
\<close>

theorem substitute_without_placeholder:
  assumes "\<not> contains_placeholder input"
  shows "substitute input lookup = input"
  using assms by (simp add: substitute_eq_segments segments_def contains_placeholder_def
      no_placeholder_segments)

theorem substitute_without_placeholder_witness:
  "\<not> contains_placeholder ''a$ $1:b'' \<and> substitute ''a$ $1:b'' (\<lambda>_. Some ''x'') = ''a$ $1:b''"
proof -
  have "\<not> contains_placeholder ''a$ $1:b''" by code_simp
  with substitute_without_placeholder show ?thesis by blast
qed

end
