(* ===== verification/Paths_Urls.thy ===== *)
theory Paths_Urls
  imports Validation Subst
begin

text \<open>
  Image paths and download URLs, \<open>crates/umf-core/src/types/path.rs\<close> and
  \<open>crates/umf-core/src/types/url.rs\<close>, with their grammars and the interpretation of
  \<open>validated_newtype\<close> on each constructor.
\<close>

section \<open>Absolute paths\<close>

datatype AbsolutePath = AbsolutePath (absolute_path_str: string)

datatype AbsolutePathError =
    AP_Empty
  | AP_NotAbsolute uchar
  | AP_NulByte nat
  | AP_Backslash nat
  | AP_TrailingSlash nat
  | AP_EmptyComponent nat

fun double_slash :: "bool \<Rightarrow> (nat \<times> uchar) list \<Rightarrow> nat option" where
  "double_slash prev_slash [] = None"
| "double_slash prev_slash ((i, ch) # rest) =
     (if ch = ''/'' then (if prev_slash then Some i else double_slash True rest)
      else double_slash False rest)"

definition AbsolutePath_new :: "string \<Rightarrow> AbsolutePathError + AbsolutePath" where
  "AbsolutePath_new raw =
     (if raw = [] then Inl AP_Empty
      else if \<not> starts_with raw ''/'' then Inl (AP_NotAbsolute (hd (chars raw)))
      else case find_byte NUL raw of
        Some pos \<Rightarrow> Inl (AP_NulByte pos)
      | None \<Rightarrow>
         (case find_byte BSL raw of
            Some pos \<Rightarrow> Inl (AP_Backslash pos)
          | None \<Rightarrow>
              if length raw > 1 \<and> ends_with_byte raw CHR ''/''
              then Inl (AP_TrailingSlash (length raw - 1))
              else (case double_slash False (char_indices raw) of
                      Some i \<Rightarrow> Inl (AP_EmptyComponent i)
                    | None \<Rightarrow> Inr (AbsolutePath raw))))"

fun AbsolutePathError_text :: "AbsolutePathError \<Rightarrow> string" where
  "AbsolutePathError_text AP_Empty = ''path cannot be empty''"
| "AbsolutePathError_text (AP_NotAbsolute ch) =
     ''path must be absolute (start with `/`), found `'' @ ch @ ''`''"
| "AbsolutePathError_text (AP_NulByte _) = ''path cannot contain a NUL byte''"
| "AbsolutePathError_text (AP_Backslash _) =
     ''path cannot contain `'' @ [BSL] @ ''` '' @ EM_DASH @ '' UMF images are Linux''"
| "AbsolutePathError_text (AP_TrailingSlash _) =
     ''path cannot end with `/` (except the root `/`)''"
| "AbsolutePathError_text (AP_EmptyComponent _) =
     ''path cannot contain an empty component (consecutive `/`)''"

fun AbsolutePathError_offset :: "AbsolutePathError \<Rightarrow> nat option" where
  "AbsolutePathError_offset AP_Empty = None"
| "AbsolutePathError_offset (AP_NotAbsolute _) = Some 0"
| "AbsolutePathError_offset (AP_NulByte offset) = Some offset"
| "AbsolutePathError_offset (AP_Backslash offset) = Some offset"
| "AbsolutePathError_offset (AP_TrailingSlash offset) = Some offset"
| "AbsolutePathError_offset (AP_EmptyComponent offset) = Some offset"


section \<open>Recipe paths\<close>

datatype RecipePath = RecipePath (recipe_path_str: string)

datatype RecipePathError =
    RP_Empty
  | RP_NulByte nat
  | RP_Backslash nat

definition RecipePath_new :: "string \<Rightarrow> RecipePathError + RecipePath" where
  "RecipePath_new raw =
     (if raw = [] then Inl RP_Empty
      else case find_byte NUL raw of
        Some pos \<Rightarrow> Inl (RP_NulByte pos)
      | None \<Rightarrow>
         (case find_byte BSL raw of
            Some pos \<Rightarrow> Inl (RP_Backslash pos)
          | None \<Rightarrow> Inr (RecipePath raw)))"

definition is_absolute :: "RecipePath \<Rightarrow> bool" where
  "is_absolute p = starts_with (recipe_path_str p) ''/''"

definition has_trailing_slash :: "RecipePath \<Rightarrow> bool" where
  "has_trailing_slash p \<longleftrightarrow>
     length (recipe_path_str p) > 1 \<and> ends_with_byte (recipe_path_str p) CHR ''/''"

fun RecipePathError_text :: "RecipePathError \<Rightarrow> string" where
  "RecipePathError_text RP_Empty = ''path cannot be empty''"
| "RecipePathError_text (RP_NulByte _) = ''path cannot contain a NUL byte''"
| "RecipePathError_text (RP_Backslash _) =
     ''path cannot contain `'' @ [BSL] @ ''` '' @ EM_DASH @ '' UMF images are Linux''"

fun RecipePathError_offset :: "RecipePathError \<Rightarrow> nat option" where
  "RecipePathError_offset RP_Empty = None"
| "RecipePathError_offset (RP_NulByte offset) = Some offset"
| "RecipePathError_offset (RP_Backslash offset) = Some offset"

definition RecipePathError_hint :: "RecipePathError \<Rightarrow> string option" where
  "RecipePathError_hint _ =
     Some (''paths may be absolute (`/etc/nginx`) or relative to the current WORKDIR (`./conf`); '' @
           ''a trailing `/` is allowed and forces directory semantics on ADD/COPY destinations'')"


section \<open>URLs\<close>

record HttpsUrl =
  url_raw :: string
  url_authority_start :: nat
  url_https :: bool

datatype HttpsUrlError =
    HU_MissingScheme
  | HU_EmptyAuthority
  | HU_NulByte nat

text \<open>\<open>new\<close> and the second half of \<open>new_allowing_placeholders\<close> are the same code.\<close>

definition HttpsUrl_new :: "string \<Rightarrow> HttpsUrlError + HttpsUrl" where
  "HttpsUrl_new raw =
     (let scheme =
        (case strip_prefix raw ''https://'' of
           Some rest \<Rightarrow> if rest = [] then Inl HU_EmptyAuthority else Inr (8, True)
         | None \<Rightarrow>
             (case strip_prefix raw ''http://'' of
                Some rest \<Rightarrow> if rest = [] then Inl HU_EmptyAuthority else Inr (7, False)
              | None \<Rightarrow> Inl HU_MissingScheme))
      in case scheme of
           Inl e \<Rightarrow> Inl e
         | Inr (authority_start, https) \<Rightarrow>
             (case find_byte NUL raw of
                Some pos \<Rightarrow> Inl (HU_NulByte pos)
              | None \<Rightarrow> Inr \<lparr> url_raw = raw, url_authority_start = authority_start,
                               url_https = https \<rparr>))"

definition HttpsUrl_new_allowing_placeholders :: "string \<Rightarrow> HttpsUrlError + HttpsUrl" where
  "HttpsUrl_new_allowing_placeholders raw =
     (if \<not> contains_placeholder raw then HttpsUrl_new raw
      else
        let scheme =
          (case strip_prefix raw ''https://'' of
             Some rest \<Rightarrow> if rest = [] then Inl HU_EmptyAuthority else Inr (8, True)
           | None \<Rightarrow>
               (case strip_prefix raw ''http://'' of
                  Some rest \<Rightarrow> if rest = [] then Inl HU_EmptyAuthority else Inr (7, False)
                | None \<Rightarrow> Inl HU_MissingScheme))
        in case scheme of
             Inl e \<Rightarrow> Inl e
           | Inr (authority_start, https) \<Rightarrow>
               (case find_byte NUL raw of
                  Some pos \<Rightarrow> Inl (HU_NulByte pos)
                | None \<Rightarrow> Inr \<lparr> url_raw = raw, url_authority_start = authority_start,
                                 url_https = https \<rparr>))"

definition authority_and_path :: "HttpsUrl \<Rightarrow> string" where
  "authority_and_path u = drop (url_authority_start u) (url_raw u)"

fun HttpsUrlError_text :: "HttpsUrlError \<Rightarrow> string" where
  "HttpsUrlError_text HU_MissingScheme = ''URL must begin with `http://` or `https://`''"
| "HttpsUrlError_text HU_EmptyAuthority = ''URL has no authority after the scheme''"
| "HttpsUrlError_text (HU_NulByte _) = ''URL cannot contain a NUL byte''"

fun HttpsUrlError_offset :: "HttpsUrlError \<Rightarrow> nat option" where
  "HttpsUrlError_offset HU_MissingScheme = Some 0"
| "HttpsUrlError_offset HU_EmptyAuthority = None"
| "HttpsUrlError_offset (HU_NulByte offset) = Some offset"

definition HttpsUrlError_hint :: "HttpsUrlError \<Rightarrow> string option" where
  "HttpsUrlError_hint _ =
     Some (''only `http://` and `https://` are recognised '' @ EM_DASH @
           '' local files use a plain path'')"


section \<open>The grammars and the contract\<close>

definition absolute_path_grammar :: "string \<Rightarrow> bool" where
  "absolute_path_grammar s \<longleftrightarrow>
     NUL \<notin> set s \<and> BSL \<notin> set s \<and>
     (\<exists>t. s = CHR ''/'' # t \<and> (t = [] \<or> [] \<notin> set (split_on CHR ''/'' t)))"

definition recipe_path_grammar :: "string \<Rightarrow> bool" where
  "recipe_path_grammar s \<longleftrightarrow> s \<noteq> [] \<and> NUL \<notin> set s \<and> BSL \<notin> set s"

definition https_url_grammar :: "string \<Rightarrow> bool" where
  "https_url_grammar s \<longleftrightarrow>
     NUL \<notin> set s \<and> (\<exists>rest. rest \<noteq> [] \<and> (s = ''https://'' @ rest \<or> s = ''http://'' @ rest))"

text \<open>The bytes of a path, with no empty component between two slashes.\<close>

fun no_double_slash :: "bool \<Rightarrow> string \<Rightarrow> bool" where
  "no_double_slash p [] = True"
| "no_double_slash p (b # bs) =
     (if b = CHR ''/'' then \<not> p \<and> no_double_slash True bs else no_double_slash False bs)"

interpretation recipe_path: validated_newtype RecipePath_new recipe_path_str RecipePathError_offset
  recipe_path_grammar
  by unfold_locales
     (auto simp: RecipePath_new_def recipe_path_grammar_def find_byte_None
       split: if_splits option.splits dest: find_byte_Some_mem find_byte_Some_bound less_imp_le)

lemma HttpsUrl_placeholder_same: "HttpsUrl_new_allowing_placeholders raw = HttpsUrl_new raw"
  by (simp add: HttpsUrl_new_allowing_placeholders_def HttpsUrl_new_def)

interpretation https_url: validated_newtype HttpsUrl_new url_raw HttpsUrlError_offset https_url_grammar
proof
  fix s e i
  show "(\<exists>x. HttpsUrl_new s = Inr x) \<longleftrightarrow> https_url_grammar s"
    by (auto simp: HttpsUrl_new_def https_url_grammar_def find_byte_None strip_prefix_None
        starts_with_append Let_def split: option.splits if_splits dest: find_byte_Some_mem)
  show "i \<le> length s" if "HttpsUrl_new s = Inl e" "HttpsUrlError_offset e = Some i"
    using that
    by (auto simp: HttpsUrl_new_def Let_def split: option.splits if_splits
        dest!: find_byte_Some_bound)
qed (auto simp: HttpsUrl_new_def Let_def split: option.splits if_splits)

lemma cont_not_slash: "list_all is_cont u \<Longrightarrow> no_double_slash p (u @ bs) \<longleftrightarrow>
    (if u = [] then no_double_slash p bs else no_double_slash False bs)"
  by (induction u arbitrary: p) (auto simp: is_cont_def byte_def)

lemma double_slash_bytes:
  "wf_utf8 s \<Longrightarrow> double_slash p (char_indices_from k s) = None \<longleftrightarrow> no_double_slash p s"
proof (induction k s arbitrary: p rule: char_indices_from.induct)
  case (2 k b bs)
  show ?case
  proof (cases "byte b < 128")
    case True
    with 2 show ?thesis by auto
  next
    case False
    then have b: "b \<noteq> CHR ''/''" by (auto simp: byte_def)
    let ?u = "take (utf8_len b - 1) bs" and ?r = "drop (utf8_len b - 1) bs"
    from 2(2) have u: "list_all is_cont ?u" by simp
    have "no_double_slash False bs \<longleftrightarrow> no_double_slash False (?u @ ?r)" by simp
    also have "\<dots> \<longleftrightarrow> no_double_slash False ?r" using cont_not_slash [OF u, of False ?r] by simp
    finally show ?thesis using 2 b by simp
  qed
qed simp

lemma no_double_slash_split:
  "no_double_slash p t \<and> (t \<noteq> [] \<longrightarrow> last t \<noteq> CHR ''/'') \<and> (p \<longrightarrow> t \<noteq> []) \<longleftrightarrow>
   [] \<notin> set (tl (split_on CHR ''/'' t)) \<and> (p \<longrightarrow> hd (split_on CHR ''/'' t) \<noteq> [])"
proof (induction t arbitrary: p)
  case (Cons b t)
  obtain x xs where s: "split_on CHR ''/'' t = x # xs" by (cases "split_on CHR ''/'' t") auto
  have e: "t = [] \<Longrightarrow> x = [] \<and> xs = []" using s by simp
  show ?case using Cons [of True] Cons [of False] s e by (cases "b = CHR ''/''") auto
qed simp

text \<open>What \<open>AbsolutePath::new\<close> accepts, on the strings Rust can build.\<close>

lemma AbsolutePath_accepts:
  assumes "wf_utf8 s"
  shows "AbsolutePath_new s = Inr (AbsolutePath s) \<longleftrightarrow> absolute_path_grammar s"
proof (cases "\<exists>t. s = CHR ''/'' # t")
  case False
  then show ?thesis
    by (auto simp: AbsolutePath_new_def absolute_path_grammar_def starts_with_append)
next
  case True
  then obtain t where s: "s = CHR ''/'' # t" ..
  have nd: "double_slash False (char_indices s) = None \<longleftrightarrow> no_double_slash True t"
    using double_slash_bytes [OF assms, of False 0] s by (simp add: char_indices_def)
  have gr: "t = [] \<or> [] \<notin> set (split_on CHR ''/'' t) \<longleftrightarrow>
      no_double_slash True t \<and> (t \<noteq> [] \<longrightarrow> last t \<noteq> CHR ''/'')"
    using no_double_slash_split [of True t]
    by (cases "t = []"; cases "split_on CHR ''/'' t") auto
  show ?thesis
    using s nd gr
    by (auto simp: AbsolutePath_new_def absolute_path_grammar_def starts_with_append find_byte_None
        ends_with_byte_def split: option.splits dest: find_byte_Some_mem)
qed

section \<open>Properties\<close>

text \<open>
  C26: on UTF-8 text, an absolute path is accepted exactly when it starts with a slash, has no NUL byte
  and no backslash, and its components are non-empty, the root alone excepted.
\<close>

theorem AbsolutePath_iff_grammar:
  assumes "wf_utf8 s"
  shows "AbsolutePath_new s = Inr (AbsolutePath s) \<longleftrightarrow> absolute_path_grammar s"
  by (rule AbsolutePath_accepts [OF assms])

theorem AbsolutePath_iff_grammar_witness:
  "wf_utf8 ''/usr/bin'' \<and> absolute_path_grammar ''/usr/bin'' \<and>
   wf_utf8 ''/usr//bin'' \<and> \<not> absolute_path_grammar ''/usr//bin''"
proof -
  have "wf_utf8 ''/usr/bin''" "wf_utf8 ''/usr//bin''" by code_simp+
  moreover have "AbsolutePath_new ''/usr/bin'' = Inr (AbsolutePath ''/usr/bin'')"
    "AbsolutePath_new ''/usr//bin'' \<noteq> Inr (AbsolutePath ''/usr//bin'')" by code_simp+
  ultimately show ?thesis
    using AbsolutePath_iff_grammar [of "''/usr/bin''"] AbsolutePath_iff_grammar [of "''/usr//bin''"] by blast
qed

text \<open>
  recipe paths and URLs accept exactly their grammars and keep the text as written: a path is
  non-empty without NUL and backslash, a URL is \<open>http://\<close> or \<open>https://\<close> followed by something; a URL
  with placeholders is checked in the same way.
\<close>

theorem recipe_paths_and_urls_accept:
  "((\<exists>p. RecipePath_new s = Inr p \<and> recipe_path_str p = s) \<longleftrightarrow> recipe_path_grammar s) \<and>
   ((\<exists>u. HttpsUrl_new s = Inr u \<and> url_raw u = s) \<longleftrightarrow> https_url_grammar s) \<and>
   HttpsUrl_new_allowing_placeholders s = HttpsUrl_new s"
  using recipe_path.accepts recipe_path.keeps https_url.accepts https_url.keeps HttpsUrl_placeholder_same
  by metis

end
