(* ===== verification/Oci_Reference.thy ===== *)
theory Oci_Reference
  imports Validation Subst
begin

text \<open>
  OCI references, \<open>crates/umf-core/src/types/oci.rs\<close>: the hand-written validator, function by
  function.  \<open>Oci_Grammar\<close> states the grammar it implements and proves the two equivalent.
\<close>

datatype OciReference = OciReference (oci_ref_str: string)

datatype OciReferenceError =
    OR_Empty
  | OR_NulByte nat
  | OR_EmptyName nat
  | OR_EmptyTag nat
  | OR_TagTooLong nat nat
  | OR_TagBadLeadingChar uchar nat
  | OR_TagBadChar uchar nat
  | OR_HostEmpty nat
  | OR_HostBadComponent nat
  | OR_HostBadChar uchar nat
  | OR_HostPortEmpty nat
  | OR_HostPortInvalid nat string
  | OR_PathComponentEmpty nat
  | OR_PathComponentBadEdgeChar uchar nat
  | OR_PathComponentBadChar uchar nat
  | OR_PathComponentBadSeparator nat
  | OR_DigestMissingColon nat
  | OR_DigestMissingAlgorithm nat
  | OR_DigestMissingHex nat
  | OR_DigestHexTooShort nat nat
  | OR_DigestBadAlgorithmChar uchar nat
  | OR_DigestBadHexChar uchar nat

text \<open>\<open>u8 as char\<close>: the character with that code point, here its UTF-8 bytes.\<close>

definition u8_as_char :: "char \<Rightarrow> uchar" where
  "u8_as_char b =
     (if byte b < 128 then [b] else [char_of (192 + byte b div 64), char_of (128 + byte b mod 64)])"

definition algorithm_char :: "char \<Rightarrow> bool" where
  "algorithm_char b \<longleftrightarrow> is_ascii_lowercase b \<or> is_ascii_digit b \<or> b \<in> set ''+._-''"

definition parse_digest :: "string \<Rightarrow> nat \<Rightarrow> OciReferenceError option" where
  "parse_digest body base_offset =
     (case find_byte CHR '':'' body of
        None \<Rightarrow> Some (OR_DigestMissingColon base_offset)
      | Some colon \<Rightarrow>
          let algorithm = take colon body; hex = drop (colon + 1) body
          in if algorithm = [] then Some (OR_DigestMissingAlgorithm base_offset)
             else if hex = [] then Some (OR_DigestMissingHex (base_offset + colon + 1))
             else (case find (\<lambda>(i, ch). \<not> uchar_is algorithm_char ch) (char_indices algorithm) of
                     Some (i, ch) \<Rightarrow> Some (OR_DigestBadAlgorithmChar ch (base_offset + i))
                   | None \<Rightarrow>
                       if length hex < 32
                       then Some (OR_DigestHexTooShort (length hex) (base_offset + colon + 1))
                       else (case find (\<lambda>(i, ch). \<not> uchar_is is_ascii_hexdigit ch) (char_indices hex) of
                               Some (i, ch) \<Rightarrow>
                                 Some (OR_DigestBadHexChar ch (base_offset + colon + 1 + i))
                             | None \<Rightarrow> None)))"

definition tag_char :: "char \<Rightarrow> bool" where
  "tag_char b \<longleftrightarrow> is_ascii_alphanumeric b \<or> b \<in> set ''_.-''"

definition validate_tag :: "string \<Rightarrow> nat \<Rightarrow> OciReferenceError option" where
  "validate_tag tag base_offset =
     (if length tag > 128 then Some (OR_TagTooLong (length tag) base_offset)
      else case char_indices tag of
        [] \<Rightarrow> Some (OR_EmptyTag base_offset)
      | (_, first) # rest \<Rightarrow>
          if \<not> uchar_is (\<lambda>b. is_ascii_alphanumeric b \<or> b = CHR ''_'') first
          then Some (OR_TagBadLeadingChar first base_offset)
          else (case find (\<lambda>(i, ch). \<not> uchar_is tag_char ch) rest of
                  Some (i, ch) \<Rightarrow> Some (OR_TagBadChar ch (base_offset + i))
                | None \<Rightarrow> None))"

text \<open>
  The name and the optional tag.  \<open>name_and_tag\<close> is a prefix of the raw reference, so the pointer
  difference that the code reports as the offset of an empty name is 0.
\<close>

definition split_tag :: "string \<Rightarrow> OciReferenceError + (string \<times> string option)" where
  "split_tag name_and_tag =
     (case rfind_byte CHR '':'' name_and_tag of
        None \<Rightarrow> Inr (name_and_tag, None)
      | Some last_colon \<Rightarrow>
          let after = drop (last_colon + 1) name_and_tag
          in if CHR ''/'' \<in> set after then Inr (name_and_tag, None)
             else
               let before = take last_colon name_and_tag
               in if before = [] then Inl (OR_EmptyName 0)
                  else if after = [] then Inl (OR_EmptyTag (last_colon + 1))
                  else (case validate_tag after (last_colon + 1) of
                          Some e \<Rightarrow> Inl e
                        | None \<Rightarrow> Inr (before, Some after)))"

text \<open>
  The \<open>while i <= bytes.len()\<close> loop that \<open>validate_host\<close> and \<open>validate_repository\<close> share: run a
  check on each component between separators.
\<close>

function each_component ::
  "char \<Rightarrow> string \<Rightarrow> (string \<Rightarrow> nat \<Rightarrow> 'e option) \<Rightarrow> nat \<Rightarrow> nat \<Rightarrow> 'e option" where
  "each_component sep s check start i =
     (if i \<le> length s then
        (if i = length s \<or> s ! i = sep then
           (case check (slice s start i) start of
              Some e \<Rightarrow> Some e
            | None \<Rightarrow> each_component sep s check (i + 1) (i + 1))
         else each_component sep s check start (i + 1))
      else None)"
  by pat_completeness auto

termination each_component
  by (relation "measure (\<lambda>(_, s, _, _, i). Suc (length s) - i)") auto

definition check_host_component :: "nat \<Rightarrow> string \<Rightarrow> nat \<Rightarrow> OciReferenceError option" where
  "check_host_component base_offset component start =
     (if component = [] then Some (OR_HostBadComponent (base_offset + start))
      else if \<not> is_ascii_alphanumeric (hd component) \<or> \<not> is_ascii_alphanumeric (last component)
      then Some (OR_HostBadComponent (base_offset + start))
      else (case find (\<lambda>(j, ch). \<not> uchar_is (\<lambda>b. is_ascii_alphanumeric b \<or> b = CHR ''-'') ch)
                   (char_indices component) of
              Some (j, ch) \<Rightarrow> Some (OR_HostBadChar ch (base_offset + start + j))
            | None \<Rightarrow> None))"

definition validate_host :: "string \<Rightarrow> nat \<Rightarrow> OciReferenceError option" where
  "validate_host host base_offset =
     (if host = [] then Some (OR_HostEmpty base_offset)
      else each_component CHR ''.'' host (check_host_component base_offset) 0 0)"

definition parse_host :: "string \<Rightarrow> nat \<Rightarrow> OciReferenceError + (string \<times> nat option)" where
  "parse_host head base_offset =
     (let split =
        (case rfind_byte CHR '':'' head of
           Some port_colon \<Rightarrow>
             let host_part = take port_colon head; port_str = drop (port_colon + 1) head
             in if port_str = [] then Inl (OR_HostPortEmpty (base_offset + port_colon + 1))
                else (case parse_uint 16 port_str of
                        None \<Rightarrow> Inl (OR_HostPortInvalid (base_offset + port_colon + 1) port_str)
                      | Some port \<Rightarrow> Inr (host_part, Some port))
         | None \<Rightarrow> Inr (head, None))
      in case split of
           Inl e \<Rightarrow> Inl e
         | Inr (host_str, port) \<Rightarrow>
             (case validate_host host_str base_offset of
                Some e \<Rightarrow> Inl e
              | None \<Rightarrow> Inr (host_str, port)))"

text \<open>The scan of a path component; \<open>underscore_run\<close> stops at 3, so its width never matters.\<close>

fun path_component_scan ::
  "nat \<Rightarrow> bool \<Rightarrow> nat \<Rightarrow> (nat \<times> uchar) list \<Rightarrow> OciReferenceError option" where
  "path_component_scan base_offset prev_was_dot underscore_run [] = None"
| "path_component_scan base_offset prev_was_dot underscore_run ((i, ch) # rest) =
     (if uchar_is (\<lambda>b. is_ascii_lowercase b \<or> is_ascii_digit b) ch
      then path_component_scan base_offset False 0 rest
      else if ch = ''.'' then
        (if prev_was_dot then Some (OR_PathComponentBadSeparator (base_offset + i))
         else path_component_scan base_offset True 0 rest)
      else if ch = ''_'' then
        (if underscore_run + 1 > 2 then Some (OR_PathComponentBadSeparator (base_offset + i))
         else path_component_scan base_offset False (underscore_run + 1) rest)
      else if ch = ''-'' then path_component_scan base_offset False 0 rest
      else Some (OR_PathComponentBadChar ch (base_offset + i)))"

definition validate_path_component :: "string \<Rightarrow> nat \<Rightarrow> OciReferenceError option" where
  "validate_path_component component base_offset =
     (if component = [] then Some (OR_PathComponentEmpty base_offset)
      else if \<not> (is_ascii_lowercase (hd component) \<or> is_ascii_digit (hd component))
      then Some (OR_PathComponentBadEdgeChar (u8_as_char (hd component)) base_offset)
      else if \<not> (is_ascii_lowercase (last component) \<or> is_ascii_digit (last component))
      then Some (OR_PathComponentBadEdgeChar (u8_as_char (last component))
                   (base_offset + length component - 1))
      else path_component_scan base_offset False 0 (char_indices component))"

definition validate_repository :: "string \<Rightarrow> nat \<Rightarrow> OciReferenceError option" where
  "validate_repository repo base_offset =
     (if repo = [] then Some (OR_EmptyName base_offset)
      else each_component CHR ''/'' repo
             (\<lambda>component start. validate_path_component component (base_offset + start)) 0 0)"

definition split_host ::
  "string \<Rightarrow> nat \<Rightarrow> OciReferenceError + (string option \<times> nat option \<times> string)" where
  "split_host name base_offset =
     (if name = [] then Inl (OR_EmptyName base_offset)
      else case find_byte CHR ''/'' name of
        None \<Rightarrow>
          (case validate_path_component name base_offset of
             Some e \<Rightarrow> Inl e
           | None \<Rightarrow> Inr (None, None, name))
      | Some slash \<Rightarrow>
          let head = take slash name; tail = drop (slash + 1) name;
              looks_like_host = (head = ''localhost'' \<or> CHR ''.'' \<in> set head \<or> CHR '':'' \<in> set head)
          in if looks_like_host then
               (case parse_host head base_offset of
                  Inl e \<Rightarrow> Inl e
                | Inr (host, port) \<Rightarrow>
                    (case validate_repository tail (base_offset + slash + 1) of
                       Some e \<Rightarrow> Inl e
                     | None \<Rightarrow> Inr (Some host, port, tail)))
             else
               (case validate_repository name base_offset of
                  Some e \<Rightarrow> Inl e
                | None \<Rightarrow> Inr (None, None, name)))"

definition OciReference_new :: "string \<Rightarrow> OciReferenceError + OciReference" where
  "OciReference_new raw =
     (if raw = [] then Inl OR_Empty
      else case find_byte NUL raw of
        Some pos \<Rightarrow> Inl (OR_NulByte pos)
      | None \<Rightarrow>
         (case (case find_byte CHR ''@'' raw of
                  Some at_pos \<Rightarrow>
                    (case parse_digest (drop (at_pos + 1) raw) (at_pos + 1) of
                       Some e \<Rightarrow> Inl e
                     | None \<Rightarrow> Inr (take at_pos raw))
                | None \<Rightarrow> Inr raw) of
            Inl e \<Rightarrow> Inl e
          | Inr name_and_tag \<Rightarrow>
             (case split_tag name_and_tag of
                Inl e \<Rightarrow> Inl e
              | Inr (name, _) \<Rightarrow>
                 (case split_host name 0 of
                    Inl e \<Rightarrow> Inl e
                  | Inr _ \<Rightarrow> Inr (OciReference raw)))))"

definition OciReference_new_allowing_placeholders :: "string \<Rightarrow> OciReferenceError + OciReference" where
  "OciReference_new_allowing_placeholders raw =
     (if \<not> contains_placeholder raw then OciReference_new raw
      else if raw = [] then Inl OR_Empty
      else case find_byte NUL raw of
        Some pos \<Rightarrow> Inl (OR_NulByte pos)
      | None \<Rightarrow> Inr (OciReference raw))"

fun OciReferenceError_text :: "OciReferenceError \<Rightarrow> string" where
  "OciReferenceError_text OR_Empty = ''OCI reference cannot be empty''"
| "OciReferenceError_text (OR_NulByte _) = ''OCI reference cannot contain a NUL byte''"
| "OciReferenceError_text (OR_EmptyName _) = ''OCI reference is missing the repository name''"
| "OciReferenceError_text (OR_EmptyTag _) = ''OCI reference tag cannot be empty''"
| "OciReferenceError_text (OR_TagTooLong len _) =
     ''OCI reference tag is '' @ show_nat len @ '' chars '' @ EM_DASH @
     '' distribution-spec limit is 128''"
| "OciReferenceError_text (OR_TagBadLeadingChar ch _) =
     ''OCI reference tag must start with an alphanumeric character or `_`, found `'' @ ch @ ''`''"
| "OciReferenceError_text (OR_TagBadChar ch _) =
     ''OCI reference tag contains invalid character `'' @ ch @ ''`''"
| "OciReferenceError_text (OR_HostEmpty _) = ''OCI reference host cannot be empty''"
| "OciReferenceError_text (OR_HostBadComponent _) = ''OCI reference host has an empty component''"
| "OciReferenceError_text (OR_HostBadChar ch _) =
     ''OCI reference host contains invalid character `'' @ ch @ ''`''"
| "OciReferenceError_text (OR_HostPortEmpty _) = ''OCI reference host port cannot be empty''"
| "OciReferenceError_text (OR_HostPortInvalid _ got) =
     ''OCI reference host port `'' @ got @ ''` is not a valid 0..=65535 integer''"
| "OciReferenceError_text (OR_PathComponentEmpty _) =
     ''OCI reference path component cannot be empty''"
| "OciReferenceError_text (OR_PathComponentBadEdgeChar ch _) =
     ''OCI reference path component edge must be `[a-z0-9]`, found `'' @ ch @ ''`''"
| "OciReferenceError_text (OR_PathComponentBadChar ch _) =
     ''OCI reference path component contains invalid character `'' @ ch @ ''`''"
| "OciReferenceError_text (OR_PathComponentBadSeparator _) =
     ''OCI reference path component has a malformed separator run''"
| "OciReferenceError_text (OR_DigestMissingColon _) =
     ''OCI reference digest must be `<algorithm>:<hex>`''"
| "OciReferenceError_text (OR_DigestMissingAlgorithm _) =
     ''OCI reference digest is missing the algorithm''"
| "OciReferenceError_text (OR_DigestMissingHex _) =
     ''OCI reference digest is missing the hex body''"
| "OciReferenceError_text (OR_DigestHexTooShort len _) =
     ''OCI reference digest hex body is '' @ show_nat len @ '' chars '' @ EM_DASH @
     '' needs at least 32''"
| "OciReferenceError_text (OR_DigestBadAlgorithmChar ch _) =
     ''OCI reference digest algorithm contains invalid character `'' @ ch @ ''`''"
| "OciReferenceError_text (OR_DigestBadHexChar ch _) =
     ''OCI reference digest hex body contains non-hex character `'' @ ch @ ''`''"

fun OciReferenceError_offset :: "OciReferenceError \<Rightarrow> nat option" where
  "OciReferenceError_offset OR_Empty = None"
| "OciReferenceError_offset (OR_NulByte offset) = Some offset"
| "OciReferenceError_offset (OR_EmptyName offset) = Some offset"
| "OciReferenceError_offset (OR_EmptyTag offset) = Some offset"
| "OciReferenceError_offset (OR_TagTooLong _ offset) = Some offset"
| "OciReferenceError_offset (OR_TagBadLeadingChar _ offset) = Some offset"
| "OciReferenceError_offset (OR_TagBadChar _ offset) = Some offset"
| "OciReferenceError_offset (OR_HostEmpty offset) = Some offset"
| "OciReferenceError_offset (OR_HostBadComponent offset) = Some offset"
| "OciReferenceError_offset (OR_HostBadChar _ offset) = Some offset"
| "OciReferenceError_offset (OR_HostPortEmpty offset) = Some offset"
| "OciReferenceError_offset (OR_HostPortInvalid offset _) = Some offset"
| "OciReferenceError_offset (OR_PathComponentEmpty offset) = Some offset"
| "OciReferenceError_offset (OR_PathComponentBadEdgeChar _ offset) = Some offset"
| "OciReferenceError_offset (OR_PathComponentBadChar _ offset) = Some offset"
| "OciReferenceError_offset (OR_PathComponentBadSeparator offset) = Some offset"
| "OciReferenceError_offset (OR_DigestMissingColon offset) = Some offset"
| "OciReferenceError_offset (OR_DigestMissingAlgorithm offset) = Some offset"
| "OciReferenceError_offset (OR_DigestMissingHex offset) = Some offset"
| "OciReferenceError_offset (OR_DigestHexTooShort _ offset) = Some offset"
| "OciReferenceError_offset (OR_DigestBadAlgorithmChar _ offset) = Some offset"
| "OciReferenceError_offset (OR_DigestBadHexChar _ offset) = Some offset"

definition OciReferenceError_hint :: "OciReferenceError \<Rightarrow> string option" where
  "OciReferenceError_hint _ =
     Some ''examples: `alpine:3.21`, `imagilux/kernel-linux:7.0`, `quay.io/proj/img:tag`''"

end
