(* ===== verification/Oci_Grammar.thy ===== *)
theory Oci_Grammar
  imports Oci_Reference
begin

text \<open>
  The grammar of OCI references that the validator of \<open>Oci_Reference\<close> implements, stated by
  composition: a reference is what \<open>show_ref\<close> prints for valid parts.  The main result is that
  \<open>OciReference::new\<close> accepts exactly these strings.
\<close>

section \<open>The parts of a reference\<close>

definition digest_grammar :: "string \<times> string \<Rightarrow> bool" where
  "digest_grammar d \<longleftrightarrow>
     fst d \<noteq> [] \<and> list_all algorithm_char (fst d) \<and>
     32 \<le> length (snd d) \<and> list_all is_ascii_hexdigit (snd d)"

definition tag_grammar :: "string \<Rightarrow> bool" where
  "tag_grammar t \<longleftrightarrow>
     length t \<le> 128 \<and>
     lead_rest (\<lambda>b. is_ascii_alphanumeric b \<or> b = CHR ''_'') tag_char t"

definition host_component :: "string \<Rightarrow> bool" where
  "host_component c \<longleftrightarrow>
     c \<noteq> [] \<and> is_ascii_alphanumeric (hd c) \<and> is_ascii_alphanumeric (last c) \<and>
     list_all (\<lambda>b. is_ascii_alphanumeric b \<or> b = CHR ''-'') c"

definition host_grammar :: "string \<Rightarrow> bool" where
  "host_grammar h \<longleftrightarrow> list_all host_component (split_on CHR ''.'' h)"

definition path_char :: "char \<Rightarrow> bool" where
  "path_char b \<longleftrightarrow> is_ascii_lowercase b \<or> is_ascii_digit b \<or> b \<in> set ''._-''"

definition path_component :: "string \<Rightarrow> bool" where
  "path_component c \<longleftrightarrow>
     c \<noteq> [] \<and> (is_ascii_lowercase (hd c) \<or> is_ascii_digit (hd c)) \<and>
     (is_ascii_lowercase (last c) \<or> is_ascii_digit (last c)) \<and>
     list_all path_char c \<and> \<not> contains_str c ''..'' \<and> \<not> contains_str c ''___''"

definition looks_like_host :: "string \<Rightarrow> bool" where
  "looks_like_host head \<longleftrightarrow> head = ''localhost'' \<or> CHR ''.'' \<in> set head \<or> CHR '':'' \<in> set head"

record oci_parts =
  op_domain :: "(string \<times> string option) option"
  op_path :: "string list"
  op_tag :: "string option"
  op_digest :: "(string \<times> string) option"

fun show_domain :: "string \<times> string option \<Rightarrow> string" where
  "show_domain (h, None) = h"
| "show_domain (h, Some port) = h @ '':'' @ port"

definition show_name :: "oci_parts \<Rightarrow> string" where
  "show_name p =
     (case op_domain p of None \<Rightarrow> [] | Some d \<Rightarrow> show_domain d @ ''/'') @ join ''/'' (op_path p)"

definition show_ref :: "oci_parts \<Rightarrow> string" where
  "show_ref p =
     show_name p @
     (case op_tag p of None \<Rightarrow> [] | Some t \<Rightarrow> '':'' @ t) @
     (case op_digest p of None \<Rightarrow> [] | Some (alg, hex) \<Rightarrow> ''@'' @ alg @ '':'' @ hex)"

text \<open>
  A first component is read as a host if and only if it looks like one, so a domain must look
  like a host and the first of several path components must not.
\<close>

definition name_ok :: "oci_parts \<Rightarrow> bool" where
  "name_ok p \<longleftrightarrow>
     op_path p \<noteq> [] \<and> list_all path_component (op_path p) \<and>
     (case op_domain p of
        None \<Rightarrow> tl (op_path p) \<noteq> [] \<longrightarrow> \<not> looks_like_host (hd (op_path p))
      | Some (h, port) \<Rightarrow>
          host_grammar h \<and> looks_like_host (show_domain (h, port)) \<and>
          (case port of None \<Rightarrow> True | Some ps \<Rightarrow> parse_uint 16 ps \<noteq> None))"

definition parts_ok :: "oci_parts \<Rightarrow> bool" where
  "parts_ok p \<longleftrightarrow>
     name_ok p \<and>
     (case op_tag p of None \<Rightarrow> True | Some t \<Rightarrow> tag_grammar t) \<and>
     (case op_digest p of None \<Rightarrow> True | Some d \<Rightarrow> digest_grammar d)"

definition oci_grammar :: "string \<Rightarrow> bool" where
  "oci_grammar s \<longleftrightarrow> (\<exists>p. parts_ok p \<and> s = show_ref p)"


section \<open>Components\<close>

lemma oci_ascii:
  "algorithm_char b \<Longrightarrow> byte b < 128"
  "is_ascii_hexdigit b \<Longrightarrow> byte b < 128"
  "is_ascii_alphanumeric b \<or> b = CHR ''_'' \<Longrightarrow> byte b < 128"
  "tag_char b \<Longrightarrow> byte b < 128"
  "is_ascii_alphanumeric b \<or> b = CHR ''-'' \<Longrightarrow> byte b < 128"
  "path_char b \<Longrightarrow> byte b < 128"
  by (auto simp: ascii_defs byte_def algorithm_char_def path_char_def tag_char_def)

lemma parse_digest_None:
  "parse_digest d off = None \<longleftrightarrow> (\<exists>alg hex. d = alg @ CHR '':'' # hex \<and> digest_grammar (alg, hex))"
proof -
  have nc: "list_all algorithm_char a \<Longrightarrow> CHR '':'' \<notin> set a" for a
    by (auto simp: list_all_iff algorithm_char_def ascii_defs byte_def)
  have a: "find (\<lambda>(i, ch). \<not> uchar_is algorithm_char ch) (char_indices a) = None \<longleftrightarrow> list_all algorithm_char a"
    for a by (rule char_indices_all) (rule oci_ascii(1))
  have h: "find (\<lambda>(i, ch). \<not> uchar_is is_ascii_hexdigit ch) (char_indices a) = None \<longleftrightarrow>
      list_all is_ascii_hexdigit a" for a
    by (rule char_indices_all) (rule oci_ascii(2))
  have pd: "parse_digest (al @ CHR '':'' # hx) off = None \<longleftrightarrow> digest_grammar (al, hx)"
    if "CHR '':'' \<notin> set al" for al hx
    using that a [of al] h [of hx]
    by (auto simp: parse_digest_def find_byte_append digest_grammar_def Let_def split: option.splits)
  show ?thesis
  proof
    assume ok: "parse_digest d off = None"
    then obtain i where "find_byte CHR '':'' d = Some i" by (auto simp: parse_digest_def split: option.splits)
    then have d: "d = take i d @ CHR '':'' # drop (Suc i) d" "CHR '':'' \<notin> set (take i d)"
      by (simp_all add: find_byte_split)
    with ok pd [of "take i d" "drop (Suc i) d"] show "\<exists>alg hex. d = alg @ CHR '':'' # hex \<and> digest_grammar (alg, hex)"
      by metis
  next
    assume "\<exists>alg hex. d = alg @ CHR '':'' # hex \<and> digest_grammar (alg, hex)"
    then show "parse_digest d off = None" using pd nc by (auto simp: digest_grammar_def)
  qed
qed

lemma validate_tag_None: "validate_tag t off = None \<longleftrightarrow> tag_grammar t"
  using char_indices_lead_rest [of "\<lambda>b. is_ascii_alphanumeric b \<or> b = CHR ''_''"
      tag_char t, OF oci_ascii(3,4)]
  by (auto simp: validate_tag_def tag_grammar_def split: list.splits option.splits if_splits)

declare each_component.simps [simp del]

lemma each_component_iff:
  assumes check: "\<And>c st. check c st = None \<longleftrightarrow> ok c"
    and "st \<le> i" and "i \<le> length s" and "sep \<notin> set (slice s st i)"
  shows "each_component sep s check st i = None \<longleftrightarrow> list_all ok (split_on sep (drop st s))"
  using assms(2-)
proof (induction "length s - i" arbitrary: st i)
  case 0
  then have "slice s st i = drop st s" by (simp add: slice_def)
  with 0 show ?case
    using check [of "drop st s" st]
    by (subst each_component.simps) (auto simp: split_on_none each_component.simps split: option.split)
next
  case (Suc n)
  then have i: "i < length s" by simp
  have dr: "drop st s = slice s st i @ s ! i # drop (Suc i) s"
    using Suc.prems i by (simp add: slice_def Cons_nth_drop_Suc)
      (metis append_take_drop_id drop_drop le_add_diff_inverse2)
  show ?case
  proof (cases "s ! i = sep")
    case True
    have "slice s (Suc i) (Suc i) = []" by (simp add: slice_def)
    then have ih: "each_component sep s check (Suc i) (Suc i) = None \<longleftrightarrow>
        list_all ok (split_on sep (drop (Suc i) s))"
      using Suc.hyps(1) [of "Suc i" "Suc i"] Suc.hyps(2) i by simp
    show ?thesis
      using True i Suc.prems dr ih check [of "slice s st i" st]
      by (subst each_component.simps) (auto simp: split_on_append split: option.split)
  next
    case False
    have "slice s st (Suc i) = slice s st i @ [s ! i]"
      using Suc.prems i by (simp add: slice_def Suc_diff_le take_Suc_conv_app_nth)
    with False Suc.hyps(1) [of "Suc i" st] Suc.hyps(2) Suc.prems i show ?thesis
      by (subst each_component.simps) simp
  qed
qed

lemma each_component_all:
  assumes "\<And>c st. check c st = None \<longleftrightarrow> ok c"
  shows "each_component sep s check 0 0 = None \<longleftrightarrow> list_all ok (split_on sep s)"
  using each_component_iff [OF assms, of 0 0 s sep] by (simp add: slice_def)

lemma check_host_component_None: "check_host_component off c st = None \<longleftrightarrow> host_component c"
  using char_indices_all [of "\<lambda>b. is_ascii_alphanumeric b \<or> b = CHR ''-''" c, OF oci_ascii(5)]
  by (auto simp: check_host_component_def host_component_def split: option.splits)

lemma validate_host_None: "validate_host h off = None \<longleftrightarrow> host_grammar h"
proof (cases "h = []")
  case True
  then show ?thesis by (simp add: validate_host_def host_grammar_def host_component_def)
next
  case False
  then show ?thesis
    using each_component_all [of "check_host_component off" host_component, OF check_host_component_None]
    by (simp add: validate_host_def host_grammar_def)
qed

text \<open>The path component scan as an automaton over bytes.\<close>

fun path_scan_ok :: "bool \<Rightarrow> nat \<Rightarrow> string \<Rightarrow> bool" where
  "path_scan_ok d u [] = True"
| "path_scan_ok d u (b # bs) =
     (if is_ascii_lowercase b \<or> is_ascii_digit b then path_scan_ok False 0 bs
      else if b = CHR ''.'' then \<not> d \<and> path_scan_ok True 0 bs
      else if b = CHR ''_'' then u < 2 \<and> path_scan_ok False (Suc u) bs
      else b = CHR ''-'' \<and> path_scan_ok False 0 bs)"

lemma path_sep_not_alnum:
  "\<not> is_ascii_lowercase CHR ''.''" "\<not> is_ascii_digit CHR ''.''"
  "\<not> is_ascii_lowercase CHR ''_''" "\<not> is_ascii_digit CHR ''_''"
  "\<not> is_ascii_lowercase CHR ''-''" "\<not> is_ascii_digit CHR ''-''"
  by (simp_all add: ascii_defs byte_def)

lemma path_component_scan_bytes:
  "path_component_scan off d u (char_indices_from k s) = None \<longleftrightarrow> path_scan_ok d u s"
proof (induction k s arbitrary: d u rule: char_indices_from.induct)
  case (2 k b bs)
  show ?case
  proof (cases "byte b < 128")
    case True
    with 2 show ?thesis by (auto simp: path_sep_not_alnum)
  next
    case False
    then have "\<not> path_char b" using oci_ascii(6) by blast
    then show ?thesis by (auto simp: uchar_is_Cons path_char_def)
  qed
qed simp

lemma contains_dots:
  "contains_str (b # bs) ''..'' \<longleftrightarrow> (b = CHR ''.'' \<and> starts_with bs ''.'') \<or> contains_str bs ''..''"
  by (auto simp: starts_with_def)

lemma contains_underscores:
  "contains_str (b # bs) ''___'' \<longleftrightarrow> (b = CHR ''_'' \<and> starts_with bs ''__'') \<or> contains_str bs ''___''"
  by (auto simp: starts_with_def)

lemma starts_with_Cons [simp]:
  "starts_with s [] = True"
  "starts_with [] (c # p) = False"
  "starts_with (b # s) (c # p) \<longleftrightarrow> b = c \<and> starts_with s p"
  by (auto simp: starts_with_def)

lemma starts_contains: "starts_with s p \<Longrightarrow> contains_str s p"
  by (cases s) (auto simp: starts_with_def)

lemma path_scan_ok_iff:
  "u \<le> 2 \<Longrightarrow> path_scan_ok d u s \<longleftrightarrow>
     list_all path_char s \<and> \<not> contains_str s ''..'' \<and> \<not> contains_str s ''___'' \<and>
     (d \<longrightarrow> \<not> starts_with s ''.'') \<and> \<not> starts_with s (replicate (3 - u) CHR ''_'')"
proof (induction s arbitrary: d u)
  case Nil
  then show ?case by (cases "3 - u") auto
next
  case (Cons b s)
  obtain m where m: "3 - u = Suc m" using Cons.prems by (cases "3 - u") auto
  consider "is_ascii_lowercase b \<or> is_ascii_digit b" "b \<noteq> CHR ''.''" "b \<noteq> CHR ''_''"
    | "b = CHR ''.''" | "b = CHR ''_''" | "b = CHR ''-''" | "\<not> path_char b"
    using path_sep_not_alnum by (auto simp: path_char_def)
  then show ?case
  proof cases
    case 1
    then show ?thesis using Cons.IH [of 0 False] m starts_contains [of s]
      by (auto simp: path_sep_not_alnum path_char_def contains_dots contains_underscores numeral_3_eq_3 simp del: contains_str.simps)
  next
    case 2
    then show ?thesis using Cons.IH [of 0 True] m starts_contains [of s]
      by (auto simp: path_sep_not_alnum path_char_def contains_dots contains_underscores numeral_3_eq_3 simp del: contains_str.simps)
  next
    case 3
    have two: "starts_with s ''__'' \<Longrightarrow> starts_with s ''_''" by (cases s) auto
    consider "u = 0" | "u = 1" | "u = 2" using Cons.prems by linarith
    then show ?thesis
      using 3 Cons.IH [of "Suc u" False] two
      by cases (auto simp: path_sep_not_alnum path_char_def contains_dots contains_underscores
          numeral_2_eq_2 numeral_3_eq_3 simp del: contains_str.simps)
  next
    case 4
    then show ?thesis using Cons.IH [of 0 False] m starts_contains [of s]
      by (auto simp: path_sep_not_alnum path_char_def contains_dots contains_underscores numeral_3_eq_3 simp del: contains_str.simps)
  next
    case 5
    then show ?thesis by (auto simp: path_char_def)
  qed
qed

lemma validate_path_component_None: "validate_path_component c off = None \<longleftrightarrow> path_component c"
proof -
  have "path_component_scan off False 0 (char_indices c) = None \<longleftrightarrow>
      list_all path_char c \<and> \<not> contains_str c ''..'' \<and> \<not> contains_str c ''___''"
    using path_scan_ok_iff [of 0 False c] starts_contains [of c "''___''"]
    by (auto simp: char_indices_def path_component_scan_bytes numeral_3_eq_3)
  then show ?thesis by (auto simp: validate_path_component_def path_component_def)
qed

lemma validate_repository_None:
  "validate_repository r off = None \<longleftrightarrow> list_all path_component (split_on CHR ''/'' r)"
proof (cases "r = []")
  case True
  then show ?thesis by (simp add: validate_repository_def path_component_def)
next
  case False
  then show ?thesis
    using each_component_all [of "\<lambda>c st. validate_path_component c (off + st)" path_component,
        OF validate_path_component_None]
    by (simp add: validate_repository_def)
qed


section \<open>Alphabets\<close>

text \<open>Which separators cannot occur where; this is what makes the grammar unambiguous.\<close>

lemma not_ident_char:
  "\<not> is_ascii_alphanumeric CHR ''@''" "\<not> is_ascii_alphanumeric CHR '':''"
  "\<not> is_ascii_alphanumeric CHR ''/''" "\<not> is_ascii_alphanumeric NUL"
  "\<not> is_ascii_lowercase CHR ''@''" "\<not> is_ascii_lowercase CHR '':''"
  "\<not> is_ascii_lowercase CHR ''/''" "\<not> is_ascii_lowercase NUL"
  "\<not> is_ascii_digit CHR ''@''" "\<not> is_ascii_digit CHR '':''"
  "\<not> is_ascii_digit CHR ''/''" "\<not> is_ascii_digit NUL"
  "\<not> is_ascii_hexdigit NUL"
  by (simp_all add: ascii_defs byte_def)

lemma path_component_free:
  assumes "path_component c"
  shows "CHR ''@'' \<notin> set c" "CHR '':'' \<notin> set c" "CHR ''/'' \<notin> set c" "NUL \<notin> set c"
  using assms by (auto simp: path_component_def list_all_iff path_char_def not_ident_char)

lemma tag_free:
  assumes "tag_grammar t"
  shows "CHR ''@'' \<notin> set t" "CHR '':'' \<notin> set t" "CHR ''/'' \<notin> set t" "NUL \<notin> set t" "t \<noteq> []"
  using assms
  by (auto simp: tag_grammar_def tag_char_def lead_rest_def list_all_iff not_ident_char split: list.splits)

lemma host_free:
  assumes "host_grammar h"
  shows "CHR ''@'' \<notin> set h" "CHR '':'' \<notin> set h" "CHR ''/'' \<notin> set h" "NUL \<notin> set h"
proof -
  have h: "set h \<subseteq> \<Union> (set ` set (split_on CHR ''.'' h)) \<union> {CHR ''.''}"
    using set_join [of "''.''" "split_on CHR ''.'' h"] by simp
  have c: "\<forall>x \<in> set (split_on CHR ''.'' h). \<forall>b \<in> set x. is_ascii_alphanumeric b \<or> b = CHR ''-''"
    using assms by (simp add: host_grammar_def host_component_def list_all_iff)
  have free: "b \<notin> set h" if "\<not> is_ascii_alphanumeric b" "b \<noteq> CHR ''-''" "b \<noteq> CHR ''.''" for b
    using h c that by blast
  show "CHR ''@'' \<notin> set h" "CHR '':'' \<notin> set h" "CHR ''/'' \<notin> set h" "NUL \<notin> set h"
    by (rule free; simp add: not_ident_char)+
qed

lemma port_free:
  assumes "parse_uint w ps = Some n"
  shows "CHR ''@'' \<notin> set ps" "CHR '':'' \<notin> set ps" "CHR ''/'' \<notin> set ps" "NUL \<notin> set ps" "ps \<noteq> []"
proof -
  have "ps \<noteq> [] \<and> list_all (\<lambda>b. is_ascii_digit b \<or> b = CHR ''+'') ps"
  proof (cases ps)
    case Nil
    with assms show ?thesis by (simp add: parse_uint_def)
  next
    case (Cons b bs)
    with assms have "list_all is_ascii_digit (if b = CHR ''+'' \<and> bs \<noteq> [] then bs else b # bs)"
      unfolding parse_uint_def Let_def by (simp only: list.case split: if_splits) simp_all
    with Cons show ?thesis by (auto simp: list_all_iff split: if_splits)
  qed
  then show "CHR ''@'' \<notin> set ps" "CHR '':'' \<notin> set ps" "CHR ''/'' \<notin> set ps" "NUL \<notin> set ps" "ps \<noteq> []"
    by (auto simp: list_all_iff not_ident_char)
qed

lemma digest_free:
  assumes "digest_grammar (alg, hex)"
  shows "NUL \<notin> set alg" "NUL \<notin> set hex" "CHR '':'' \<notin> set alg"
  using assms by (auto simp: digest_grammar_def list_all_iff algorithm_char_def not_ident_char)

lemma path_join_free:
  assumes "list_all path_component cs"
  shows "CHR ''@'' \<notin> set (join ''/'' cs)" "CHR '':'' \<notin> set (join ''/'' cs)" "NUL \<notin> set (join ''/'' cs)"
proof -
  have j: "set (join ''/'' cs) \<subseteq> \<Union> (set ` set cs) \<union> {CHR ''/''}"
    using set_join [of "''/''" cs] by simp
  have c: "\<forall>x \<in> set cs. CHR ''@'' \<notin> set x \<and> CHR '':'' \<notin> set x \<and> NUL \<notin> set x"
    using assms path_component_free by (simp add: list_all_iff)
  show "CHR ''@'' \<notin> set (join ''/'' cs)" using j c by blast
  show "CHR '':'' \<notin> set (join ''/'' cs)" using j c by blast
  show "NUL \<notin> set (join ''/'' cs)" using j c by blast
qed

lemma split_path_join:
  assumes "cs \<noteq> []" and "list_all path_component cs"
  shows "split_on CHR ''/'' (join ''/'' cs) = cs"
  using split_on_join [OF assms(1), of "CHR ''/''"] assms(2) path_component_free(3)
  by (auto simp: list_all_iff)


section \<open>The validator accepts exactly the grammar\<close>

lemma split_tag_cases:
  assumes "split_tag nt = Inr (name, tg)"
  obtains (none) "tg = None" "name = nt"
    | (tag) t where "tg = Some t" "nt = name @ CHR '':'' # t" "tag_grammar t"
proof (cases "rfind_byte CHR '':'' nt")
  case None
  with assms none show ?thesis by (simp add: split_tag_def)
next
  case (Some i)
  note nt = rfind_byte_split [OF Some]
  have "(tg = None \<and> name = nt) \<or>
        (tg = Some (drop (Suc i) nt) \<and> name = take i nt \<and> tag_grammar (drop (Suc i) nt))"
    using assms Some unfolding split_tag_def Let_def
    by (simp add: validate_tag_None split: if_splits option.splits)
  with nt none tag show ?thesis by metis
qed

lemma split_tag_with_tag:
  assumes "tag_grammar t" and "name \<noteq> []"
  shows "split_tag (name @ CHR '':'' # t) = Inr (name, Some t)"
  using assms tag_free [OF assms(1)] validate_tag_None [of t]
  by (simp add: split_tag_def rfind_byte_append Let_def)

lemma split_tag_no_colon: "CHR '':'' \<notin> set nt \<Longrightarrow> split_tag nt = Inr (nt, None)"
  using rfind_byte_None [of "CHR '':''" nt] by (simp add: split_tag_def)

lemma split_tag_port:
  "CHR '':'' \<notin> set b \<Longrightarrow> CHR ''/'' \<in> set b \<Longrightarrow> split_tag (a @ CHR '':'' # b) = Inr (a @ CHR '':'' # b, None)"
  by (simp add: split_tag_def rfind_byte_append Let_def)

lemma parse_host_ok:
  assumes "parse_host head off = Inr r"
  obtains h port where "head = show_domain (h, port)" "host_grammar h"
    "case port of None \<Rightarrow> True | Some ps \<Rightarrow> parse_uint 16 ps \<noteq> None"
proof (cases "rfind_byte CHR '':'' head")
  case None
  with assms that [of head None] show ?thesis
    by (auto simp: parse_host_def validate_host_None split: option.splits)
next
  case (Some i)
  have "parse_uint 16 (drop (Suc i) head) \<noteq> None \<and> host_grammar (take i head)"
    using assms Some
    by (auto simp: parse_host_def validate_host_None Let_def split: option.splits if_splits)
  with that [of "take i head" "Some (drop (Suc i) head)"] rfind_byte_split(1) [OF Some]
  show ?thesis by simp
qed

lemma parse_host_complete:
  assumes "host_grammar h" and "case port of None \<Rightarrow> True | Some ps \<Rightarrow> parse_uint 16 ps \<noteq> None"
  shows "\<exists>r. parse_host (show_domain (h, port)) off = Inr r"
proof (cases port)
  case None
  moreover have "rfind_byte CHR '':'' h = None" using host_free(2) [OF assms(1)] by (simp add: rfind_byte_None)
  ultimately show ?thesis
    using assms validate_host_None [of h off] by (simp add: parse_host_def)
next
  case (Some ps)
  with assms(2) obtain n where n: "parse_uint 16 ps = Some n" by auto
  show ?thesis
    using Some n port_free [OF n] assms validate_host_None [of h off]
    by (simp add: parse_host_def rfind_byte_append Let_def)
qed

lemma split_host_sound:
  assumes "split_host name off = Inr r"
  shows "\<exists>d cs. name = show_name \<lparr>op_domain = d, op_path = cs, op_tag = tg, op_digest = dg\<rparr> \<and>
                 name_ok \<lparr>op_domain = d, op_path = cs, op_tag = tg, op_digest = dg\<rparr>"
proof (cases "find_byte CHR ''/'' name")
  case None
  with assms have "path_component name"
    by (auto simp: split_host_def validate_path_component_None split: if_splits option.splits)
  then show ?thesis
    by (intro exI [of _ None] exI [of _ "[name]"]) (simp add: show_name_def name_ok_def)
next
  case (Some slash)
  let ?head = "take slash name" and ?tail = "drop (Suc slash) name"
  note nm = find_byte_split [OF Some]
  show ?thesis
  proof (cases "looks_like_host ?head")
    case True
    with assms Some obtain r' where ph: "parse_host ?head off = Inr r'"
      and repo: "list_all path_component (split_on CHR ''/'' ?tail)"
      by (auto simp: split_host_def looks_like_host_def validate_repository_None Let_def
          split: if_splits sum.splits option.splits)
    from ph obtain h port where hd: "?head = show_domain (h, port)" and "host_grammar h"
      and "case port of None \<Rightarrow> True | Some ps \<Rightarrow> parse_uint 16 ps \<noteq> None"
      by (rule parse_host_ok)
    with nm True repo show ?thesis
      by (intro exI [of _ "Some (h, port)"] exI [of _ "split_on CHR ''/'' ?tail"])
         (simp add: show_name_def name_ok_def)
  next
    case False
    with assms Some have repo: "list_all path_component (split_on CHR ''/'' name)"
      by (auto simp: split_host_def looks_like_host_def validate_repository_None Let_def
          split: if_splits option.splits)
    have "hd (split_on CHR ''/'' name) = ?head"
      using nm by (metis list.sel(1) split_on_append)
    with False repo show ?thesis
      by (intro exI [of _ None] exI [of _ "split_on CHR ''/'' name"])
         (simp add: show_name_def name_ok_def)
  qed
qed

lemma split_host_complete:
  assumes "name_ok p"
  shows "\<exists>r. split_host (show_name p) off = Inr r"
proof -
  let ?cs = "op_path p"
  have cs: "?cs \<noteq> []" "list_all path_component ?cs" using assms by (simp_all add: name_ok_def)
  then have repo: "validate_repository (join ''/'' ?cs) off' = None" for off'
    by (simp add: validate_repository_None split_path_join)
  show ?thesis
  proof (cases "op_domain p")
    case (Some d)
    obtain h port where d: "d = (h, port)" by (cases d)
    with assms Some have h: "host_grammar h"
      and port: "case port of None \<Rightarrow> True | Some ps \<Rightarrow> parse_uint 16 ps \<noteq> None"
      and look: "looks_like_host (show_domain (h, port))"
      by (auto simp: name_ok_def)
    have "CHR ''/'' \<notin> set (show_domain (h, port))"
      using host_free(3) [OF h] port port_free(3) by (cases port) auto
    then have "find_byte CHR ''/'' (show_name p) = Some (length (show_domain (h, port)))"
      using Some d by (simp add: show_name_def find_byte_append)
    then show ?thesis
      using Some d look repo parse_host_complete [OF h port, of off]
      by (auto simp: split_host_def show_name_def looks_like_host_def Let_def)
  next
    case None
    obtain c cs' where ccs: "?cs = c # cs'" using cs by (cases ?cs) auto
    show ?thesis
    proof (cases cs')
      case Nil
      with None ccs cs show ?thesis
        using find_byte_None [of "CHR ''/''" c] path_component_free(3) [of c] validate_path_component_None [of c off]
        by (auto simp: split_host_def show_name_def path_component_def)
    next
      case (Cons c' cs'')
      then have nm: "show_name p = c @ CHR ''/'' # join ''/'' cs'"
        using None ccs by (simp add: show_name_def)
      moreover have "find_byte CHR ''/'' (show_name p) = Some (length c)"
        using nm cs ccs path_component_free(3) [of c] by (simp add: find_byte_append)
      moreover have "\<not> looks_like_host c" using assms None ccs Cons by (simp add: name_ok_def)
      moreover have "validate_repository (show_name p) off = None"
        using repo None by (simp add: show_name_def)
      ultimately show ?thesis
        by (auto simp: split_host_def looks_like_host_def Let_def)
    qed
  qed
qed

lemma name_and_tag_sound:
  assumes "split_tag nt = Inr (name, tg)" and "split_host name off = Inr r"
  shows "\<exists>d cs. nt = show_ref \<lparr>op_domain = d, op_path = cs, op_tag = tg, op_digest = None\<rparr> \<and>
           (\<forall>dg. name_ok \<lparr>op_domain = d, op_path = cs, op_tag = tg, op_digest = dg\<rparr>) \<and>
           (case tg of None \<Rightarrow> True | Some t \<Rightarrow> tag_grammar t)"
proof -
  obtain d cs where n: "name = show_name \<lparr>op_domain = d, op_path = cs, op_tag = tg, op_digest = None\<rparr>"
    and ok: "name_ok \<lparr>op_domain = d, op_path = cs, op_tag = tg, op_digest = None\<rparr>"
    using split_host_sound [OF assms(2)] by blast
  have ok': "name_ok \<lparr>op_domain = d, op_path = cs, op_tag = tg, op_digest = dg\<rparr>" for dg
    using ok by (cases d) (simp_all add: name_ok_def)
  from assms(1) show ?thesis
  proof (cases rule: split_tag_cases)
    case none
    with n ok' show ?thesis
      by (intro exI [of _ d] exI [of _ cs]) (simp add: show_ref_def)
  next
    case (tag t)
    with n ok' show ?thesis
      by (intro exI [of _ d] exI [of _ cs]) (simp add: show_ref_def)
  qed
qed

lemma OciReference_sound:
  assumes "OciReference_new s = Inr r"
  shows "oci_grammar s"
proof -
  have nn: "find_byte NUL s = None"
    using assms by (auto simp: OciReference_new_def split: if_splits option.splits)
  show ?thesis
  proof (cases "find_byte CHR ''@'' s")
    case None
    with assms nn obtain name tg r' where "split_tag s = Inr (name, tg)" "split_host name 0 = Inr r'"
      by (auto simp: OciReference_new_def split: if_splits sum.splits prod.splits)
    from name_and_tag_sound [OF this] show ?thesis
      unfolding oci_grammar_def parts_ok_def by (metis oci_parts.select_convs(3,4) option.simps(4))
  next
    case (Some i)
    let ?nt = "take i s" and ?dg = "drop (Suc i) s"
    note at = find_byte_split [OF Some]
    from assms nn Some obtain name tg r' where st: "split_tag ?nt = Inr (name, tg)"
      and sh: "split_host name 0 = Inr r'" and pd: "parse_digest ?dg (Suc i) = None"
      by (auto simp: OciReference_new_def split: if_splits sum.splits prod.splits option.splits)
    obtain alg hex where dg: "?dg = alg @ CHR '':'' # hex" "digest_grammar (alg, hex)"
      using pd parse_digest_None by blast
    obtain d cs where nt: "?nt = show_ref \<lparr>op_domain = d, op_path = cs, op_tag = tg, op_digest = None\<rparr>"
      and ok: "name_ok \<lparr>op_domain = d, op_path = cs, op_tag = tg, op_digest = Some (alg, hex)\<rparr>"
      and tg: "case tg of None \<Rightarrow> True | Some t \<Rightarrow> tag_grammar t"
      using name_and_tag_sound [OF st sh] by blast
    have "s = show_ref \<lparr>op_domain = d, op_path = cs, op_tag = tg, op_digest = Some (alg, hex)\<rparr>"
      using at(1) nt dg(1) by (simp add: show_ref_def show_name_def)
    with ok tg dg(2) show ?thesis
      unfolding oci_grammar_def parts_ok_def
      by (intro exI [of _ "\<lparr>op_domain = d, op_path = cs, op_tag = tg, op_digest = Some (alg, hex)\<rparr>"]) simp
  qed
qed

lemma show_name_free:
  assumes "name_ok p"
  shows "CHR ''@'' \<notin> set (show_name p)" "NUL \<notin> set (show_name p)" "show_name p \<noteq> []"
proof -
  have cs: "op_path p \<noteq> []" "list_all path_component (op_path p)"
    using assms by (simp_all add: name_ok_def)
  then have ne: "join ''/'' (op_path p) \<noteq> []"
    by (cases "op_path p"; cases "tl (op_path p)") (auto simp: path_component_def)
  have dom: "op_domain p = Some d \<Longrightarrow> CHR ''@'' \<notin> set (show_domain d) \<and> NUL \<notin> set (show_domain d)" for d
    using assms host_free(1,4) port_free(1,4)
    by (cases d rule: show_domain.cases) (auto simp: name_ok_def)
  show "CHR ''@'' \<notin> set (show_name p)" "NUL \<notin> set (show_name p)" "show_name p \<noteq> []"
    using dom ne path_join_free [OF cs(2)] by (auto simp: show_name_def split: option.splits)
qed

lemma split_tag_show:
  assumes "name_ok p" and "case op_tag p of None \<Rightarrow> True | Some t \<Rightarrow> tag_grammar t"
  shows "split_tag (show_name p @ (case op_tag p of None \<Rightarrow> [] | Some t \<Rightarrow> '':'' @ t)) =
         Inr (show_name p, op_tag p)"
proof (cases "op_tag p")
  case (Some t)
  with assms show_name_free(3) [OF assms(1)] show ?thesis by (simp add: split_tag_with_tag)
next
  case None
  let ?j = "join ''/'' (op_path p)"
  have j: "CHR '':'' \<notin> set ?j"
    using assms(1) by (intro path_join_free(2)) (simp add: name_ok_def)
  show ?thesis
  proof (cases "\<exists>h ps. op_domain p = Some (h, Some ps)")
    case True
    then obtain h ps where d: "op_domain p = Some (h, Some ps)" by blast
    then have "CHR '':'' \<notin> set ps" using assms(1) port_free(2) by (auto simp: name_ok_def)
    then show ?thesis
      using None d j split_tag_port [of "ps @ ''/'' @ ?j" h] by (simp add: show_name_def)
  next
    case False
    then have "CHR '':'' \<notin> set (show_name p)"
      using j assms(1) host_free(2)
      by (auto simp: show_name_def name_ok_def split: option.splits)
    then show ?thesis using None by (simp add: split_tag_no_colon)
  qed
qed

lemma OciReference_complete:
  assumes "parts_ok p"
  shows "OciReference_new (show_ref p) = Inr (OciReference (show_ref p))"
proof -
  let ?nt = "show_name p @ (case op_tag p of None \<Rightarrow> [] | Some t \<Rightarrow> '':'' @ t)"
  have nm: "name_ok p" and tg: "case op_tag p of None \<Rightarrow> True | Some t \<Rightarrow> tag_grammar t"
    and dg: "case op_digest p of None \<Rightarrow> True | Some d \<Rightarrow> digest_grammar d"
    using assms by (auto simp: parts_ok_def)
  note free = show_name_free [OF nm]
  have nt: "CHR ''@'' \<notin> set ?nt" "NUL \<notin> set ?nt"
    using free tg tag_free by (auto split: option.splits)
  have st: "split_tag ?nt = Inr (show_name p, op_tag p)" by (rule split_tag_show [OF nm tg])
  obtain r where sh: "split_host (show_name p) 0 = Inr r" using split_host_complete [OF nm] by blast
  show ?thesis
  proof (cases "op_digest p")
    case None
    then have s: "show_ref p = ?nt" by (simp add: show_ref_def)
    moreover have "find_byte NUL ?nt = None" "find_byte CHR ''@'' ?nt = None"
      using nt by (simp_all add: find_byte_None)
    ultimately show ?thesis using free(3) st sh by (simp add: OciReference_new_def)
  next
    case (Some d)
    obtain alg hex where d: "d = (alg, hex)" by (cases d)
    have g: "digest_grammar (alg, hex)" using dg Some d by simp
    let ?dg = "alg @ CHR '':'' # hex"
    have s: "show_ref p = ?nt @ CHR ''@'' # ?dg" using Some d by (simp add: show_ref_def)
    have "NUL \<notin> set (show_ref p)" using s nt digest_free [OF g] by simp
    then have "find_byte NUL (show_ref p) = None" by (simp add: find_byte_None)
    moreover have "find_byte CHR ''@'' (show_ref p) = Some (length ?nt)"
      unfolding s by (rule find_byte_append [OF nt(1)])
    moreover have "parse_digest ?dg (Suc (length ?nt)) = None"
      unfolding parse_digest_None using g by blast
    ultimately show ?thesis using st sh free(3) s by (simp add: OciReference_new_def)
  qed
qed

lemma OciReference_accepts: "(\<exists>r. OciReference_new s = Inr r) \<longleftrightarrow> oci_grammar s"
  using OciReference_sound OciReference_complete by (auto simp: oci_grammar_def)


section \<open>Error offsets\<close>

definition offset_upto :: "OciReferenceError \<Rightarrow> nat \<Rightarrow> bool" where
  "offset_upto e n = (case OciReferenceError_offset e of None \<Rightarrow> True | Some i \<Rightarrow> i \<le> n)"

lemma offset_upto_mono: "offset_upto e n \<Longrightarrow> n \<le> m \<Longrightarrow> offset_upto e m"
  by (auto simp: offset_upto_def split: option.splits)

lemma parse_digest_offset: "parse_digest d off = Some e \<Longrightarrow> offset_upto e (off + length d)"
  by (auto simp: parse_digest_def offset_upto_def Let_def split: option.splits if_splits
      dest!: char_indices_find_bound find_byte_Some_bound)

lemma tail_find_bound: "find P rest = Some (i, ch) \<Longrightarrow> char_indices s = x # rest \<Longrightarrow> i < length s"
  by (metis char_indices_mem_bound find_Some_mem list.set_intros(2))

lemma validate_tag_offset:
  assumes "validate_tag t off = Some e"
  shows "offset_upto e (off + length t)"
proof (cases "char_indices t")
  case Nil
  with assms show ?thesis by (auto simp: validate_tag_def offset_upto_def split: if_splits)
next
  case (Cons x rest)
  then have "find P rest = Some (i, ch) \<Longrightarrow> i \<le> length t" for P i ch
    using tail_find_bound less_imp_le by blast
  with assms Cons show ?thesis
    by (cases x) (auto simp: validate_tag_def offset_upto_def split: option.splits if_splits)
qed

lemma each_component_offset:
  assumes "\<And>c st e. check c st = Some e \<Longrightarrow> offset_upto e (off + st + length c)"
  shows "st \<le> i \<Longrightarrow> each_component sep s check st i = Some e \<Longrightarrow> offset_upto e (off + length s)"
proof (induction "Suc (length s) - i" arbitrary: st i)
  case 0
  then show ?case by (simp add: each_component.simps)
next
  case (Suc n)
  then have i: "i \<le> length s" by simp
  have "off + st + length (slice s st i) \<le> off + length s" using Suc.prems(1) i by simp
  then have ck: "check (slice s st i) st = Some e' \<Longrightarrow> offset_upto e' (off + length s)" for e'
    using assms offset_upto_mono by blast
  show ?case
    using Suc.prems i ck Suc.hyps(1) [of "Suc i" "Suc i"] Suc.hyps(1) [of "Suc i" st] Suc.hyps(2)
    by (subst (asm) each_component.simps) (auto split: if_splits option.splits)
qed

lemma check_host_component_offset:
  "check_host_component off c st = Some e \<Longrightarrow> offset_upto e (off + st + length c)"
  by (auto simp: check_host_component_def offset_upto_def split: option.splits if_splits
      dest!: char_indices_find_bound)

lemma validate_host_offset: "validate_host h off = Some e \<Longrightarrow> offset_upto e (off + length h)"
  using each_component_offset [of "check_host_component off" off 0 0, OF check_host_component_offset]
  by (auto simp: validate_host_def split: if_splits) (simp add: offset_upto_def)

lemma path_component_scan_offset:
  "path_component_scan off d u xs = Some e \<Longrightarrow> \<forall>x \<in> set xs. fst x \<le> n \<Longrightarrow> offset_upto e (off + n)"
  by (induction off d u xs rule: path_component_scan.induct)
     (auto simp: offset_upto_def split: if_splits)

lemma validate_path_component_offset:
  "validate_path_component c off = Some e \<Longrightarrow> offset_upto e (off + length c)"
  using path_component_scan_offset [of off False 0 "char_indices c" e "length c"]
    char_indices_mem_bound [of _ _ c]
  by (force simp: validate_path_component_def offset_upto_def split: if_splits)

lemma validate_repository_offset: "validate_repository r off = Some e \<Longrightarrow> offset_upto e (off + length r)"
  using each_component_offset [of "\<lambda>c st. validate_path_component c (off + st)" off 0 0]
    validate_path_component_offset
  by (auto simp: validate_repository_def offset_upto_def split: if_splits)

lemma parse_host_offset: "parse_host h off = Inl e \<Longrightarrow> offset_upto e (off + length h)"
  using rfind_byte_Some(1) [of "CHR '':''" h]
  by (auto simp: parse_host_def Let_def split: option.splits if_splits
      dest!: validate_host_offset elim: offset_upto_mono)
     (auto simp: offset_upto_def)

lemma split_host_offset:
  assumes "split_host n off = Inl e"
  shows "offset_upto e (off + length n)"
proof (cases "find_byte CHR ''/'' n")
  case None
  with assms show ?thesis
    by (auto simp: split_host_def split: option.splits if_splits dest!: validate_path_component_offset)
       (simp_all add: offset_upto_def)
next
  case (Some slash)
  let ?host = "take slash n = ''localhost'' \<or> CHR ''.'' \<in> set (take slash n) \<or> CHR '':'' \<in> set (take slash n)"
  have sl: "slash < length n" by (rule find_byte_Some_bound [OF Some])
  have ph: "offset_upto e' (off + length n)" if "parse_host (take slash n) off = Inl e'" for e'
    using parse_host_offset [OF that] by (rule offset_upto_mono) simp
  have rt: "offset_upto e' (off + length n)"
    if "validate_repository (drop (Suc slash) n) (Suc (off + slash)) = Some e'" for e'
    using validate_repository_offset [OF that] by (rule offset_upto_mono) (use sl in simp)
  have ne: "n \<noteq> []" using sl by auto
  show ?thesis
  proof (cases ?host)
    case True
    with assms Some ne ph rt show ?thesis
      by (simp add: split_host_def Let_def split: sum.splits option.splits prod.splits)
  next
    case False
    with assms Some ne validate_repository_offset [of n off] show ?thesis
      by (simp add: split_host_def Let_def split: option.splits)
  qed
qed

lemma split_tag_offset: "split_tag n = Inl e \<Longrightarrow> offset_upto e (length n)"
  using rfind_byte_Some(1) [of "CHR '':''" n]
  by (auto simp: split_tag_def Let_def split: option.splits if_splits
      dest!: validate_tag_offset elim: offset_upto_mono)
     (auto simp: offset_upto_def)

lemma split_tag_length: "split_tag n = Inr (name, t) \<Longrightarrow> length name \<le> length n"
  by (elim split_tag_cases) auto

lemma OciReference_offset: "OciReference_new s = Inl e \<Longrightarrow> offset_upto e (length s)"
  by (auto simp: OciReference_new_def split: option.splits if_splits sum.splits
      dest!: parse_digest_offset split_tag_offset split_host_offset split_tag_length
        find_byte_Some_bound elim: offset_upto_mono)
     (auto simp: offset_upto_def split: option.splits)

interpretation oci_reference: validated_newtype OciReference_new oci_ref_str OciReferenceError_offset
  oci_grammar
proof
  fix s e i
  show "(\<exists>x. OciReference_new s = Inr x) \<longleftrightarrow> oci_grammar s" by (rule OciReference_accepts)
  show "i \<le> length s" if "OciReference_new s = Inl e" "OciReferenceError_offset e = Some i"
    using OciReference_offset [OF that(1)] that(2) by (simp add: offset_upto_def)
qed (auto simp: OciReference_new_def split: if_splits option.splits sum.splits)

section \<open>Properties\<close>


text \<open>
  every error of the reference parser points inside the reference, whichever part was wrong and
  however the parts were peeled off before it.
\<close>

theorem OciReference_error_offset:
  "case OciReference_new s of Inr _ \<Rightarrow> True
   | Inl e \<Rightarrow> (case OciReferenceError_offset e of None \<Rightarrow> True | Some i \<Rightarrow> i \<le> length s)"
  using OciReference_offset [of s] by (auto simp: offset_upto_def split: sum.split)

end
