(* ===== verification/Ast.thy ===== *)
theory Ast
  imports Identifier_Laws Paths_Urls Oci_Grammar
begin

text \<open>
  The syntax tree of a UMF recipe, \<open>crates/umf-core/src/ast/\<close>: source spans, the directive
  nodes, stages and the whole file.  \<open>ast_ok\<close> says that every validated newtype in a tree holds
  a string of its grammar.
\<close>

section \<open>Spans (\<open>ast/span.rs\<close>)\<close>

record Span =
  sp_start :: nat
  sp_end :: nat

definition Span_new :: "nat \<Rightarrow> nat \<Rightarrow> Span" where
  "Span_new s e = \<lparr> sp_start = s, sp_end = e \<rparr>"

definition Span_len :: "Span \<Rightarrow> nat" where
  "Span_len s = sp_end s - sp_start s"

definition Span_is_empty :: "Span \<Rightarrow> bool" where
  "Span_is_empty s \<longleftrightarrow> sp_end s = sp_start s"

record 'a Spanned =
  sd_value :: 'a
  sd_span :: Span

definition Spanned_new :: "'a \<Rightarrow> Span \<Rightarrow> 'a Spanned" where
  "Spanned_new v s = \<lparr> sd_value = v, sd_span = s \<rparr>"


section \<open>Directives (\<open>ast/directive.rs\<close>)\<close>

record Label =
  lb_key :: "LabelKey Spanned"
  lb_value :: "LabelValue Spanned"
  lb_span :: Span

record Env =
  ev_key :: "EnvVarName Spanned"
  ev_value :: "EnvVarValue Spanned"
  ev_span :: Span

record Arg =
  ag_name :: "EnvVarName Spanned"
  ag_default :: "EnvVarValue Spanned option"
  ag_span :: Span

record Shell =
  sh_argv :: "string Spanned list"
  sh_span :: Span

record User =
  us_name :: "Username Spanned"
  us_span :: Span

record Workdir =
  wd_path :: "RecipePath Spanned"
  wd_span :: Span

datatype RunCommand = RunShell "string Spanned" | RunExec "string Spanned list"

datatype RunMountKind = MountSecret (mnt_id: "SecretId Spanned") (mnt_target: "RecipePath Spanned option")

record RunMount =
  rm_kind :: RunMountKind
  rm_span :: Span

record Run =
  rn_command :: RunCommand
  rn_mounts :: "RunMount list"
  rn_span :: Span

datatype AddSource =
    AddUrl "HttpsUrl Spanned"
  | AddPath "string Spanned"
  | AddOci "OciReference Spanned"

fun AddSource_span :: "AddSource \<Rightarrow> Span" where
  "AddSource_span (AddUrl s) = sd_span s"
| "AddSource_span (AddPath s) = sd_span s"
| "AddSource_span (AddOci s) = sd_span s"

fun AddSource_as_str :: "AddSource \<Rightarrow> string" where
  "AddSource_as_str (AddUrl s) = url_raw (sd_value s)"
| "AddSource_as_str (AddPath s) = sd_value s"
| "AddSource_as_str (AddOci s) = oci_ref_str (sd_value s)"

record Add =
  ad_source :: AddSource
  ad_destination :: "RecipePath Spanned"
  ad_from :: "StageName Spanned option"
  ad_plain_copy :: bool
  ad_span :: Span

datatype EntrypointInit =
    InitSystemd
  | InitOpenRc
  | InitPath "string Spanned"
  | InitExec "string Spanned list"
  | InitNone

definition is_init_system :: "EntrypointInit \<Rightarrow> bool" where
  "is_init_system i = (case i of InitSystemd \<Rightarrow> True | InitOpenRc \<Rightarrow> True | _ \<Rightarrow> False)"

definition is_binary :: "EntrypointInit \<Rightarrow> bool" where
  "is_binary i = (case i of InitPath _ \<Rightarrow> True | InitExec _ \<Rightarrow> True | _ \<Rightarrow> False)"

record Entrypoint =
  ep_init :: EntrypointInit
  ep_span :: Span

datatype ExposeProtocol = Tcp | Udp

record Expose =
  ex_port :: u16
  ex_protocol :: ExposeProtocol
  ex_span :: Span

datatype CmdForm = CmdShell "string Spanned" | CmdExec "string Spanned list"

record Cmd =
  cm_command :: CmdForm
  cm_span :: Span

record Volume =
  vo_paths :: "string Spanned list"
  vo_span :: Span

record Stopsignal =
  ss_signal :: "string Spanned"
  ss_span :: Span

datatype Directive =
    DirLabel Label
  | DirEnv Env
  | DirArg Arg
  | DirShell Shell
  | DirUser User
  | DirWorkdir Workdir
  | DirRun Run
  | DirAdd Add
  | DirEntrypoint Entrypoint
  | DirExpose Expose
  | DirCmd Cmd
  | DirVolume Volume
  | DirStopsignal Stopsignal

fun Directive_span :: "Directive \<Rightarrow> Span" where
  "Directive_span (DirLabel d) = lb_span d"
| "Directive_span (DirEnv d) = ev_span d"
| "Directive_span (DirArg d) = ag_span d"
| "Directive_span (DirShell d) = sh_span d"
| "Directive_span (DirUser d) = us_span d"
| "Directive_span (DirWorkdir d) = wd_span d"
| "Directive_span (DirRun d) = rn_span d"
| "Directive_span (DirAdd d) = ad_span d"
| "Directive_span (DirEntrypoint d) = ep_span d"
| "Directive_span (DirExpose d) = ex_span d"
| "Directive_span (DirCmd d) = cm_span d"
| "Directive_span (DirVolume d) = vo_span d"
| "Directive_span (DirStopsignal d) = ss_span d"


section \<open>The tree (\<open>ast/tree.rs\<close>)\<close>

datatype FromSource = Scratch | Reference "OciReference Spanned"

record FromArg =
  fr_source :: FromSource
  fr_span :: Span

record Stage =
  st_from :: FromArg
  st_name :: "StageName Spanned option"
  st_directives :: "Directive list"
  st_span :: Span

record Ast =
  ast_global_args :: "Arg list"
  ast_stages :: "Stage list"


section \<open>Well-formed trees\<close>

text \<open>
  A reference that still carries a placeholder is only checked for emptiness and NUL; the builder
  checks the grammar after substitution.
\<close>

definition deferred_oci :: "string \<Rightarrow> bool" where
  "deferred_oci s \<longleftrightarrow>
     (if contains_placeholder s then s \<noteq> [] \<and> NUL \<notin> set s else oci_grammar s)"

definition arg_ok :: "Arg \<Rightarrow> bool" where
  "arg_ok a \<longleftrightarrow>
     env_name_grammar (env_name_str (sd_value (ag_name a))) \<and>
     (case ag_default a of None \<Rightarrow> True | Some v \<Rightarrow> no_nul (env_value_str (sd_value v)))"

fun mount_kind_ok :: "RunMountKind \<Rightarrow> bool" where
  "mount_kind_ok (MountSecret i t) \<longleftrightarrow>
     bare_identifier_grammar (secret_id_str (sd_value i)) \<and>
     (case t of None \<Rightarrow> True | Some p \<Rightarrow> recipe_path_grammar (recipe_path_str (sd_value p)))"

fun add_source_ok :: "AddSource \<Rightarrow> bool" where
  "add_source_ok (AddUrl u) = https_url_grammar (url_raw (sd_value u))"
| "add_source_ok (AddPath s) = True"
| "add_source_ok (AddOci r) = deferred_oci (oci_ref_str (sd_value r))"

fun directive_ok :: "Directive \<Rightarrow> bool" where
  "directive_ok (DirLabel d) \<longleftrightarrow>
     label_key_grammar (label_key_str (sd_value (lb_key d))) \<and>
     no_nul (label_value_str (sd_value (lb_value d)))"
| "directive_ok (DirEnv d) \<longleftrightarrow>
     env_name_grammar (env_name_str (sd_value (ev_key d))) \<and>
     no_nul (env_value_str (sd_value (ev_value d)))"
| "directive_ok (DirArg d) \<longleftrightarrow> arg_ok d"
| "directive_ok (DirUser d) \<longleftrightarrow> username_grammar (username_str (sd_value (us_name d)))"
| "directive_ok (DirWorkdir d) \<longleftrightarrow> recipe_path_grammar (recipe_path_str (sd_value (wd_path d)))"
| "directive_ok (DirRun d) \<longleftrightarrow> list_all (\<lambda>m. mount_kind_ok (rm_kind m)) (rn_mounts d)"
| "directive_ok (DirAdd d) \<longleftrightarrow>
     add_source_ok (ad_source d) \<and>
     recipe_path_grammar (recipe_path_str (sd_value (ad_destination d))) \<and>
     (case ad_from d of None \<Rightarrow> True | Some n \<Rightarrow> bare_identifier_grammar (stage_name_str (sd_value n)))"
| "directive_ok _ \<longleftrightarrow> True"

fun from_source_ok :: "FromSource \<Rightarrow> bool" where
  "from_source_ok Scratch = True"
| "from_source_ok (Reference r) = deferred_oci (oci_ref_str (sd_value r))"

definition stage_ok :: "Stage \<Rightarrow> bool" where
  "stage_ok s \<longleftrightarrow>
     from_source_ok (fr_source (st_from s)) \<and>
     (case st_name s of None \<Rightarrow> True | Some n \<Rightarrow> bare_identifier_grammar (stage_name_str (sd_value n))) \<and>
     list_all directive_ok (st_directives s)"

definition ast_ok :: "Ast \<Rightarrow> bool" where
  "ast_ok a \<longleftrightarrow> list_all arg_ok (ast_global_args a) \<and> list_all stage_ok (ast_stages a)"

lemma deferred_oci_new:
  "OciReference_new_allowing_placeholders s = Inr r \<Longrightarrow> deferred_oci (oci_ref_str r)"
  using oci_reference.ok_grammar [of s r] oci_reference.keeps [of s r] find_byte_None [of NUL s]
  by (auto simp: OciReference_new_allowing_placeholders_def deferred_oci_def
      split: if_splits option.splits)

end
