(* ===== verification/Diagnostics.thy ===== *)
theory Diagnostics
  imports Ast
begin

text \<open>
  Diagnostics, \<open>crates/umf-parser/src/diagnostics.rs\<close>: the diagnostic value and its builders, the
  mapping of a newtype error to a sub-span of the token, and the capped sink.  Rendering through
  the \<open>ariadne\<close> crate is not modelled; \<open>rendered\<close> is the part of \<open>report_all\<close> that chooses what is
  rendered.
\<close>

datatype Severity = SevError | SevWarning | SevAdvice

record Annotation =
  an_span :: Span
  an_message :: string

definition Annotation_new :: "Span \<Rightarrow> string \<Rightarrow> Annotation" where
  "Annotation_new s m = \<lparr> an_span = s, an_message = m \<rparr>"

record Diagnostic =
  dg_severity :: Severity
  dg_message :: string
  dg_primary :: Annotation
  dg_notes :: "Annotation list"
  dg_hint :: "string option"

definition Diagnostic_new :: "Severity \<Rightarrow> string \<Rightarrow> Annotation \<Rightarrow> Diagnostic" where
  "Diagnostic_new sev message primary =
     \<lparr> dg_severity = sev, dg_message = message, dg_primary = primary, dg_notes = [], dg_hint = None \<rparr>"

definition Diagnostic_error :: "string \<Rightarrow> Annotation \<Rightarrow> Diagnostic" where
  "Diagnostic_error = Diagnostic_new SevError"

definition Diagnostic_warning :: "string \<Rightarrow> Annotation \<Rightarrow> Diagnostic" where
  "Diagnostic_warning = Diagnostic_new SevWarning"

definition Diagnostic_advice :: "string \<Rightarrow> Annotation \<Rightarrow> Diagnostic" where
  "Diagnostic_advice = Diagnostic_new SevAdvice"

definition with_note :: "Annotation \<Rightarrow> Diagnostic \<Rightarrow> Diagnostic" where
  "with_note note d = d \<lparr> dg_notes := dg_notes d @ [note] \<rparr>"

definition with_hint :: "string \<Rightarrow> Diagnostic \<Rightarrow> Diagnostic" where
  "with_hint hint d = d \<lparr> dg_hint := Some hint \<rparr>"

text \<open>The loop \<open>while !raw.is_char_boundary(start) { start -= 1 }\<close>.\<close>

fun snap_down :: "string \<Rightarrow> nat \<Rightarrow> nat" where
  "snap_down raw 0 = 0"
| "snap_down raw (Suc n) =
     (if is_char_boundary raw (Suc n) then Suc n else snap_down raw n)"

definition from_validation_error ::
  "validation_error \<Rightarrow> string \<Rightarrow> Span \<Rightarrow> string \<Rightarrow> string \<Rightarrow> Diagnostic" where
  "from_validation_error err raw token_span directive arg_label =
     (let sub_span =
        (case ve_offset err of
           Some offset \<Rightarrow>
             if offset < length raw then
               let start = snap_down raw offset;
                   absolute_start = sp_start token_span + start;
                   ch_len = (case chars (drop start raw) of ch # _ \<Rightarrow> length ch | [] \<Rightarrow> 1);
                   absolute_end = min (absolute_start + ch_len) (sp_end token_span)
               in Span_new absolute_start absolute_end
             else token_span
         | None \<Rightarrow> token_span);
         message = ve_text err;
         diag = Diagnostic_error
           (''invalid '' @ directive @ '' '' @ arg_label @ '': '' @ message)
           (Annotation_new sub_span message)
      in case ve_hint err of Some hint \<Rightarrow> with_hint hint diag | None \<Rightarrow> diag)"

definition MAX_COLLECTED_DIAGNOSTICS :: nat where
  "MAX_COLLECTED_DIAGNOSTICS = 256"

definition push_capped :: "Diagnostic list \<Rightarrow> Diagnostic \<Rightarrow> Diagnostic list \<times> bool" where
  "push_capped sink diag =
     (if length sink < MAX_COLLECTED_DIAGNOSTICS then (sink @ [diag], True)
      else if length sink = MAX_COLLECTED_DIAGNOSTICS then
        (sink @ [Diagnostic_error
           (''too many diagnostics; further errors suppressed after '' @ show_nat MAX_COLLECTED_DIAGNOSTICS)
           (Annotation_new (Span_new 0 0) ''diagnostic limit reached'')], False)
      else (sink, False))"

definition MAX_RENDERED_DIAGNOSTICS :: nat where
  "MAX_RENDERED_DIAGNOSTICS = 50"

text \<open>What \<open>report_all\<close> writes: the diagnostics rendered in full, and the closing line.\<close>

definition rendered :: "Diagnostic list \<Rightarrow> Diagnostic list \<times> string option" where
  "rendered diagnostics =
     (take MAX_RENDERED_DIAGNOSTICS diagnostics,
      if length diagnostics > MAX_RENDERED_DIAGNOSTICS
      then Some (''... and '' @ show_nat (length diagnostics - MAX_RENDERED_DIAGNOSTICS) @
                 '' more diagnostic(s) (showing the first '' @ show_nat MAX_RENDERED_DIAGNOSTICS @ '')'')
      else None)"


section \<open>Facts\<close>

definition span_in :: "nat \<Rightarrow> Span \<Rightarrow> bool" where
  "span_in n s \<longleftrightarrow> sp_start s \<le> sp_end s \<and> sp_end s \<le> n"

definition diag_in :: "nat \<Rightarrow> Diagnostic \<Rightarrow> bool" where
  "diag_in n d \<longleftrightarrow> span_in n (an_span (dg_primary d)) \<and> list_all (\<lambda>a. span_in n (an_span a)) (dg_notes d)"

lemmas diagnostic_defs =
  Diagnostic_new_def Diagnostic_error_def Diagnostic_warning_def Diagnostic_advice_def
  with_note_def with_hint_def Annotation_new_def Span_new_def

lemma span_in_mono: "span_in n s \<Longrightarrow> n \<le> m \<Longrightarrow> span_in m s"
  by (simp add: span_in_def)

lemma span_in_new [simp]: "span_in n (Span_new a b) \<longleftrightarrow> a \<le> b \<and> b \<le> n"
  by (simp add: span_in_def Span_new_def)

lemma diag_builders [simp]:
  "diag_in n (Diagnostic_error m (Annotation_new s t)) \<longleftrightarrow> span_in n s"
  "diag_in n (Diagnostic_warning m (Annotation_new s t)) \<longleftrightarrow> span_in n s"
  "diag_in n (with_hint h d) \<longleftrightarrow> diag_in n d"
  "diag_in n (with_note (Annotation_new s t) d) \<longleftrightarrow> diag_in n d \<and> span_in n s"
  by (auto simp: diag_in_def diagnostic_defs)

lemma severity_builders [simp]:
  "dg_severity (Diagnostic_error m a) = SevError"
  "dg_severity (Diagnostic_warning m a) = SevWarning"
  "dg_severity (with_hint h d) = dg_severity d"
  "dg_severity (with_note a d) = dg_severity d"
  by (simp_all add: diagnostic_defs)

lemma snap_down_le: "snap_down raw n \<le> n"
  by (induction raw n rule: snap_down.induct) auto

lemma snap_down_boundary: "is_char_boundary raw (snap_down raw n)"
  by (induction raw n rule: snap_down.induct) (auto simp: is_char_boundary_def)

lemma from_validation_error_severity [simp]:
  "dg_severity (from_validation_error err raw sp dir lbl) = SevError"
  by (simp add: from_validation_error_def Let_def split: option.split)

lemma from_validation_error_in:
  assumes "span_in n sp" and "sp_start sp + length raw \<le> sp_end sp"
  shows "diag_in n (from_validation_error err raw sp dir lbl)"
proof -
  have sd: "snap_down raw off < length raw" if "off < length raw" for off
    using snap_down_le [of raw off] that by linarith
  show ?thesis
    using assms sd
    by (auto simp: from_validation_error_def Let_def span_in_def Span_new_def diag_in_def
        diagnostic_defs split: option.splits)
       (fastforce simp: min_def)+
qed

lemma push_capped_length: "length (fst (push_capped sink d)) \<le> max (length sink) 257"
  by (simp add: push_capped_def MAX_COLLECTED_DIAGNOSTICS_def)

lemma push_capped_prefix: "\<exists>xs. fst (push_capped sink d) = sink @ xs"
  by (simp add: push_capped_def)

section \<open>Properties\<close>

text \<open>
  the diagnostic built for a rejected value is an error whose primary span lies inside the span of
  the value, hence inside the source, whatever offset the validator reported.
\<close>

theorem from_validation_error_inside:
  assumes "span_in n sp" and "sp_start sp + length raw \<le> sp_end sp"
  shows "dg_severity (from_validation_error err raw sp dir lbl) = SevError \<and>
         diag_in n (from_validation_error err raw sp dir lbl)"
  using from_validation_error_in [OF assms] by simp

theorem from_validation_error_inside_witness:
  "diag_in 20 (from_validation_error \<lparr> ve_text = ''bad'', ve_offset = Some 2, ve_hint = None \<rparr>
     ''ab!'' (Span_new 6 9) ''LABEL'' ''key'')"
  using from_validation_error_inside [of 20 "Span_new 6 9" "''ab!''"
      "\<lparr> ve_text = ''bad'', ve_offset = Some 2, ve_hint = None \<rparr>" "''LABEL''" "''key''"]
  by (simp add: Span_new_def span_in_def)

end
