(* ===== verification/Lexer.thy ===== *)
theory Lexer
  imports Diagnostics
begin

text \<open>
  The tokenizer, \<open>crates/umf-parser/src/lexer.rs\<close>: the token types, the lexer state as a record,
  one definition per method and the main loop \<open>run\<close> as a recursion whose measure is the number of
  bytes left.
\<close>

section \<open>Tokens\<close>

datatype Punct = PEquals | PComma | PLBracket | PRBracket

datatype Keyword =
    KwFrom | KwAs | KwLabel | KwEnv | KwArg | KwBootloader | KwRootfs | KwShell | KwUser
  | KwWorkdir | KwRun | KwAdd | KwEntrypoint | KwExpose | KwEnable | KwDisable | KwHostname
  | KwLocale | KwTimezone | KwCmd | KwVolume | KwStopsignal | KwCopy

datatype TokenKind =
    TkKeyword Keyword
  | TkIdent string
  | TkString string
  | TkNumber u64
  | TkPunct Punct
  | TkLongOption (opt_name: string) (opt_value: "string option")
  | TkNewline

record Token =
  tk_kind :: TokenKind
  tk_span :: Span

definition keyword_table :: "(string \<times> Keyword) list" where
  "keyword_table =
     [(''FROM'', KwFrom), (''AS'', KwAs), (''LABEL'', KwLabel), (''ENV'', KwEnv), (''ARG'', KwArg),
      (''BOOTLOADER'', KwBootloader), (''ROOTFS'', KwRootfs), (''SHELL'', KwShell),
      (''USER'', KwUser), (''WORKDIR'', KwWorkdir), (''RUN'', KwRun), (''ADD'', KwAdd),
      (''ENTRYPOINT'', KwEntrypoint), (''EXPOSE'', KwExpose), (''ENABLE'', KwEnable),
      (''DISABLE'', KwDisable), (''HOSTNAME'', KwHostname), (''LOCALE'', KwLocale),
      (''TIMEZONE'', KwTimezone), (''CMD'', KwCmd), (''VOLUME'', KwVolume),
      (''STOPSIGNAL'', KwStopsignal), (''COPY'', KwCopy)]"

definition Keyword_lookup :: "string \<Rightarrow> Keyword option" where
  "Keyword_lookup s = map_of keyword_table s"


section \<open>Byte classes\<close>

definition is_word_cont :: "char \<Rightarrow> bool" where
  "is_word_cont c \<longleftrightarrow>
     c \<notin> {SP, TAB, CR, NL, CHR ''='', CHR '','', CHR ''['', CHR '']'', DQ, SQ, BSL} \<and> byte c \<ge> 32"

definition is_word_start :: "char \<Rightarrow> bool" where
  "is_word_start c \<longleftrightarrow> is_word_cont c \<and> \<not> is_ascii_digit c"


section \<open>The lexer\<close>

record lexer =
  lx_source :: string
  lx_pos :: nat
  lx_tokens :: "Token list"
  lx_errors :: "Diagnostic list"
  lx_in_shell_payload :: bool

definition lexer_new :: "string \<Rightarrow> lexer" where
  "lexer_new source =
     \<lparr> lx_source = source, lx_pos = 0, lx_tokens = [], lx_errors = [], lx_in_shell_payload = False \<rparr>"

definition lx_peek :: "lexer \<Rightarrow> nat \<Rightarrow> char option" where
  "lx_peek l offset =
     (if lx_pos l + offset < length (lx_source l) then Some (lx_source l ! (lx_pos l + offset)) else None)"

definition push_token :: "Token \<Rightarrow> lexer \<Rightarrow> lexer" where
  "push_token token l =
     (let flag =
        (case tk_kind token of
           TkKeyword k \<Rightarrow>
             if k = KwRun \<or> k = KwCmd \<or> k = KwEntrypoint then True else lx_in_shell_payload l
         | TkNewline \<Rightarrow> False
         | _ \<Rightarrow> lx_in_shell_payload l)
      in l \<lparr> lx_in_shell_payload := flag, lx_tokens := lx_tokens l @ [token] \<rparr>)"

definition emit :: "TokenKind \<Rightarrow> nat \<Rightarrow> lexer \<Rightarrow> lexer" where
  "emit kind len l =
     (let l' = push_token \<lparr> tk_kind = kind, tk_span = Span_new (lx_pos l) (lx_pos l + len) \<rparr> l
      in l' \<lparr> lx_pos := lx_pos l + len \<rparr>)"

definition lex_error :: "Diagnostic \<Rightarrow> lexer \<Rightarrow> lexer" where
  "lex_error d l = l \<lparr> lx_errors := fst (push_capped (lx_errors l) d) \<rparr>"

text \<open>The loops \<open>while pos < len && p(bytes[pos]) { pos += 1 }\<close>: the position they stop at.\<close>

function scan_while :: "(char \<Rightarrow> bool) \<Rightarrow> string \<Rightarrow> nat \<Rightarrow> nat" where
  "scan_while P bs i = (if i < length bs \<and> P (bs ! i) then scan_while P bs (Suc i) else i)"
  by pat_completeness auto

termination scan_while
  by (relation "measure (\<lambda>(_, bs, i). length bs - i)") auto

definition skip_comment :: "lexer \<Rightarrow> lexer" where
  "skip_comment l = l \<lparr> lx_pos := scan_while (\<lambda>b. b \<noteq> NL) (lx_source l) (lx_pos l) \<rparr>"

definition escape_char :: "char \<Rightarrow> char option" where
  "escape_char c =
     (if c = CHR ''n'' then Some NL
      else if c = CHR ''t'' then Some TAB
      else if c = CHR ''r'' then Some CR
      else if c = BSL then Some BSL
      else if c = DQ then Some DQ
      else if c = SQ then Some SQ
      else None)"

text \<open>\<open>source[pos..].chars().next()\<close> for a position inside the source.\<close>

definition char_at :: "string \<Rightarrow> nat \<Rightarrow> uchar" where
  "char_at s i = take (utf8_len (s ! i)) (drop i s)"

text \<open>
  The loop of \<open>lex_string\<close>: position, value collected, and whether the closing quote was reached.
  A backslash is resolved together with the byte after it.
\<close>

function string_loop :: "string \<Rightarrow> char \<Rightarrow> nat \<Rightarrow> string \<Rightarrow> nat \<times> string \<times> bool" where
  "string_loop s quote pos value =
     (if pos < length s then
        let c = s ! pos
        in if c = quote then (pos + 1, value, True)
           else if c = BSL then
             (if pos + 1 < length s then
                (case escape_char (s ! (pos + 1)) of
                   Some ch \<Rightarrow> string_loop s quote (pos + 2) (value @ [ch])
                 | None \<Rightarrow>
                     string_loop s quote (pos + 1 + length (char_at s (pos + 1)))
                       (value @ char_at s (pos + 1)))
              else (pos + 1, value, False))
           else string_loop s quote (pos + length (char_at s pos)) (value @ char_at s pos)
      else (pos, value, False))"
  by pat_completeness auto

lemma char_at_not_Nil: "i < length s \<Longrightarrow> char_at s i \<noteq> []"
  by (simp add: char_at_def utf8_len_pos)

termination string_loop
  by (relation "measure (\<lambda>(s, _, pos, _). length s - pos)")
     (auto simp: char_at_not_Nil intro!: diff_less_mono2)

definition lex_string :: "char \<Rightarrow> lexer \<Rightarrow> lexer" where
  "lex_string quote l =
     (let start = lx_pos l
      in case string_loop (lx_source l) quote (start + 1) [] of
           (pos, value, closed) \<Rightarrow>
             if closed then
               push_token \<lparr> tk_kind = TkString value, tk_span = Span_new start pos \<rparr> (l \<lparr> lx_pos := pos \<rparr>)
             else
               lex_error
                 (with_hint (''add a closing '' @ [quote] @ '' to terminate'')
                   (Diagnostic_error ''unterminated string literal''
                     (Annotation_new (Span_new start pos) ''string starts here but never closes'')))
                 (l \<lparr> lx_pos := pos \<rparr>))"

text \<open>The digits of a number: \<open>n.checked_mul(10).and_then(|m| m.checked_add(digit))\<close>.\<close>

definition number_step :: "u64 \<times> bool \<Rightarrow> char \<Rightarrow> u64 \<times> bool" where
  "number_step st c =
     (case checked_mul (fst st) 10 of
        None \<Rightarrow> (- 1, True)
      | Some m \<Rightarrow>
          (case checked_add m (of_nat (digit_value c)) of
             None \<Rightarrow> (- 1, True)
           | Some n \<Rightarrow> (n, snd st)))"

definition lex_number :: "lexer \<Rightarrow> lexer" where
  "lex_number l =
     (let start = lx_pos l;
          pos = scan_while is_ascii_digit (lx_source l) start;
          span = Span_new start pos
      in case foldl number_step (0, False) (slice (lx_source l) start pos) of
           (n, overflowed) \<Rightarrow>
             let l1 = l \<lparr> lx_pos := pos \<rparr>;
                 l2 = (if overflowed then
                         lex_error
                           (with_hint (''the maximum supported value is '' @ show_nat (2 ^ 64 - 1) @
                                       ''; the literal was clamped to it'')
                             (Diagnostic_error ''integer literal too large''
                               (Annotation_new span ''does not fit in a 64-bit unsigned integer'')))
                           l1
                       else l1)
             in push_token \<lparr> tk_kind = TkNumber n, tk_span = span \<rparr> l2)"

definition lex_word :: "lexer \<Rightarrow> lexer" where
  "lex_word l =
     (let start = lx_pos l;
          pos = scan_while is_word_cont (lx_source l) start;
          text = slice (lx_source l) start pos;
          kind = (case Keyword_lookup text of Some k \<Rightarrow> TkKeyword k | None \<Rightarrow> TkIdent text)
      in push_token \<lparr> tk_kind = kind, tk_span = Span_new start pos \<rparr> (l \<lparr> lx_pos := pos \<rparr>))"

definition lex_long_option :: "lexer \<Rightarrow> lexer" where
  "lex_long_option l =
     (let s = lx_source l;
          start = lx_pos l;
          name_start = start + 2;
          name_end = scan_while is_word_cont s name_start;
          name = slice s name_start name_end
      in if name_end < length s \<and> s ! name_end = CHR ''='' then
           let value_start = name_end + 1;
               value_end = scan_while (\<lambda>c. c \<notin> {SP, TAB, NL, CR}) s value_start
           in push_token \<lparr> tk_kind = TkLongOption name (Some (slice s value_start value_end)),
                           tk_span = Span_new start value_end \<rparr> (l \<lparr> lx_pos := value_end \<rparr>)
         else
           push_token \<lparr> tk_kind = TkLongOption name None, tk_span = Span_new start name_end \<rparr>
             (l \<lparr> lx_pos := name_end \<rparr>))"

definition unexpected_character :: "char \<Rightarrow> lexer \<Rightarrow> lexer" where
  "unexpected_character c l =
     (lex_error
        (with_hint (''control characters are not allowed here; printable text (including UTF-8) is '' @
                    ''accepted within words, and arbitrary bytes inside quoted strings'')
          (Diagnostic_error (''unexpected character `'' @ [c] @ ''`'')
            (Annotation_new (Span_new (lx_pos l) (lx_pos l + 1)) ''not allowed here''))) l)
     \<lparr> lx_pos := lx_pos l + 1 \<rparr>"

text \<open>One iteration of the loop in \<open>run\<close>, on the byte \<open>c\<close> at the current position.\<close>

definition lex_step :: "lexer \<Rightarrow> lexer" where
  "lex_step l =
     (let c = lx_source l ! lx_pos l
      in if c = SP \<or> c = TAB \<or> c = CR then l \<lparr> lx_pos := lx_pos l + 1 \<rparr>
         else if c = NL then emit TkNewline 1 l
         else if c = BSL \<and> lx_peek l 1 = Some NL then l \<lparr> lx_pos := lx_pos l + 2 \<rparr>
         else if c = BSL \<and> lx_peek l 1 = Some CR \<and> lx_peek l 2 = Some NL
         then l \<lparr> lx_pos := lx_pos l + 3 \<rparr>
         else if c = CHR ''#'' \<and> \<not> lx_in_shell_payload l then skip_comment l
         else if c = DQ \<or> c = SQ then lex_string c l
         else if c = CHR ''='' then emit (TkPunct PEquals) 1 l
         else if c = CHR '','' then emit (TkPunct PComma) 1 l
         else if c = CHR ''['' then emit (TkPunct PLBracket) 1 l
         else if c = CHR '']'' then emit (TkPunct PRBracket) 1 l
         else if c = CHR ''-'' \<and> lx_peek l 1 = Some CHR ''-'' then lex_long_option l
         else if is_ascii_digit c then lex_number l
         else if is_word_start c then lex_word l
         else unexpected_character c l)"



section \<open>Progress\<close>

declare scan_while.simps [simp del] string_loop.simps [simp del]

lemma scan_while_takeWhile:
  "i \<le> length bs \<Longrightarrow> scan_while P bs i = i + length (takeWhile P (drop i bs))"
proof (induction P bs i rule: scan_while.induct)
  case (1 P bs i)
  show ?case
  proof (cases "i < length bs \<and> P (bs ! i)")
    case True
    then have "drop i bs = bs ! i # drop (Suc i) bs" by (simp add: Cons_nth_drop_Suc)
    with True 1 show ?thesis by (subst scan_while.simps) simp
  next
    case False
    then have "takeWhile P (drop i bs) = []"
      using 1(2) by (cases "i = length bs") (auto simp: Cons_nth_drop_Suc [symmetric])
    then show ?thesis using False by (subst scan_while.simps) auto
  qed
qed

lemma scan_while_ge: "i \<le> scan_while P bs i"
  by (induction P bs i rule: scan_while.induct) (subst scan_while.simps, auto)

lemma scan_while_le: "i \<le> length bs \<Longrightarrow> scan_while P bs i \<le> length bs"
  by (induction P bs i rule: scan_while.induct) (subst scan_while.simps, auto)

lemma scan_while_greater: "i < length bs \<Longrightarrow> P (bs ! i) \<Longrightarrow> i < scan_while P bs i"
  using scan_while_ge [of "Suc i" P bs] by (subst scan_while.simps) simp

lemma length_char_at_le: "i < length s \<Longrightarrow> i + length (char_at s i) \<le> length s"
  by (simp add: char_at_def)

lemma string_loop_bounds:
  "pos \<le> length s \<Longrightarrow> pos \<le> fst (string_loop s q pos v) \<and> fst (string_loop s q pos v) \<le> length s"
proof (induction s q pos v rule: string_loop.induct)
  case (1 s q pos v)
  show ?case
    using 1 length_char_at_le [of pos s] length_char_at_le [of "pos + 1" s]
    by (subst (1 2) string_loop.simps) (force simp: Let_def split: option.split)
qed

lemma push_token_simps [simp]:
  "lx_source (push_token t l) = lx_source l"
  "lx_pos (push_token t l) = lx_pos l"
  "lx_tokens (push_token t l) = lx_tokens l @ [t]"
  "lx_errors (push_token t l) = lx_errors l"
  by (simp_all add: push_token_def Let_def)

lemma emit_simps [simp]:
  "lx_source (emit k n l) = lx_source l"
  "lx_pos (emit k n l) = lx_pos l + n"
  "lx_tokens (emit k n l) = lx_tokens l @ [\<lparr> tk_kind = k, tk_span = Span_new (lx_pos l) (lx_pos l + n) \<rparr>]"
  "lx_errors (emit k n l) = lx_errors l"
  by (simp_all add: emit_def Let_def)

lemma lex_error_simps [simp]:
  "lx_source (lex_error d l) = lx_source l"
  "lx_pos (lex_error d l) = lx_pos l"
  "lx_tokens (lex_error d l) = lx_tokens l"
  "lx_in_shell_payload (lex_error d l) = lx_in_shell_payload l"
  by (simp_all add: lex_error_def)

lemma lex_methods_source [simp]:
  "lx_source (skip_comment l) = lx_source l"
  "lx_source (lex_string q l) = lx_source l"
  "lx_source (lex_number l) = lx_source l"
  "lx_source (lex_word l) = lx_source l"
  "lx_source (lex_long_option l) = lx_source l"
  "lx_source (unexpected_character c l) = lx_source l"
  by (simp_all add: skip_comment_def lex_string_def lex_number_def lex_word_def lex_long_option_def
      unexpected_character_def Let_def split: prod.split)

lemma lex_methods_pos:
  "lx_pos (skip_comment l) = scan_while (\<lambda>b. b \<noteq> NL) (lx_source l) (lx_pos l)"
  "lx_pos (lex_string q l) = fst (string_loop (lx_source l) q (lx_pos l + 1) [])"
  "lx_pos (lex_number l) = scan_while is_ascii_digit (lx_source l) (lx_pos l)"
  "lx_pos (lex_word l) = scan_while is_word_cont (lx_source l) (lx_pos l)"
  "lx_pos (unexpected_character c l) = lx_pos l + 1"
  by (simp_all add: skip_comment_def lex_string_def lex_number_def lex_word_def
      unexpected_character_def Let_def split: prod.split)

lemma lex_long_option_pos:
  assumes "lx_pos l + 2 \<le> length (lx_source l)"
  shows "lx_pos l < lx_pos (lex_long_option l) \<and> lx_pos (lex_long_option l) \<le> length (lx_source l)"
proof -
  let ?s = "lx_source l" and ?n = "scan_while is_word_cont (lx_source l) (lx_pos l + 2)"
  have n: "lx_pos l + 2 \<le> ?n" "?n \<le> length ?s" using assms by (auto intro: scan_while_ge scan_while_le)
  show ?thesis
  proof (cases "?n < length ?s \<and> ?s ! ?n = CHR ''=''")
    case True
    let ?v = "scan_while (\<lambda>c. c \<notin> {SP, TAB, NL, CR}) ?s (?n + 1)"
    have v: "?n + 1 \<le> ?v" "?v \<le> length ?s" using True by (auto intro: scan_while_ge scan_while_le)
    have "lx_pos (lex_long_option l) = ?v" using True by (simp add: lex_long_option_def Let_def)
    then show ?thesis using v n by linarith
  next
    case False
    then have "lx_pos (lex_long_option l) = ?n" by (auto simp: lex_long_option_def Let_def)
    then show ?thesis using n by linarith
  qed
qed

lemma lx_peek_Some: "lx_peek l k = Some c \<longleftrightarrow> lx_pos l + k < length (lx_source l) \<and> lx_source l ! (lx_pos l + k) = c"
  by (simp add: lx_peek_def)

lemma lex_step_source [simp]: "lx_source (lex_step l) = lx_source l"
  by (simp add: lex_step_def Let_def)

fun punct_char :: "Punct \<Rightarrow> char" where
  "punct_char PEquals = CHR ''=''"
| "punct_char PComma = CHR '',''"
| "punct_char PLBracket = CHR ''[''"
| "punct_char PRBracket = CHR '']''"

text \<open>Bytes that stand for nothing: blanks and line continuations.\<close>

definition blank_at :: "string \<Rightarrow> nat \<Rightarrow> bool" where
  "blank_at s i \<longleftrightarrow>
     s ! i \<in> {SP, TAB, CR} \<or>
     (\<exists>j. j \<le> i \<and> i < j + 2 \<and> j + 1 < length s \<and> s ! j = BSL \<and> s ! (j + 1) = NL) \<or>
     (\<exists>j. j \<le> i \<and> i < j + 3 \<and> j + 2 < length s \<and> s ! j = BSL \<and> s ! (j + 1) = CR \<and> s ! (j + 2) = NL)"

text \<open>Case analysis of one iteration, used by every invariant of the loop.\<close>

lemma lex_step_rule:
  assumes pos: "lx_pos l < length (lx_source l)"
    and skip: "\<And>n. 0 < n \<Longrightarrow> lx_pos l + n \<le> length (lx_source l) \<Longrightarrow>
      \<forall>i < n. byte (lx_source l ! (lx_pos l + i)) < 128 \<and> blank_at (lx_source l) (lx_pos l + i) \<Longrightarrow>
      P (l \<lparr> lx_pos := lx_pos l + n \<rparr>)"
    and newline: "lx_source l ! lx_pos l = NL \<Longrightarrow> P (emit TkNewline 1 l)"
    and punct: "\<And>p. lx_source l ! lx_pos l = punct_char p \<Longrightarrow> P (emit (TkPunct p) 1 l)"
    and comment: "lx_source l ! lx_pos l = CHR ''#'' \<Longrightarrow> \<not> lx_in_shell_payload l \<Longrightarrow> P (skip_comment l)"
    and str: "lx_source l ! lx_pos l = DQ \<or> lx_source l ! lx_pos l = SQ \<Longrightarrow>
      P (lex_string (lx_source l ! lx_pos l) l)"
    and long: "lx_pos l + 2 \<le> length (lx_source l) \<Longrightarrow> lx_source l ! lx_pos l = CHR ''-'' \<Longrightarrow>
      lx_source l ! (lx_pos l + 1) = CHR ''-'' \<Longrightarrow> P (lex_long_option l)"
    and num: "is_ascii_digit (lx_source l ! lx_pos l) \<Longrightarrow> P (lex_number l)"
    and word: "is_word_start (lx_source l ! lx_pos l) \<Longrightarrow> P (lex_word l)"
    and bad: "byte (lx_source l ! lx_pos l) < 128 \<Longrightarrow> P (unexpected_character (lx_source l ! lx_pos l) l)"
  shows "P (lex_step l)"
proof -
  let ?c = "lx_source l ! lx_pos l"
  have one: "P (l \<lparr> lx_pos := lx_pos l + 1 \<rparr>)" if "?c = SP \<or> ?c = TAB \<or> ?c = CR"
    using skip [of 1] pos that by (auto simp: byte_def blank_at_def)
  have two: "P (l \<lparr> lx_pos := lx_pos l + 2 \<rparr>)" if c: "?c = BSL" "lx_peek l 1 = Some NL"
  proof (rule skip)
    have "blank_at (lx_source l) (lx_pos l + i)" if "i < 2" for i
      unfolding blank_at_def using c that by (intro disjI2 disjI1 exI [of _ "lx_pos l"]) (simp add: lx_peek_Some)
    then show "\<forall>i<2. byte (lx_source l ! (lx_pos l + i)) < 128 \<and> blank_at (lx_source l) (lx_pos l + i)"
      using c by (auto simp: lx_peek_Some byte_def less_Suc_eq numeral_2_eq_2)
  qed (use c in \<open>simp_all add: lx_peek_Some\<close>)
  have three: "P (l \<lparr> lx_pos := lx_pos l + 3 \<rparr>)"
    if c: "?c = BSL" "lx_peek l 1 = Some CR" "lx_peek l 2 = Some NL"
  proof (rule skip)
    have "blank_at (lx_source l) (lx_pos l + i)" if "i < 3" for i
      unfolding blank_at_def using c that by (intro disjI2 exI [of _ "lx_pos l"]) (simp add: lx_peek_Some)
    then show "\<forall>i<3. byte (lx_source l ! (lx_pos l + i)) < 128 \<and> blank_at (lx_source l) (lx_pos l + i)"
      using c by (auto simp: lx_peek_Some byte_def less_Suc_eq numeral_3_eq_3 numeral_2_eq_2)
  qed (use c in \<open>simp_all add: lx_peek_Some\<close>)
  note pu = punct [of PEquals] punct [of PComma] punct [of PLBracket] punct [of PRBracket]
  have lo: "P (lex_long_option l)" if "?c = CHR ''-''" "lx_peek l 1 = Some CHR ''-''"
    using long that by (auto simp: lx_peek_Some)
  have un: "P (unexpected_character ?c l)"
    if "\<not> (?c = SP \<or> ?c = TAB \<or> ?c = CR)" "?c \<noteq> NL" "\<not> (?c = DQ \<or> ?c = SQ)" "?c \<noteq> CHR ''=''"
       "?c \<noteq> CHR '',''" "?c \<noteq> CHR ''[''" "?c \<noteq> CHR '']''" "\<not> is_ascii_digit ?c" "\<not> is_word_start ?c"
  proof (cases "?c = BSL")
    case True
    then show ?thesis using bad by (auto simp: byte_def)
  next
    case False
    with that have "byte ?c < 32" by (auto simp: is_word_start_def is_word_cont_def)
    then show ?thesis using bad by simp
  qed
  show ?thesis
    unfolding lex_step_def Let_def
    using one two three pu lo un newline comment str num word by simp
qed

lemma lex_step_pos:
  assumes "lx_pos l < length (lx_source l)"
  shows "lx_pos l < lx_pos (lex_step l) \<and> lx_pos (lex_step l) \<le> length (lx_source l)"
proof (rule lex_step_rule [OF assms])
  assume "lx_source l ! lx_pos l = CHR ''#''"
  then show "lx_pos l < lx_pos (skip_comment l) \<and> lx_pos (skip_comment l) \<le> length (lx_source l)"
    using assms by (auto simp: lex_methods_pos intro: scan_while_greater scan_while_le)
next
  show "lx_pos l < lx_pos (lex_string (lx_source l ! lx_pos l) l) \<and>
        lx_pos (lex_string (lx_source l ! lx_pos l) l) \<le> length (lx_source l)"
    using string_loop_bounds [of "lx_pos l + 1" "lx_source l" "lx_source l ! lx_pos l" "[]"] assms
    by (simp add: lex_methods_pos)
next
  assume "is_ascii_digit (lx_source l ! lx_pos l)"
  then show "lx_pos l < lx_pos (lex_number l) \<and> lx_pos (lex_number l) \<le> length (lx_source l)"
    using assms by (auto simp: lex_methods_pos intro: scan_while_greater scan_while_le)
next
  assume "is_word_start (lx_source l ! lx_pos l)"
  then show "lx_pos l < lx_pos (lex_word l) \<and> lx_pos (lex_word l) \<le> length (lx_source l)"
    using assms by (auto simp: lex_methods_pos is_word_start_def intro: scan_while_greater scan_while_le)
qed (use assms in \<open>auto simp: lex_methods_pos lex_long_option_pos\<close>)


section \<open>The main loop\<close>

function lexer_run :: "lexer \<Rightarrow> lexer" where
  "lexer_run l = (if lx_pos l < length (lx_source l) then lexer_run (lex_step l) else l)"
  by pat_completeness auto

termination lexer_run
proof (relation "measure (\<lambda>l. length (lx_source l) - lx_pos l)")
  fix l :: lexer
  assume "lx_pos l < length (lx_source l)"
  then show "(lex_step l, l) \<in> measure (\<lambda>l. length (lx_source l) - lx_pos l)"
    using lex_step_pos [of l] by (simp add: diff_less_mono2)
qed simp

declare lexer_run.simps [simp del]

definition tokenize :: "string \<Rightarrow> Token list \<times> Diagnostic list" where
  "tokenize source =
     (let l = lexer_run (lexer_new source) in (lx_tokens l, lx_errors l))"

lemma lexer_run_invariant:
  assumes step: "\<And>l. I l \<Longrightarrow> lx_pos l < length (lx_source l) \<Longrightarrow> I (lex_step l)"
  shows "I l \<Longrightarrow> I (lexer_run l)"
proof (induction l rule: lexer_run.induct)
  case (1 l)
  then show ?case using step by (subst lexer_run.simps) simp
qed

lemma lexer_run_source [simp]: "lx_source (lexer_run l) = lx_source l"
  using lexer_run_invariant [of "\<lambda>l'. lx_source l' = lx_source l" l] by simp

lemma lexer_run_pos: "lx_pos l \<le> length (lx_source l) \<Longrightarrow> lx_pos (lexer_run l) = length (lx_source l)"
proof (induction l rule: lexer_run.induct)
  case (1 l)
  then show ?case using lex_step_pos [of l] by (subst lexer_run.simps) auto
qed

end
