(* ===== verification/Parser_State.thy ===== *)
theory Parser_State
  imports Lexer
begin

text \<open>
  The parser's state and its token-level helpers, from the \<open>Parser\<close> struct and the sections
  "shared helpers" and "low-level token helpers" of \<open>crates/umf-parser/src/grammar.rs\<close>.  An
  operation that Rust writes with \<open>&mut self\<close> and \<open>Option\<close> is a function from a parser to an
  optional result and the next parser; \<open>andThen\<close> is the operator \<open>?\<close>.
\<close>

section \<open>State\<close>

record parser =
  p_source :: string
  p_tokens :: "Token list"
  p_pos :: nat
  p_global_args :: "Arg list"
  p_stages :: "Stage list"
  p_errors :: "Diagnostic list"
  p_warnings :: "Diagnostic list"
  p_pending :: "Directive list"

definition parser_new :: "string \<Rightarrow> Token list \<Rightarrow> parser" where
  "parser_new source tokens =
     \<lparr> p_source = source, p_tokens = tokens, p_pos = 0, p_global_args = [], p_stages = [],
       p_errors = [], p_warnings = [], p_pending = [] \<rparr>"

type_synonym 'a parse = "parser \<Rightarrow> 'a option \<times> parser"

definition andThen :: "'a parse \<Rightarrow> ('a \<Rightarrow> 'b parse) \<Rightarrow> 'b parse" where
  "andThen m f p = (case m p of (Some a, p') \<Rightarrow> f a p' | (None, p') \<Rightarrow> (None, p'))"

definition push_error :: "Diagnostic \<Rightarrow> parser \<Rightarrow> parser" where
  "push_error d p = p \<lparr> p_errors := p_errors p @ [d] \<rparr>"

definition push_warning :: "Diagnostic \<Rightarrow> parser \<Rightarrow> parser" where
  "push_warning d p = p \<lparr> p_warnings := p_warnings p @ [d] \<rparr>"

text \<open>\<open>self.errors.push(d); return None\<close>\<close>

definition fail :: "Diagnostic \<Rightarrow> 'a parse" where
  "fail d p = (None, push_error d p)"


section \<open>Token helpers\<close>

definition p_peek :: "parser \<Rightarrow> Token option" where
  "p_peek p = (if p_pos p < length (p_tokens p) then Some (p_tokens p ! p_pos p) else None)"

definition peek_kind :: "parser \<Rightarrow> TokenKind option" where
  "peek_kind p = map_option tk_kind (p_peek p)"

definition peek_punct :: "parser \<Rightarrow> Punct option" where
  "peek_punct p = (case peek_kind p of Some (TkPunct q) \<Rightarrow> Some q | _ \<Rightarrow> None)"

definition advance :: "Token parse" where
  "advance p =
     (case p_peek p of
        Some tok \<Rightarrow> (Some tok, p \<lparr> p_pos := p_pos p + 1 \<rparr>)
      | None \<Rightarrow> (None, p))"

definition eof_span :: "parser \<Rightarrow> Span" where
  "eof_span p =
     (if p_tokens p = [] then Span_new 0 0
      else let e = sp_end (tk_span (last (p_tokens p))) in Span_new e e)"

definition current_or_eof_span :: "parser \<Rightarrow> Span" where
  "current_or_eof_span p = (case p_peek p of Some t \<Rightarrow> tk_span t | None \<Rightarrow> eof_span p)"

definition last_consumed_end :: "parser \<Rightarrow> nat" where
  "last_consumed_end p =
     (if p_pos p = 0 then 0 else sp_end (tk_span (p_tokens p ! (p_pos p - 1))))"

definition advance_or_err :: "string \<Rightarrow> string \<Rightarrow> Token parse" where
  "advance_or_err message hint p =
     (case advance p of
        (Some tok, p') \<Rightarrow>
          if tk_kind tok \<noteq> TkNewline then (Some tok, p')
          else fail (with_hint hint (Diagnostic_error message
                 (Annotation_new (eof_span p') ''unexpected end of line''))) p'
      | (None, p') \<Rightarrow>
          fail (with_hint hint (Diagnostic_error message
            (Annotation_new (eof_span p') ''unexpected end of file''))) p')"

definition match_keyword :: "Keyword \<Rightarrow> parser \<Rightarrow> bool \<times> parser" where
  "match_keyword kw p =
     (if peek_kind p = Some (TkKeyword kw) then (True, snd (advance p)) else (False, p))"

definition expect_keyword :: "Keyword \<Rightarrow> string \<Rightarrow> string \<Rightarrow> Token parse" where
  "expect_keyword kw message hint p =
     (if peek_kind p = Some (TkKeyword kw) then advance p
      else fail (Diagnostic_error message (Annotation_new (current_or_eof_span p) hint)) p)"

lemma p_peek_Some: "p_peek p = Some t \<longleftrightarrow> p_pos p < length (p_tokens p) \<and> p_tokens p ! p_pos p = t"
  by (simp add: p_peek_def)

lemma p_peek_bound: "p_peek p = Some t \<Longrightarrow> p_pos p < length (p_tokens p)"
  by (simp add: p_peek_Some)

lemma advance_left:
  "p_peek p = Some t \<Longrightarrow>
     length (p_tokens (snd (advance p))) - p_pos (snd (advance p)) < length (p_tokens p) - p_pos p"
  using p_peek_bound [of p t] by (auto simp: advance_def)

text \<open>The loops over tokens.\<close>

function skip_newlines :: "parser \<Rightarrow> parser" where
  "skip_newlines p =
     (if peek_kind p = Some TkNewline then skip_newlines (snd (advance p)) else p)"
  by pat_completeness auto

termination skip_newlines
  by (relation "measure (\<lambda>p. length (p_tokens p) - p_pos p)")
     (auto simp: peek_kind_def intro: advance_left)

function recover_to_eol :: "parser \<Rightarrow> parser" where
  "recover_to_eol p =
     (case p_peek p of
        Some tok \<Rightarrow>
          if tk_kind tok = TkNewline then snd (advance p) else recover_to_eol (snd (advance p))
      | None \<Rightarrow> p)"
  by pat_completeness auto

termination recover_to_eol
  by (relation "measure (\<lambda>p. length (p_tokens p) - p_pos p)")
     (auto intro: advance_left)

function recover_to_next_stage :: "parser \<Rightarrow> parser" where
  "recover_to_next_stage p =
     (case p_peek p of
        Some tok \<Rightarrow>
          if tk_kind tok = TkKeyword KwFrom then p else recover_to_next_stage (snd (advance p))
      | None \<Rightarrow> p)"
  by pat_completeness auto

termination recover_to_next_stage
  by (relation "measure (\<lambda>p. length (p_tokens p) - p_pos p)")
     (auto intro: advance_left)

text \<open>
  The loop that \<open>RUN\<close>, \<open>CMD\<close> and \<open>ENTRYPOINT\<close> share: consume to the end of the line, keeping the end
  of the last token.
\<close>

function slurp_line :: "nat \<Rightarrow> parser \<Rightarrow> nat \<times> parser" where
  "slurp_line cmd_end p =
     (case p_peek p of
        Some tok \<Rightarrow>
          if tk_kind tok = TkNewline then (cmd_end, p)
          else slurp_line (sp_end (tk_span tok)) (snd (advance p))
      | None \<Rightarrow> (cmd_end, p))"
  by pat_completeness auto

termination slurp_line
  by (relation "measure (\<lambda>(_, p). length (p_tokens p) - p_pos p)")
     (auto intro: advance_left)

definition expect_newline_after :: "string \<Rightarrow> parser \<Rightarrow> parser" where
  "expect_newline_after directive p =
     (case p_peek p of
        Some tok \<Rightarrow>
          if tk_kind tok \<noteq> TkNewline then
            recover_to_eol (push_error (Diagnostic_error
              (''unexpected extra arguments for '' @ directive)
              (Annotation_new (tk_span tok) ''expected end of line'')) p)
          else p
      | None \<Rightarrow> p)"


section \<open>Shared helpers\<close>

definition validated ::
  "string \<Rightarrow> Span \<Rightarrow> string \<Rightarrow> string \<Rightarrow> (string \<Rightarrow> validation_error + 'a) \<Rightarrow> 'a Spanned parse" where
  "validated raw token_span directive arg_label constructor p =
     (case constructor raw of
        Inr v \<Rightarrow> (Some (Spanned_new v token_span), p)
      | Inl err \<Rightarrow> fail (from_validation_error err raw token_span directive arg_label) p)"

function splice_loop :: "nat \<Rightarrow> parser \<Rightarrow> nat \<times> parser" where
  "splice_loop e p =
     (case p_peek p of
        Some t \<Rightarrow>
          if sp_start (tk_span t) = e \<and>
             (case tk_kind t of TkIdent _ \<Rightarrow> True | TkNumber _ \<Rightarrow> True | _ \<Rightarrow> False)
          then splice_loop (sp_end (tk_span t)) (snd (advance p))
          else (e, p)
      | None \<Rightarrow> (e, p))"
  by pat_completeness auto

termination splice_loop
  by (relation "measure (\<lambda>(_, p). length (p_tokens p) - p_pos p)")
     (auto intro: advance_left)

definition splice_value :: "Token \<Rightarrow> string \<Rightarrow> parser \<Rightarrow> (string \<times> nat) \<times> parser" where
  "splice_value first first_text p =
     (case tk_kind first of
        TkString _ \<Rightarrow> ((first_text, sp_end (tk_span first)), p)
      | _ \<Rightarrow>
          (case splice_loop (sp_end (tk_span first)) p of
             (e, p') \<Rightarrow> ((slice (p_source p') (sp_start (tk_span first)) e, e), p')))"

text \<open>The text of a token that may be a key: an identifier, or a keyword read back from the source.\<close>

definition key_text :: "Token \<Rightarrow> parser \<Rightarrow> string option" where
  "key_text tok p =
     (case tk_kind tok of
        TkIdent s \<Rightarrow> Some s
      | TkKeyword _ \<Rightarrow> Some (slice (p_source p) (sp_start (tk_span tok)) (sp_end (tk_span tok)))
      | _ \<Rightarrow> None)"

text \<open>The text of a token that may be a value.\<close>

definition value_text :: "Token \<Rightarrow> string option" where
  "value_text tok =
     (case tk_kind tok of
        TkIdent s \<Rightarrow> Some s
      | TkString s \<Rightarrow> Some s
      | TkNumber n \<Rightarrow> Some (show_nat (unat n))
      | _ \<Rightarrow> None)"

text \<open>\<open>parse_key_value\<close>, from the point where the key token has been read.\<close>

definition key_value_from :: "string \<Rightarrow> Token \<Rightarrow> (string Spanned \<times> string Spanned \<times> nat) parse" where
  "key_value_from directive key_tok p =
     (case key_text key_tok p of
        None \<Rightarrow> fail (Diagnostic_error (''expected key after '' @ directive)
                  (Annotation_new (tk_span key_tok) ''expected an identifier'')) p
      | Some kt \<Rightarrow>
          andThen (advance_or_err ''expected `=` between key and value'' ''syntax: `KEY=VALUE`'') (\<lambda>eq_tok p.
            if tk_kind eq_tok \<noteq> TkPunct PEquals
            then fail (Diagnostic_error ''expected `=` between key and value''
                   (Annotation_new (tk_span eq_tok) ''missing `=`'')) p
            else
              andThen (advance_or_err ''expected value after `=`''
                         ''value may be an identifier, number, or quoted string'') (\<lambda>val_tok p.
                case value_text val_tok of
                  None \<Rightarrow> fail (Diagnostic_error ''expected value after `=`''
                            (Annotation_new (tk_span val_tok) ''expected identifier, number, or string'')) p
                | Some first_text \<Rightarrow>
                    (case splice_value val_tok first_text p of
                       ((val_text, e), p') \<Rightarrow>
                         (Some (Spanned_new kt (tk_span key_tok),
                                Spanned_new val_text (Span_new (sp_start (tk_span val_tok)) e), e), p'))) p) p)"

definition parse_key_value :: "string \<Rightarrow> (string Spanned \<times> string Spanned \<times> nat) parse" where
  "parse_key_value directive =
     andThen (advance_or_err (''expected key after '' @ directive) ''syntax: `KEY=VALUE`'')
       (key_value_from directive)"

definition take_first_queue_rest :: "Directive list \<Rightarrow> Directive parse" where
  "take_first_queue_rest built p =
     (case built of
        [] \<Rightarrow> (None, p)
      | first # rest \<Rightarrow> (Some first, p \<lparr> p_pending := p_pending p @ rest \<rparr>))"

definition expect_ident_arg :: "string \<Rightarrow> (string \<times> Span) parse" where
  "expect_ident_arg directive =
     andThen (advance_or_err (''expected argument after '' @ directive) ''see the spec for accepted values'')
       (\<lambda>tok p.
         case tk_kind tok of
           TkIdent s \<Rightarrow> (Some (s, tk_span tok), p)
         | _ \<Rightarrow> fail (Diagnostic_error (''expected argument after '' @ directive)
                  (Annotation_new (tk_span tok) ''expected an identifier'')) p)"

text \<open>The loops unfold only where a proof asks for it.\<close>

declare skip_newlines.simps [simp del] recover_to_eol.simps [simp del]
  recover_to_next_stage.simps [simp del] slurp_line.simps [simp del] splice_loop.simps [simp del]

end
