(* ===== verification/Parser_Laws.thy ===== *)
theory Parser_Laws
  imports Parser_State
begin

text \<open>
  The contract that every parser operation keeps.  A law is a relation between the state before
  and after an operation, with a flag for failure; the locale asks that the law hold of the
  primitive steps (consuming a token, reporting, queueing) and compose, and derives it for every
  operation.  Four laws are interpreted here and used by the components above: the frame (what an
  operation can change), loudness (a failure is always reported), the severity of reports, and that
  the queue of pending directives is untouched.
\<close>

section \<open>The locale\<close>

definition law :: "(bool \<Rightarrow> parser \<Rightarrow> parser \<Rightarrow> bool) \<Rightarrow> 'a parse \<Rightarrow> parser \<Rightarrow> bool" where
  "law Q m p \<longleftrightarrow> Q (fst (m p) = None) p (snd (m p))"

locale parser_rel =
  fixes Q :: "bool \<Rightarrow> parser \<Rightarrow> parser \<Rightarrow> bool"
  assumes refl: "Q False p p"
    and trans: "Q False p q \<Longrightarrow> Q b q r \<Longrightarrow> Q b p r"
    and recover: "Q True p q \<Longrightarrow> Q False p q"
    and adv: "p_pos p < length (p_tokens p) \<Longrightarrow> Q False p (p \<lparr> p_pos := p_pos p + 1 \<rparr>)"
    and err: "dg_severity d = SevError \<Longrightarrow> Q True p (push_error d p)"
    and warn: "dg_severity d = SevWarning \<Longrightarrow> Q True p (push_warning d p)"
begin

abbreviation keeps :: "'a parse \<Rightarrow> parser \<Rightarrow> bool" where
  "keeps \<equiv> law Q"

lemma keeps_def: "keeps m p \<longleftrightarrow> Q (fst (m p) = None) p (snd (m p))"
  by (rule law_def)

lemma keepsD: "keeps m p \<Longrightarrow> m p = (r, p') \<Longrightarrow> Q (r = None) p p'"
  by (simp add: keeps_def)

lemma trans_ok: "Q False p q \<Longrightarrow> Q False q r \<Longrightarrow> Q False p r"
  by (rule trans)

lemma err_ok: "dg_severity d = SevError \<Longrightarrow> Q False p (push_error d p)"
  by (rule recover [OF err])

lemma keeps_fail: "dg_severity d = SevError \<Longrightarrow> keeps (fail d) p"
  by (simp add: keeps_def fail_def err)

lemma keeps_andThen:
  assumes "keeps m p" and "\<And>a p'. m p = (Some a, p') \<Longrightarrow> keeps (f a) p'"
  shows "keeps (andThen m f) p"
proof (cases "m p")
  case (Pair r p')
  show ?thesis
  proof (cases r)
    case None
    with Pair assms(1) show ?thesis by (simp add: keeps_def andThen_def)
  next
    case (Some a)
    with Pair assms have "Q False p p'" and "keeps (f a) p'" by (auto simp: keeps_def)
    with Pair Some show ?thesis using trans by (simp add: keeps_def andThen_def)
  qed
qed

lemma keeps_return: "Q False p p' \<Longrightarrow> keeps (\<lambda>_. (Some a, p')) p"
  by (simp add: keeps_def)

lemma keeps_after: "Q False p p' \<Longrightarrow> keeps m p' \<Longrightarrow> keeps (\<lambda>_. m p') p"
  using trans by (auto simp: keeps_def)

lemma advance_Q: "Q False p (snd (advance p))"
  using adv refl p_peek_bound by (auto simp: advance_def split: option.split)

lemma advance_or_err_keeps: "keeps (advance_or_err m h) p"
proof (cases "p_peek p")
  case None
  then show ?thesis by (simp add: keeps_def advance_or_err_def advance_def fail_def err)
next
  case (Some t)
  let ?p = "p \<lparr> p_pos := p_pos p + 1 \<rparr>"
  have "Q False p ?p" using adv p_peek_bound [OF Some] .
  moreover have "dg_severity d = SevError \<Longrightarrow> Q True ?p (push_error d ?p)" for d by (rule err)
  ultimately show ?thesis
    using Some trans [of p ?p True] by (simp add: keeps_def advance_or_err_def advance_def fail_def)
qed

lemma match_keyword_Q: "Q False p (snd (match_keyword kw p))"
  using advance_Q refl by (simp add: match_keyword_def)

lemma expect_keyword_keeps: "keeps (expect_keyword kw m h) p"
  using advance_Q [of p]
  by (auto simp: keeps_def expect_keyword_def fail_def err advance_def peek_kind_def)

text \<open>The loops: each step consumes a token and continues.\<close>

lemma step: "Q False (snd (advance p)) r \<Longrightarrow> Q False p r"
  by (rule trans_ok [OF advance_Q])

lemma skip_newlines_Q: "Q False p (skip_newlines p)"
proof (induction p rule: skip_newlines.induct)
  case (1 p)
  show ?case
  proof (cases "peek_kind p = Some TkNewline")
    case True
    from step [OF 1 [OF True]] True show ?thesis by (subst skip_newlines.simps) simp
  next
    case False
    then show ?thesis by (subst skip_newlines.simps) (simp add: refl)
  qed
qed

lemma recover_to_eol_Q: "Q False p (recover_to_eol p)"
proof (induction p rule: recover_to_eol.induct)
  case (1 p)
  show ?case
  proof (cases "p_peek p")
    case (Some t)
    then show ?thesis
      using step [OF 1 [OF Some]] advance_Q [of p]
      by (subst recover_to_eol.simps) (cases "tk_kind t = TkNewline"; simp)
  qed (subst recover_to_eol.simps, simp add: refl)
qed

lemma recover_to_next_stage_Q: "Q False p (recover_to_next_stage p)"
proof (induction p rule: recover_to_next_stage.induct)
  case (1 p)
  show ?case
  proof (cases "p_peek p")
    case (Some t)
    then show ?thesis
      using step [OF 1 [OF Some]] refl [of p]
      by (subst recover_to_next_stage.simps) (cases "tk_kind t = TkKeyword KwFrom"; simp)
  qed (subst recover_to_next_stage.simps, simp add: refl)
qed

lemma slurp_line_Q: "Q False p (snd (slurp_line e p))"
proof (induction e p rule: slurp_line.induct)
  case (1 e p)
  show ?case
  proof (cases "p_peek p")
    case (Some t)
    then show ?thesis
      using step [OF 1 [OF Some]] refl [of p]
      by (subst slurp_line.simps) (cases "tk_kind t = TkNewline"; simp)
  qed (subst slurp_line.simps, simp add: refl)
qed

lemma splice_loop_Q: "Q False p (snd (splice_loop e p))"
proof (induction e p rule: splice_loop.induct)
  case (1 e p)
  show ?case
  proof (cases "p_peek p")
    case (Some t)
    show ?thesis
    proof (cases "sp_start (tk_span t) = e \<and>
        (case tk_kind t of TkIdent _ \<Rightarrow> True | TkNumber _ \<Rightarrow> True | _ \<Rightarrow> False)")
      case True
      then show ?thesis
        using step [OF 1 [OF Some True]] Some by (subst splice_loop.simps) simp
    next
      case False
      then show ?thesis using Some by (subst splice_loop.simps) (simp only: option.case if_False snd_conv refl)
    qed
  qed (subst splice_loop.simps, simp add: refl)
qed

lemma splice_value_Q: "Q False p (snd (splice_value t x p))"
  using splice_loop_Q [of p "sp_end (tk_span t)"] refl
  by (auto simp: splice_value_def split: TokenKind.split prod.split)

lemma expect_newline_after_Q: "Q False p (expect_newline_after d p)"
proof (cases "p_peek p")
  case None
  then show ?thesis by (simp add: expect_newline_after_def refl)
next
  case (Some t)
  let ?d = "Diagnostic_error (''unexpected extra arguments for '' @ d)
    (Annotation_new (tk_span t) ''expected end of line'')"
  have "Q False p (recover_to_eol (push_error ?d p))"
    by (rule trans_ok [OF err_ok recover_to_eol_Q]) simp
  with Some refl [of p] show ?thesis by (simp add: expect_newline_after_def)
qed

lemma validated_keeps: "keeps (validated raw sp d l new) p"
  by (simp add: keeps_def validated_def fail_def err refl split: sum.split)

lemma keeps_value:
  assumes "dg_severity d = SevError"
  shows "keeps (\<lambda>p. case value_text v of
      None \<Rightarrow> fail d p
    | Some ft \<Rightarrow> (case splice_value v ft p of ((vt, e), p') \<Rightarrow> (Some (g vt e), p'))) p"
proof (cases "value_text v")
  case None
  with assms show ?thesis by (simp add: keeps_def fail_def err)
next
  case (Some ft)
  then show ?thesis
    using splice_value_Q [of p v ft] by (auto simp: keeps_def split: prod.split)
qed

lemma keeps_if:
  "(c \<Longrightarrow> keeps f p) \<Longrightarrow> (\<not> c \<Longrightarrow> keeps g p) \<Longrightarrow> keeps (\<lambda>p. if c then f p else g p) p"
  by (simp add: keeps_def)

lemma keeps_option:
  "(x = None \<Longrightarrow> keeps f p) \<Longrightarrow> (\<And>y. x = Some y \<Longrightarrow> keeps (g y) p) \<Longrightarrow>
   keeps (\<lambda>p. case x of None \<Rightarrow> f p | Some y \<Rightarrow> g y p) p"
  by (cases x) (simp_all add: keeps_def)

lemma keeps_cong: "f p = g p \<Longrightarrow> keeps f p = keeps g p"
  by (simp add: keeps_def)

lemma key_value_from_keeps: "keeps (key_value_from d kt) p"
proof (cases "key_text kt p")
  case None
  then show ?thesis by (simp add: keeps_def key_value_from_def fail_def err)
next
  case (Some k)
  have cong: "key_value_from d kt p = m p \<Longrightarrow> keeps m p \<Longrightarrow> ?thesis" for m
    by (simp add: keeps_def)
  show ?thesis
    by (rule cong, simp add: key_value_from_def Some)
       (intro keeps_andThen advance_or_err_keeps keeps_if keeps_fail keeps_value; simp)
qed

lemma parse_key_value_keeps: "keeps (parse_key_value d) p"
  unfolding parse_key_value_def
  by (intro keeps_andThen advance_or_err_keeps key_value_from_keeps)

lemma expect_ident_arg_keeps: "keeps (expect_ident_arg d) p"
  unfolding expect_ident_arg_def
  by (intro keeps_andThen advance_or_err_keeps)
     (auto simp: keeps_def fail_def err refl split: TokenKind.split)

lemma advance_keeps: "p_peek p \<noteq> None \<Longrightarrow> keeps advance p"
  using advance_Q [of p] by (auto simp: keeps_def advance_def)

lemma keeps_ok: "keeps (\<lambda>p. (Some a, p)) p"
  by (simp add: keeps_def refl)

lemma keeps_line: "keeps (\<lambda>p. (Some a, expect_newline_after d p)) p"
  by (simp add: keeps_def expect_newline_after_Q)

lemma keeps_prod: "(\<And>a b. x = (a, b) \<Longrightarrow> keeps (f a b) p) \<Longrightarrow> keeps (case x of (a, b) \<Rightarrow> f a b) p"
  by (cases x) simp

end

text \<open>
  The operations that queue directives need one more promise of the law.  The relation "the queue is
  unchanged" is a law of every other operation.
\<close>

locale queueing_rel = parser_rel +
  assumes queue: "Q False p (p \<lparr> p_pending := p_pending p @ ds \<rparr>)"
begin

lemma take_first_queue_rest_keeps: "built \<noteq> [] \<Longrightarrow> keeps (take_first_queue_rest built) p"
  by (cases built) (auto simp: keeps_def take_first_queue_rest_def queue)

end


section \<open>Laws of the parser\<close>

text \<open>
  The frame: no operation below the stage level touches the source, the tokens, the global
  arguments or the finished stages; the position only grows and stays in range; reports and queued
  directives are only appended.
\<close>

definition parser_le :: "parser \<Rightarrow> parser \<Rightarrow> bool" where
  "parser_le p q \<longleftrightarrow>
     p_source q = p_source p \<and> p_tokens q = p_tokens p \<and>
     p_global_args q = p_global_args p \<and> p_stages q = p_stages p \<and>
     p_pos p \<le> p_pos q \<and> (p_pos p \<le> length (p_tokens p) \<longrightarrow> p_pos q \<le> length (p_tokens p)) \<and>
     prefix (p_errors p) (p_errors q) \<and> prefix (p_warnings p) (p_warnings q) \<and>
     prefix (p_pending p) (p_pending q)"

interpretation frame: queueing_rel "\<lambda>_. parser_le"
  by unfold_locales
     (auto simp: parser_le_def push_error_def push_warning_def intro: prefix_order.trans)

text \<open>Loudness: an operation that fails has added an error or a warning.\<close>

definition reports :: "parser \<Rightarrow> nat" where
  "reports p = length (p_errors p) + length (p_warnings p)"

definition loud :: "bool \<Rightarrow> parser \<Rightarrow> parser \<Rightarrow> bool" where
  "loud failed p q \<longleftrightarrow> (if failed then reports p < reports q else reports p \<le> reports q)"

interpretation loudness: queueing_rel loud
  by unfold_locales (auto simp: loud_def reports_def push_error_def push_warning_def)

text \<open>Severity: errors are errors and warnings are warnings.\<close>

definition severities :: "parser \<Rightarrow> bool" where
  "severities p \<longleftrightarrow>
     list_all (\<lambda>d. dg_severity d = SevError) (p_errors p) \<and>
     list_all (\<lambda>d. dg_severity d = SevWarning) (p_warnings p)"

interpretation severity: queueing_rel "\<lambda>_ p q. severities p \<longrightarrow> severities q"
  by unfold_locales (auto simp: severities_def push_error_def push_warning_def)

text \<open>The queue is unchanged.\<close>

definition same_pending :: "parser \<Rightarrow> parser \<Rightarrow> bool" where
  "same_pending p q \<longleftrightarrow> p_pending q = p_pending p"

interpretation unqueued: parser_rel "\<lambda>_. same_pending"
  by unfold_locales (auto simp: same_pending_def push_error_def push_warning_def)


section \<open>Progress\<close>

text \<open>Operations that begin by consuming a token move strictly forward when they succeed.\<close>

definition forward :: "'a parse \<Rightarrow> parser \<Rightarrow> bool" where
  "forward m p \<longleftrightarrow> (\<forall>a q. m p = (Some a, q) \<longrightarrow> p_pos p < p_pos q)"

lemma parser_leD:
  assumes "parser_le p q"
  shows "p_source q = p_source p" "p_tokens q = p_tokens p" "p_pos p \<le> p_pos q"
    "p_global_args q = p_global_args p" "p_stages q = p_stages p"
    "p_pos p \<le> length (p_tokens p) \<Longrightarrow> p_pos q \<le> length (p_tokens q)"
  using assms by (simp_all add: parser_le_def)

lemma advance_or_err_forward: "forward (advance_or_err m h) p"
  by (auto simp: forward_def advance_or_err_def advance_def fail_def split: option.splits if_splits)

lemma forward_andThen:
  assumes "forward m p" and "\<And>a q. m p = (Some a, q) \<Longrightarrow> frame.keeps (f a) q"
  shows "forward (andThen m f) p"
proof -
  have "p_pos p < p_pos r" if mp: "m p = (Some a, q)" and fr: "f a q = (Some b, r)" for a b q r
  proof -
    have "p_pos p < p_pos q" using assms(1) mp by (simp add: forward_def)
    moreover have "p_pos q \<le> p_pos r"
      using frame.keepsD [OF assms(2) [OF mp] fr] by (rule parser_leD(3))
    ultimately show ?thesis by linarith
  qed
  then show ?thesis by (auto simp: forward_def andThen_def split: prod.splits option.splits)
qed

lemma parse_key_value_forward: "forward (parse_key_value d) p"
  unfolding parse_key_value_def
  by (rule forward_andThen [OF advance_or_err_forward frame.key_value_from_keeps])

end
