(* ===== verification/Grammar.thy ===== *)
theory Grammar
  imports Parser_Laws
begin

text \<open>
  The recursive-descent parser, \<open>crates/umf-parser/src/grammar.rs\<close>: one definition per method, in
  the order of the file.  A loop is a recursion on the parser state; the laws of \<open>Parser_Laws\<close>
  give the progress that makes it terminate.
\<close>

section \<open>Newtype constructors as the parser calls them\<close>

definition no_hint :: "'e \<Rightarrow> string option" where
  "no_hint _ = None"

definition new_LabelKey :: "string \<Rightarrow> validation_error + LabelKey" where
  "new_LabelKey raw = map_error
     (dyn_error LabelKeyError_text LabelKeyError_offset LabelKeyError_hint) (LabelKey_new raw)"

definition new_LabelValue :: "string \<Rightarrow> validation_error + LabelValue" where
  "new_LabelValue raw = map_error
     (dyn_error LabelValueError_text LabelValueError_offset no_hint) (LabelValue_new raw)"

definition new_EnvVarName :: "string \<Rightarrow> validation_error + EnvVarName" where
  "new_EnvVarName raw = map_error
     (dyn_error EnvVarNameError_text EnvVarNameError_offset EnvVarNameError_hint) (EnvVarName_new raw)"

definition new_EnvVarValue :: "string \<Rightarrow> validation_error + EnvVarValue" where
  "new_EnvVarValue raw = map_error
     (dyn_error EnvVarValueError_text EnvVarValueError_offset no_hint) (EnvVarValue_new raw)"

definition new_StageName :: "string \<Rightarrow> validation_error + StageName" where
  "new_StageName raw = map_error
     (dyn_error StageNameError_text StageNameError_offset StageNameError_hint) (StageName_new raw)"

definition new_SecretId :: "string \<Rightarrow> validation_error + SecretId" where
  "new_SecretId raw = map_error
     (dyn_error SecretIdError_text SecretIdError_offset SecretIdError_hint) (SecretId_new raw)"

definition new_Username :: "string \<Rightarrow> validation_error + Username" where
  "new_Username raw = map_error
     (dyn_error UsernameError_text UsernameError_offset UsernameError_hint) (Username_new raw)"

definition new_RecipePath :: "string \<Rightarrow> validation_error + RecipePath" where
  "new_RecipePath raw = map_error
     (dyn_error RecipePathError_text RecipePathError_offset RecipePathError_hint) (RecipePath_new raw)"

definition new_OciReference :: "string \<Rightarrow> validation_error + OciReference" where
  "new_OciReference raw = map_error
     (dyn_error OciReferenceError_text OciReferenceError_offset OciReferenceError_hint)
     (OciReference_new_allowing_placeholders raw)"

definition new_HttpsUrl :: "string \<Rightarrow> validation_error + HttpsUrl" where
  "new_HttpsUrl raw = map_error
     (dyn_error HttpsUrlError_text HttpsUrlError_offset HttpsUrlError_hint)
     (HttpsUrl_new_allowing_placeholders raw)"


section \<open>Free functions\<close>

definition unsupported_dockerfile_directive :: "string \<Rightarrow> string option" where
  "unsupported_dockerfile_directive name =
     (if name = ''MAINTAINER''
      then Some ''record authorship with `LABEL org.opencontainers.image.authors=...`''
      else if name = ''HEALTHCHECK''
      then Some ''health checks are configured by the runtime, not the recipe''
      else if name = ''ONBUILD''
      then Some ''umf has no build triggers; inline the steps in the consuming recipe''
      else None)"

definition name_looks_secret :: "string \<Rightarrow> bool" where
  "name_looks_secret name =
     (let upper = to_ascii_uppercase name
      in list_ex (contains_str upper) [''PASSWORD'', ''TOKEN'', ''SECRET'', ''KEY''])"

fun describe :: "TokenKind \<Rightarrow> string" where
  "describe (TkKeyword _) = ''a keyword''"
| "describe (TkIdent _) = ''an identifier''"
| "describe (TkString _) = ''a string''"
| "describe (TkNumber _) = ''a number''"
| "describe (TkPunct _) = ''punctuation''"
| "describe (TkLongOption _ _) = ''a long option''"
| "describe TkNewline = ''end of line''"

definition pair_span :: "nat \<Rightarrow> nat \<Rightarrow> Span \<Rightarrow> Span \<Rightarrow> Span" where
  "pair_span start index key val =
     (if index = 0 then Span_new start (sp_end val) else Span_new (sp_start key) (sp_end val))"

definition shell_keyword_argv :: "string list \<Rightarrow> Span \<Rightarrow> string Spanned list" where
  "shell_keyword_argv parts span = map (\<lambda>p. Spanned_new p span) parts"

definition is_local_path :: "string \<Rightarrow> bool" where
  "is_local_path s \<longleftrightarrow>
     s = ''.'' \<or> s = ''..'' \<or> starts_with s ''./'' \<or> starts_with s ''../'' \<or>
     starts_with s ''/'' \<or> starts_with s ''~/''"

definition looks_like_oci_ref :: "string \<Rightarrow> bool" where
  "looks_like_oci_ref s \<longleftrightarrow> CHR '':'' \<in> set s \<or> CHR ''@'' \<in> set s"

text \<open>The loop of \<open>parse_run_mount_value\<close> over the comma-separated pairs: type, id and target.\<close>

fun mount_fields ::
  "string list \<Rightarrow> string option \<Rightarrow> string option \<Rightarrow> string option \<Rightarrow>
   string option \<times> string option \<times> string option" where
  "mount_fields [] kind_str id_str target = (kind_str, id_str, target)"
| "mount_fields (pair # rest) kind_str id_str target =
     (case (case split_once CHR ''='' pair of Some kv \<Rightarrow> kv | None \<Rightarrow> (pair, [])) of
        (key, val) \<Rightarrow>
          if key = ''type'' then mount_fields rest (Some val) id_str target
          else if key = ''id'' then mount_fields rest kind_str (Some val) target
          else if key = ''target'' then mount_fields rest kind_str id_str (Some val)
          else mount_fields rest kind_str id_str target)"

definition parse_run_mount_value :: "string \<Rightarrow> Span \<Rightarrow> Diagnostic + RunMount" where
  "parse_run_mount_value val span =
     (case mount_fields (split_on CHR '','' val) None None None of
        (kind_str, id_str, target) \<Rightarrow>
          (case kind_str of
             None \<Rightarrow>
               Inl (with_hint ''example: `--mount=type=secret,id=k`''
                 (Diagnostic_error ''RUN --mount requires type=...''
                   (Annotation_new span ''expected type=<kind>'')))
           | Some k \<Rightarrow>
               if k = ''secret'' then
                 (case id_str of
                    None \<Rightarrow>
                      Inl (with_hint ''example: `--mount=type=secret,id=signing-key`''
                        (Diagnostic_error ''RUN --mount=type=secret requires an id''
                          (Annotation_new span ''expected id=<id>'')))
                  | Some i \<Rightarrow>
                      (case new_SecretId i of
                         Inl err \<Rightarrow>
                           Inl (from_validation_error err i span ''RUN --mount=type=secret'' ''id'')
                       | Inr sid \<Rightarrow>
                           (case target of
                              None \<Rightarrow>
                                Inr \<lparr> rm_kind = MountSecret (Spanned_new sid span) None, rm_span = span \<rparr>
                            | Some t \<Rightarrow>
                                (case new_RecipePath t of
                                   Inl err \<Rightarrow>
                                     Inl (from_validation_error err t span ''RUN --mount=type=secret'' ''target'')
                                 | Inr path \<Rightarrow>
                                     Inr \<lparr> rm_kind = MountSecret (Spanned_new sid span) (Some (Spanned_new path span)),
                                           rm_span = span \<rparr>))))
               else
                 Inl (with_hint ''only `type=secret` is implemented in this release''
                   (Diagnostic_error ''unsupported --mount type''
                     (Annotation_new span (''type='' @ k @ '' is not yet supported''))))))"


section \<open>Metadata directives\<close>

definition is_ident :: "TokenKind option \<Rightarrow> bool" where
  "is_ident k = (case k of Some (TkIdent _) \<Rightarrow> True | _ \<Rightarrow> False)"

function key_value_list_loop ::
  "string \<Rightarrow> (string Spanned \<times> string Spanned) list \<Rightarrow> (string Spanned \<times> string Spanned) list parse" where
  "key_value_list_loop directive pairs p =
     (case parse_key_value directive p of
        (None, p') \<Rightarrow> (None, p')
      | (Some (key, val, _), p') \<Rightarrow>
          if is_ident (peek_kind p') then key_value_list_loop directive (pairs @ [(key, val)]) p'
          else (Some (pairs @ [(key, val)]), p'))"
  by pat_completeness auto

lemma peek_kind_bound: "peek_kind p = Some k \<Longrightarrow> p_pos p < length (p_tokens p)"
  by (auto simp: peek_kind_def dest: p_peek_bound)

lemma is_ident_bound: "is_ident (peek_kind p) \<Longrightarrow> p_pos p < length (p_tokens p)"
  by (cases "peek_kind p") (auto simp: is_ident_def dest: peek_kind_bound)

text \<open>A successful forward step to a state that still has tokens shrinks what is left.\<close>

lemma forward_left:
  assumes "frame.keeps m p" and "forward m p" and "m p = (Some a, q)" and "p_pos q < length (p_tokens q)"
  shows "length (p_tokens q) - p_pos q < length (p_tokens p) - p_pos p"
proof -
  have "p_tokens q = p_tokens p" using frame.keepsD [OF assms(1,3)] by (rule parser_leD(2))
  moreover have "p_pos p < p_pos q" using assms(2,3) by (simp add: forward_def)
  ultimately show ?thesis using assms(4) by simp
qed

termination key_value_list_loop
  by (relation "measure (\<lambda>(_, _, p). length (p_tokens p) - p_pos p)")
     (auto intro: forward_left [OF frame.parse_key_value_keeps parse_key_value_forward sym] is_ident_bound)

definition parse_key_value_list ::
  "string \<Rightarrow> (string Spanned \<times> string Spanned) list parse" where
  "parse_key_value_list directive = key_value_list_loop directive []"

fun build_labels ::
  "nat \<Rightarrow> nat \<Rightarrow> (string Spanned \<times> string Spanned) list \<Rightarrow> Directive list parse" where
  "build_labels start i [] = (\<lambda>p. (Some [], p))"
| "build_labels start i ((raw_key, raw_value) # rest) =
     andThen (validated (sd_value raw_key) (sd_span raw_key) ''LABEL'' ''key'' new_LabelKey) (\<lambda>key.
     andThen (validated (sd_value raw_value) (sd_span raw_value) ''LABEL'' ''value'' new_LabelValue) (\<lambda>val.
     andThen (build_labels start (i + 1) rest) (\<lambda>ds p.
       (Some (DirLabel \<lparr> lb_key = key, lb_value = val,
                         lb_span = pair_span start i (sd_span key) (sd_span val) \<rparr> # ds), p))))"

definition parse_label :: "nat \<Rightarrow> Directive parse" where
  "parse_label start =
     andThen (parse_key_value_list ''LABEL'') (\<lambda>pairs p.
       andThen (build_labels start 0 pairs) take_first_queue_rest (expect_newline_after ''LABEL'' p))"

fun build_envs ::
  "nat \<Rightarrow> nat \<Rightarrow> (string Spanned \<times> string Spanned) list \<Rightarrow> Directive list parse" where
  "build_envs start i [] = (\<lambda>p. (Some [], p))"
| "build_envs start i ((raw_key, raw_value) # rest) =
     andThen (validated (sd_value raw_key) (sd_span raw_key) ''ENV'' ''key'' new_EnvVarName) (\<lambda>key.
     andThen (validated (sd_value raw_value) (sd_span raw_value) ''ENV'' ''value'' new_EnvVarValue) (\<lambda>val.
     andThen (build_envs start (i + 1) rest) (\<lambda>ds p.
       (Some (DirEnv \<lparr> ev_key = key, ev_value = val,
                       ev_span = pair_span start i (sd_span key) (sd_span val) \<rparr> # ds), p))))"

definition parse_env :: "nat \<Rightarrow> Directive parse" where
  "parse_env start =
     andThen (parse_key_value_list ''ENV'') (\<lambda>pairs p.
       andThen (build_envs start 0 pairs) take_first_queue_rest (expect_newline_after ''ENV'' p))"

text \<open>The end of \<open>parse_arg\<close>, after the optional default has been read.\<close>

definition finish_arg ::
  "nat \<Rightarrow> EnvVarName Spanned \<Rightarrow> EnvVarValue Spanned option \<Rightarrow> nat \<Rightarrow> Directive parse" where
  "finish_arg start name dflt e p =
     (let p1 = expect_newline_after ''ARG'' p;
          span = Span_new start e;
          p2 = (if name_looks_secret (env_name_str (sd_value name)) then
                  push_warning
                    (with_hint (''for sensitive material use `RUN --mount=type=secret,id='' @ ELLIPSIS @
                                ''`: it never enters a layer, the image history, or the cache key'')
                      (Diagnostic_warning
                        (''`ARG '' @ env_name_str (sd_value name) @
                         ''` has a secret-shaped name; a build arg is not a secret channel'')
                        (Annotation_new span ''secret-shaped ARG name''))) p1
                else p1)
      in (Some (DirArg \<lparr> ag_name = name, ag_default = dflt, ag_span = span \<rparr>), p2))"

definition parse_arg :: "nat \<Rightarrow> Directive parse" where
  "parse_arg start =
     andThen (advance_or_err ''expected argument name after ARG''
                (''ARG takes a name with an optional default '' @ EM_DASH @ '' e.g. `ARG VERSION=1.0`''))
       (\<lambda>name_tok p.
         case key_text name_tok p of
           None \<Rightarrow> fail (Diagnostic_error ''expected argument name after ARG''
                     (Annotation_new (tk_span name_tok) ''expected an identifier'')) p
         | Some name_text \<Rightarrow>
             andThen (validated name_text (tk_span name_tok) ''ARG'' ''name'' new_EnvVarName) (\<lambda>name p.
               if peek_punct p = Some PEquals then
                 andThen (advance_or_err ''expected default value after `=`''
                            ''ARG default can be an identifier or quoted string'')
                   (\<lambda>val_tok p.
                     case value_text val_tok of
                       None \<Rightarrow> fail (Diagnostic_error ''expected default value''
                                 (Annotation_new (tk_span val_tok) ''expected identifier, number, or string'')) p
                     | Some first_text \<Rightarrow>
                         (case splice_value val_tok first_text p of
                            ((val_text, e), p') \<Rightarrow>
                              andThen (validated val_text (Span_new (sp_start (tk_span val_tok)) e)
                                         ''ARG'' ''default'' new_EnvVarValue)
                                (\<lambda>dflt. finish_arg start name (Some dflt) e) p'))
                   (snd (advance p))
               else finish_arg start name None (sp_end (sd_span name)) p) p)"

definition removed_directive :: "Span \<Rightarrow> string \<Rightarrow> string \<Rightarrow> Directive parse" where
  "removed_directive span name replacement =
     fail (with_hint replacement
       (Diagnostic_error (''`'' @ name @ ''` is not a UMF directive'')
         (Annotation_new span ''not a directive'')))"



section \<open>String arrays\<close>

text \<open>
  The loop shared by \<open>parse_string_array\<close> and \<open>parse_entrypoint_exec\<close>, which differ in the texts:
  \<open>what\<close> names the form, \<open>each\<close> annotates an element that is not a string.
\<close>

function array_loop ::
  "string \<Rightarrow> string \<Rightarrow> string \<Rightarrow> string Spanned list \<Rightarrow> (string Spanned list \<times> nat) parse" where
  "array_loop what hint each items p =
     (case advance_or_err (''expected string in '' @ what) hint p of
        (None, p1) \<Rightarrow> (None, p1)
      | (Some tok, p1) \<Rightarrow>
          (case tk_kind tok of
             TkString s \<Rightarrow>
               (case advance_or_err (''expected `,` or `]` in '' @ what) hint p1 of
                  (None, p2) \<Rightarrow> (None, p2)
                | (Some sep, p2) \<Rightarrow>
                    if tk_kind sep = TkPunct PComma
                    then array_loop what hint each (items @ [Spanned_new s (tk_span tok)]) p2
                    else if tk_kind sep = TkPunct PRBracket
                    then (Some (items @ [Spanned_new s (tk_span tok)], sp_end (tk_span sep)), p2)
                    else fail (Diagnostic_error (''expected `,` or `]` in '' @ what)
                           (Annotation_new (tk_span sep) ''unexpected token here'')) p2)
           | _ \<Rightarrow> fail (Diagnostic_error (''expected quoted string in '' @ what)
                    (Annotation_new (tk_span tok) each)) p1))"
  by pat_completeness auto

lemma advance_or_err_Some:
  assumes "advance_or_err m h p = (Some t, q)"
  shows "p_pos p < length (p_tokens p)" "t = p_tokens p ! p_pos p" "q = p \<lparr> p_pos := p_pos p + 1 \<rparr>"
    "tk_kind t \<noteq> TkNewline"
  using assms
  by (auto simp: advance_or_err_def advance_def fail_def p_peek_Some split: option.splits if_splits)

lemma advance_or_err_twice_left:
  assumes "(Some t, q) = advance_or_err m h p" and "(Some t', r) = advance_or_err m' h' q"
  shows "length (p_tokens r) - p_pos r < length (p_tokens p) - p_pos p"
  using advance_or_err_Some [OF assms(1) [symmetric]] advance_or_err_Some [OF assms(2) [symmetric]]
  by simp

termination array_loop
  by (relation "measure (\<lambda>(_, _, _, _, p). length (p_tokens p) - p_pos p)")
     (auto intro: advance_or_err_twice_left)

definition parse_string_array :: "string \<Rightarrow> (string Spanned list \<times> nat) parse" where
  "parse_string_array directive =
     andThen advance (\<lambda>lbracket p.
       if peek_kind p = Some (TkPunct PRBracket) then
         andThen advance (\<lambda>tok.
           fail (Diagnostic_error (directive @ '' array form requires at least one element'')
             (Annotation_new (Span_new (sp_start (tk_span lbracket)) (sp_end (tk_span tok)))
               ''expected a quoted string before `]`''))) p
       else
         array_loop (directive @ '' array form'') ''array form: [\"a\", \"b\", ...]''
           ''each element must be a quoted string'' [] p)"


section \<open>Build steps\<close>

definition finish_shell :: "nat \<Rightarrow> string Spanned list \<Rightarrow> nat \<Rightarrow> Directive parse" where
  "finish_shell start argv e p =
     (Some (DirShell \<lparr> sh_argv = argv, sh_span = Span_new start e \<rparr>), expect_newline_after ''SHELL'' p)"

definition parse_shell :: "nat \<Rightarrow> Directive parse" where
  "parse_shell start p =
     (if peek_kind p = Some (TkPunct PLBracket) then
        andThen (parse_string_array ''SHELL'') (\<lambda>(argv, e). finish_shell start argv e) p
      else
        andThen (expect_ident_arg ''SHELL'') (\<lambda>(text, span).
          if text = ''bash''
          then finish_shell start (shell_keyword_argv [''/bin/bash'', ''-c''] span) (sp_end span)
          else if text = ''sh''
          then finish_shell start (shell_keyword_argv [''/bin/sh'', ''-c''] span) (sp_end span)
          else if text = ''powershell''
          then finish_shell start (shell_keyword_argv [''powershell'', ''-command''] span) (sp_end span)
          else if text = ''none'' then finish_shell start [] (sp_end span)
          else fail (Diagnostic_error (''unknown SHELL value `'' @ text @ ''`'')
            (Annotation_new span (''SHELL accepts `bash`, `sh`, `powershell`, `none`, or an exec array '' @
                                  ''like `[\"/bin/bash\", \"-c\"]`'')))) p)"

definition parse_user :: "nat \<Rightarrow> Directive parse" where
  "parse_user start =
     andThen (expect_ident_arg ''USER'') (\<lambda>(text, span).
       andThen (validated text span ''USER'' ''name'' new_Username) (\<lambda>name p.
         (Some (DirUser \<lparr> us_name = name, us_span = Span_new start (sp_end span) \<rparr>),
          expect_newline_after ''USER'' p)))"

definition parse_workdir :: "nat \<Rightarrow> Directive parse" where
  "parse_workdir start =
     andThen (expect_ident_arg ''WORKDIR'') (\<lambda>(text, span).
       andThen (validated text span ''WORKDIR'' ''path'' new_RecipePath) (\<lambda>path p.
         (Some (DirWorkdir \<lparr> wd_path = path, wd_span = Span_new start (sp_end span) \<rparr>),
          expect_newline_after ''WORKDIR'' p)))"

text \<open>The \<open>while let\<close> loop over the long options of \<open>RUN\<close>.\<close>

function run_mounts :: "RunMount list \<Rightarrow> RunMount list parse" where
  "run_mounts mounts p =
     (case peek_kind p of
        Some (TkLongOption name _) \<Rightarrow>
          if name \<noteq> ''mount'' then
            fail (with_hint ''`RUN` accepts `--mount=type=secret,id=<id>,target=<path>`''
              (Diagnostic_error (''unsupported RUN option `--'' @ name @ ''`'')
                (Annotation_new (current_or_eof_span p) ''not supported''))) p
          else
            (case advance p of
               (None, p') \<Rightarrow> (None, p')
             | (Some tok, p') \<Rightarrow>
                 (case tk_kind tok of
                    TkLongOption _ (Some v) \<Rightarrow>
                      (case parse_run_mount_value v (tk_span tok) of
                         Inr m \<Rightarrow> run_mounts (mounts @ [m]) p'
                       | Inl diag \<Rightarrow> fail diag p')
                  | TkLongOption _ None \<Rightarrow>
                      fail (with_hint (''example: `RUN --mount=type=secret,id=k,target=/run/secrets/k '' @
                                       ''cat /run/secrets/k`'')
                        (Diagnostic_error ''RUN --mount requires a value''
                          (Annotation_new (tk_span tok) ''expected --mount=type=<kind>,...''))) p'
                  | _ \<Rightarrow> run_mounts mounts p'))
      | _ \<Rightarrow> (Some mounts, p))"
  by pat_completeness auto

lemma advance_Some_left:
  "(Some t, q) = advance p \<Longrightarrow> length (p_tokens q) - p_pos q < length (p_tokens p) - p_pos p"
  by (auto simp: advance_def split: option.splits dest!: p_peek_bound)

termination run_mounts
  by (relation "measure (\<lambda>(_, p). length (p_tokens p) - p_pos p)") (auto intro: advance_Some_left)

definition parse_run :: "nat \<Rightarrow> Directive parse" where
  "parse_run start =
     andThen (run_mounts []) (\<lambda>mounts p.
       case p_peek p of
         None \<Rightarrow>
           fail (Diagnostic_error ''expected command after RUN''
             (Annotation_new (eof_span p) ''RUN must be followed by a command'')) p
       | Some first_tok \<Rightarrow>
           if tk_kind first_tok = TkNewline then
             fail (Diagnostic_error ''expected command after RUN''
               (Annotation_new (tk_span first_tok) ''RUN must be followed by a command'')) p
           else if tk_kind first_tok = TkPunct PLBracket then
             andThen (parse_string_array ''RUN'') (\<lambda>(argv, e) p.
               (Some (DirRun \<lparr> rn_command = RunExec argv, rn_mounts = mounts, rn_span = Span_new start e \<rparr>),
                expect_newline_after ''RUN'' p)) p
           else
             let cmd_start = sp_start (tk_span first_tok)
             in case slurp_line cmd_start p of
                  (cmd_end, p') \<Rightarrow>
                    (Some (DirRun
                       \<lparr> rn_command = RunShell (Spanned_new (slice (p_source p') cmd_start cmd_end)
                                                  (Span_new cmd_start cmd_end)),
                         rn_mounts = mounts, rn_span = Span_new start cmd_end \<rparr>),
                     expect_newline_after ''RUN'' p'))"

text \<open>The \<open>while let\<close> loop over the long options of \<open>ADD\<close> and \<open>COPY\<close>; only \<open>--from\<close> is accepted.\<close>

definition bad_add_option :: "string \<Rightarrow> string \<Rightarrow> Span \<Rightarrow> Diagnostic" where
  "bad_add_option verb name span =
     with_hint
       (if name = ''chown'' \<or> name = ''chmod''
        then ''`'' @ verb @ '' --'' @ name @
             ''` is not implemented yet; set ownership or mode in a following `RUN chown '' @
             ELLIPSIS @ ''` / `RUN chmod '' @ ELLIPSIS @ ''` step''
        else ''`'' @ verb @ ''` accepts `--from=<stage>`'')
       (Diagnostic_error (''unsupported '' @ verb @ '' option `--'' @ name @ ''`'')
         (Annotation_new span ''not supported''))"

function add_options :: "string \<Rightarrow> StageName Spanned option \<Rightarrow> StageName Spanned option parse" where
  "add_options verb from p =
     (case peek_kind p of
        Some (TkLongOption _ _) \<Rightarrow>
          (case advance p of
             (None, p') \<Rightarrow> (None, p')
           | (Some tok, p') \<Rightarrow>
               (case tk_kind tok of
                  TkLongOption name val \<Rightarrow>
                    if name \<noteq> ''from'' then
                      fail (bad_add_option verb name (tk_span tok)) p'
                    else
                      (case val of
                         None \<Rightarrow>
                           fail (with_hint (''example: `'' @ verb @ '' --from=builder /src /dst`'')
                             (Diagnostic_error (verb @ '' --from requires a value'')
                               (Annotation_new (tk_span tok) ''expected --from=<stage>''))) p'
                       | Some v \<Rightarrow>
                           (case validated v (tk_span tok) verb ''--from stage name'' new_StageName p' of
                              (None, p'') \<Rightarrow> (None, p'')
                            | (Some n, p'') \<Rightarrow> add_options verb (Some n) p''))
                | _ \<Rightarrow> add_options verb from p'))
      | _ \<Rightarrow> (Some from, p))"
  by pat_completeness auto

lemma validated_Some: "validated raw sp d l new p = (Some v, q) \<Longrightarrow> q = p"
  by (auto simp: validated_def fail_def split: sum.splits)

lemma advance_validated_left:
  assumes "(Some t, q) = advance p" and "(Some n, r) = validated raw sp d l new q"
  shows "length (p_tokens r) - p_pos r < length (p_tokens p) - p_pos p"
  using advance_Some_left [OF assms(1)] validated_Some [OF assms(2) [symmetric]] by simp

termination add_options
  by (relation "measure (\<lambda>(_, _, p). length (p_tokens p) - p_pos p)")
     (auto intro: advance_Some_left advance_validated_left [OF _ sym] split: prod.split)

text \<open>How the text of an \<open>ADD\<close> source is classified.\<close>

definition add_source :: "string \<Rightarrow> string \<Rightarrow> Span \<Rightarrow> AddSource parse" where
  "add_source verb src_text span p =
     (case (case strip_prefix src_text ''oci://'' of
              Some rest \<Rightarrow> Some rest
            | None \<Rightarrow> strip_prefix src_text ''https+oci://'') of
        Some rest \<Rightarrow>
          andThen (validated rest span verb ''OCI image reference'' new_OciReference)
            (\<lambda>r p. (Some (AddOci r), p)) p
      | None \<Rightarrow>
          if starts_with src_text ''http://'' \<or> starts_with src_text ''https://'' then
            andThen (validated src_text span verb ''source URL'' new_HttpsUrl)
              (\<lambda>u p. (Some (AddUrl u), p)) p
          else if is_local_path src_text then (Some (AddPath (Spanned_new src_text span)), p)
          else if looks_like_oci_ref src_text then
            andThen (validated src_text span verb ''OCI image reference'' new_OciReference)
              (\<lambda>r p. (Some (AddOci r), p)) p
          else (Some (AddPath (Spanned_new src_text span)), p))"

definition path_text :: "Token \<Rightarrow> string option" where
  "path_text tok = (case tk_kind tok of TkIdent s \<Rightarrow> Some s | TkString s \<Rightarrow> Some s | _ \<Rightarrow> None)"

definition parse_add :: "nat \<Rightarrow> bool \<Rightarrow> Directive parse" where
  "parse_add start plain_copy =
     (let verb = (if plain_copy then ''COPY'' else ''ADD'')
      in andThen (add_options verb None) (\<lambda>from.
         andThen (advance_or_err (''expected source after '' @ verb) (verb @ '' takes <source> <destination>''))
           (\<lambda>src_tok.
         case path_text src_tok of
           None \<Rightarrow> fail (Diagnostic_error (''expected source path after '' @ verb)
                     (Annotation_new (tk_span src_tok) ''expected identifier or string''))
         | Some src_text \<Rightarrow>
         andThen (add_source verb src_text (tk_span src_tok)) (\<lambda>source.
         andThen (advance_or_err ''expected destination after source''
                    (verb @ '' takes <source> <destination>'')) (\<lambda>dst_tok.
         case path_text dst_tok of
           None \<Rightarrow> fail (Diagnostic_error ''expected destination path after source''
                     (Annotation_new (tk_span dst_tok) ''expected identifier or string''))
         | Some dst_text \<Rightarrow>
         andThen (validated dst_text (tk_span dst_tok) verb ''destination'' new_RecipePath) (\<lambda>destination p.
           (Some (DirAdd \<lparr> ad_source = source, ad_destination = destination, ad_from = from,
                           ad_plain_copy = plain_copy,
                           ad_span = Span_new start (sp_end (sd_span destination)) \<rparr>),
            expect_newline_after verb p)))))))"


section \<open>Runtime-config directives\<close>

definition parse_entrypoint_shell_path :: "parser \<Rightarrow> (EntrypointInit \<times> nat) \<times> parser" where
  "parse_entrypoint_shell_path p =
     (let cmd_start = (case p_peek p of Some t \<Rightarrow> sp_start (tk_span t) | None \<Rightarrow> sp_start (eof_span p))
      in case slurp_line cmd_start p of
           (cmd_end, p') \<Rightarrow>
             ((InitPath (Spanned_new (slice (p_source p') cmd_start cmd_end) (Span_new cmd_start cmd_end)),
               cmd_end), p'))"

definition parse_entrypoint_exec :: "(EntrypointInit \<times> nat) parse" where
  "parse_entrypoint_exec =
     andThen advance (\<lambda>lbracket p.
       if peek_kind p = Some (TkPunct PRBracket) then
         andThen advance (\<lambda>tok.
           fail (Diagnostic_error ''ENTRYPOINT exec form requires at least one argument''
             (Annotation_new (Span_new (sp_start (tk_span lbracket)) (sp_end (tk_span tok)))
               ''expected a quoted string before `]`''))) p
       else
         andThen (array_loop ''ENTRYPOINT exec form'' ''ENTRYPOINT exec form: [\"argv0\", \"argv1\", ...]''
             ''each argv entry must be a quoted string'' [])
           (\<lambda>(argv, e) p. (Some (InitExec argv, e), p)) p)"

definition entrypoint_keyword :: "string \<Rightarrow> (EntrypointInit \<times> nat) parse" where
  "entrypoint_keyword s =
     andThen advance (\<lambda>tok.
       if s = ''systemd'' then (\<lambda>p. (Some (InitSystemd, sp_end (tk_span tok)), p))
       else if s = ''openrc'' then (\<lambda>p. (Some (InitOpenRc, sp_end (tk_span tok)), p))
       else if s = ''none'' then (\<lambda>p. (Some (InitNone, sp_end (tk_span tok)), p))
       else fail (with_hint
              (''to run a binary as PID 1, use a leading `/` (e.g. `ENTRYPOINT /myapp`) or exec form '' @
               ''`ENTRYPOINT [\"/myapp\", ...]`'')
              (Diagnostic_error (''unknown ENTRYPOINT value `'' @ s @ ''`'')
                (Annotation_new (tk_span tok) ''ENTRYPOINT keyword must be `systemd`, `openrc`, or `none`''))))"

definition entrypoint_init :: "TokenKind \<Rightarrow> (EntrypointInit \<times> nat) parse" where
  "entrypoint_init first_kind =
     (case first_kind of
        TkPunct PLBracket \<Rightarrow> parse_entrypoint_exec
      | TkIdent s \<Rightarrow>
          if starts_with s ''/''
          then (\<lambda>p. case parse_entrypoint_shell_path p of (r, p') \<Rightarrow> (Some r, p'))
          else entrypoint_keyword s
      | _ \<Rightarrow> andThen advance (\<lambda>tok.
               fail (Diagnostic_error ''expected ENTRYPOINT argument''
                 (Annotation_new (tk_span tok) ''expected `systemd`/`openrc`/`none`, a `/path`, or exec form''))))"

definition parse_entrypoint :: "nat \<Rightarrow> Directive parse" where
  "parse_entrypoint start p =
     (if peek_kind p = None \<or> peek_kind p = Some TkNewline then
        fail (with_hint (''accepted: `systemd` | `openrc` | `none` | `/path/to/bin [args]` | '' @
                         ''`[\"argv0\", ...]`'')
          (Diagnostic_error ''expected argument after ENTRYPOINT''
            (Annotation_new (current_or_eof_span p) ''ENTRYPOINT requires a value''))) p
      else
        andThen (entrypoint_init (the (peek_kind p))) (\<lambda>(i, e) p.
          (Some (DirEntrypoint \<lparr> ep_init = i, ep_span = Span_new start e \<rparr>),
           expect_newline_after ''ENTRYPOINT'' p)) p)"

definition finish_cmd :: "nat \<Rightarrow> CmdForm \<Rightarrow> nat \<Rightarrow> Directive parse" where
  "finish_cmd start command e p =
     (Some (DirCmd \<lparr> cm_command = command, cm_span = Span_new start e \<rparr>), expect_newline_after ''CMD'' p)"

definition parse_cmd :: "nat \<Rightarrow> Directive parse" where
  "parse_cmd start p =
     (case p_peek p of
        None \<Rightarrow>
          fail (with_hint ''`CMD <command>` (shell form) or `CMD [\"argv0\", ...]` (exec form)''
            (Diagnostic_error ''expected a command after CMD''
              (Annotation_new (current_or_eof_span p) ''CMD requires a value''))) p
      | Some t \<Rightarrow>
          if tk_kind t = TkNewline then
            fail (with_hint ''`CMD <command>` (shell form) or `CMD [\"argv0\", ...]` (exec form)''
              (Diagnostic_error ''expected a command after CMD''
                (Annotation_new (current_or_eof_span p) ''CMD requires a value''))) p
          else if tk_kind t = TkPunct PLBracket then
            andThen (parse_string_array ''CMD'') (\<lambda>(argv, e). finish_cmd start (CmdExec argv) e) p
          else
            let cmd_start = sp_start (tk_span t)
            in case slurp_line cmd_start p of
                 (cmd_end, p') \<Rightarrow>
                   finish_cmd start
                     (CmdShell (Spanned_new (slice (p_source p') cmd_start cmd_end) (Span_new cmd_start cmd_end)))
                     cmd_end p')"

function volume_loop :: "string Spanned list \<Rightarrow> nat \<Rightarrow> (string Spanned list \<times> nat) parse" where
  "volume_loop paths e p =
     (case p_peek p of
        None \<Rightarrow> (Some (paths, e), p)
      | Some tok \<Rightarrow>
          if tk_kind tok = TkNewline then (Some (paths, e), p)
          else
            (case path_text tok of
               Some s \<Rightarrow>
                 volume_loop (paths @ [Spanned_new s (tk_span tok)]) (sp_end (tk_span tok)) (snd (advance p))
             | None \<Rightarrow>
                 fail (Diagnostic_error ''expected a path after VOLUME''
                   (Annotation_new (tk_span tok) ''VOLUME takes mount-point paths'')) p))"
  by pat_completeness auto

termination volume_loop
  by (relation "measure (\<lambda>(_, _, p). length (p_tokens p) - p_pos p)") (auto intro: advance_left)

definition parse_volume :: "nat \<Rightarrow> Directive parse" where
  "parse_volume start p =
     (if peek_kind p = None \<or> peek_kind p = Some TkNewline then
        fail (Diagnostic_error ''expected a path after VOLUME''
          (Annotation_new (current_or_eof_span p) ''VOLUME requires at least one mount point'')) p
      else
        andThen
          (if peek_kind p = Some (TkPunct PLBracket) then parse_string_array ''VOLUME''
           else volume_loop [] start)
          (\<lambda>(paths, e) p.
             (Some (DirVolume \<lparr> vo_paths = paths, vo_span = Span_new start e \<rparr>),
              expect_newline_after ''VOLUME'' p)) p)"

definition signal_text :: "Token \<Rightarrow> string option" where
  "signal_text tok =
     (case tk_kind tok of TkIdent s \<Rightarrow> Some s | TkNumber n \<Rightarrow> Some (show_nat (unat n)) | _ \<Rightarrow> None)"

definition parse_stopsignal :: "nat \<Rightarrow> Directive parse" where
  "parse_stopsignal start =
     andThen (advance_or_err ''expected a signal after STOPSIGNAL'' ''e.g. `STOPSIGNAL SIGTERM` or `STOPSIGNAL 15`'')
       (\<lambda>tok p.
         case signal_text tok of
           None \<Rightarrow> fail (Diagnostic_error ''expected a signal after STOPSIGNAL''
                     (Annotation_new (tk_span tok) ''expected a signal name or number'')) p
         | Some signal \<Rightarrow>
             (Some (DirStopsignal \<lparr> ss_signal = Spanned_new signal (tk_span tok),
                                    ss_span = Span_new start (sp_end (tk_span tok)) \<rparr>),
              expect_newline_after ''STOPSIGNAL'' p))"

definition expose_protocol :: "u16 \<Rightarrow> Span \<Rightarrow> Token \<Rightarrow> (u16 \<times> ExposeProtocol \<times> Span) parse" where
  "expose_protocol port port_span proto_tok =
     (case tk_kind proto_tok of
        TkIdent proto_text \<Rightarrow>
          let stripped = (case strip_prefix proto_text ''/'' of Some r \<Rightarrow> r | None \<Rightarrow> proto_text);
              span = Span_new (sp_start port_span) (sp_end (tk_span proto_tok))
          in if stripped = ''tcp'' then (\<lambda>p. (Some (port, Tcp, span), p))
             else if stripped = ''udp'' then (\<lambda>p. (Some (port, Udp, span), p))
             else fail (Diagnostic_error (''unknown protocol `'' @ stripped @ ''`'')
                    (Annotation_new (tk_span proto_tok) ''EXPOSE accepts `/tcp` or `/udp`''))
      | _ \<Rightarrow> fail (Diagnostic_error ''expected `/<protocol>` after port''
               (Annotation_new (tk_span proto_tok) ''expected `/tcp` or `/udp`'')))"

text \<open>One entry, from the point where the port token has been read.\<close>

definition expose_port :: "Token \<Rightarrow> (u16 \<times> ExposeProtocol \<times> Span) parse" where
  "expose_port port_tok p =
     (case tk_kind port_tok of
        TkNumber n \<Rightarrow>
          if n \<le> 65535 then
            (if (case peek_kind p of Some (TkIdent s) \<Rightarrow> starts_with s ''/'' | _ \<Rightarrow> False) then
               andThen (advance_or_err ''expected `/<protocol>` after port''
                          ''EXPOSE syntax: `EXPOSE <port>/<protocol>`'')
                 (expose_protocol (ucast n) (tk_span port_tok)) p
             else (Some (ucast n, Tcp, tk_span port_tok), p))
          else
            fail (Diagnostic_error (''port '' @ show_nat (unat n) @ '' out of range'')
              (Annotation_new (tk_span port_tok) ''ports must fit in u16 (0..=65535)'')) p
      | _ \<Rightarrow> fail (Diagnostic_error ''expected port number after EXPOSE''
               (Annotation_new (tk_span port_tok) ''expected a number'')) p)"

definition parse_expose_entry :: "(u16 \<times> ExposeProtocol \<times> Span) parse" where
  "parse_expose_entry =
     andThen (advance_or_err ''expected port number after EXPOSE''
                (''EXPOSE takes `<port>[/<protocol>]` '' @ EM_DASH @ '' e.g. `EXPOSE 80` or `EXPOSE 80/tcp`''))
       expose_port"

text \<open>The laws of one entry; its progress is what the loop over entries rests on.\<close>

context parser_rel
begin

lemma expose_protocol_keeps: "keeps (expose_protocol port sp t) p"
  unfolding expose_protocol_def
  by (auto simp: Let_def keeps_ok keeps_fail split: TokenKind.split)

lemma expose_port_keeps: "keeps (expose_port t) p"
proof -
  have proto: "keeps (andThen (advance_or_err m h) (expose_protocol a b)) p" for m h a b
    by (intro keeps_andThen advance_or_err_keeps expose_protocol_keeps)
  show ?thesis
    using proto by (cases "tk_kind t") (auto simp: keeps_def expose_port_def fail_def err refl)
qed

lemma parse_expose_entry_keeps: "keeps parse_expose_entry p"
  unfolding parse_expose_entry_def
  by (intro keeps_andThen advance_or_err_keeps expose_port_keeps)

end

lemma parse_expose_entry_forward: "forward parse_expose_entry p"
  unfolding parse_expose_entry_def
  by (rule forward_andThen [OF advance_or_err_forward frame.expose_port_keeps])

definition is_number :: "TokenKind option \<Rightarrow> bool" where
  "is_number k = (case k of Some (TkNumber _) \<Rightarrow> True | _ \<Rightarrow> False)"

lemma is_number_bound: "is_number (peek_kind p) \<Longrightarrow> p_pos p < length (p_tokens p)"
  by (cases "peek_kind p") (auto simp: is_number_def dest: peek_kind_bound)

function expose_loop :: "nat \<Rightarrow> Directive list \<Rightarrow> Directive list parse" where
  "expose_loop start built p =
     (case parse_expose_entry p of
        (None, p') \<Rightarrow> (None, p')
      | (Some (port, protocol, espan), p') \<Rightarrow>
          let span = (if built = [] then Span_new start (sp_end espan) else espan);
              built' = built @ [DirExpose \<lparr> ex_port = port, ex_protocol = protocol, ex_span = span \<rparr>]
          in if is_number (peek_kind p') then expose_loop start built' p' else (Some built', p'))"
  by pat_completeness auto

termination expose_loop
  by (relation "measure (\<lambda>(_, _, p). length (p_tokens p) - p_pos p)")
     (auto intro: forward_left [OF frame.parse_expose_entry_keeps parse_expose_entry_forward sym] is_number_bound)

definition parse_expose :: "nat \<Rightarrow> Directive parse" where
  "parse_expose start =
     andThen (expose_loop start []) (\<lambda>built p.
       take_first_queue_rest built (expect_newline_after ''EXPOSE'' p))"


section \<open>Dispatch\<close>

definition parse_keyword :: "Keyword \<Rightarrow> Span \<Rightarrow> Directive parse" where
  "parse_keyword kw span =
     (let start = sp_start span
      in case kw of
        KwFrom \<Rightarrow> fail (Diagnostic_error ''unexpected FROM inside a stage''
                    (Annotation_new span ''FROM starts a new stage and cannot be nested''))
      | KwAs \<Rightarrow> fail (Diagnostic_error ''AS is only valid in a FROM clause''
                  (Annotation_new span ''remove or move into the FROM line''))
      | KwLabel \<Rightarrow> parse_label start
      | KwEnv \<Rightarrow> parse_env start
      | KwArg \<Rightarrow> parse_arg start
      | KwBootloader \<Rightarrow> removed_directive span ''BOOTLOADER''
          ''set boot packaging with `LABEL org.imagilux.umf.flavor=systemd-boot|uki` instead''
      | KwRootfs \<Rightarrow> removed_directive span ''ROOTFS''
          ''add the userland with `ADD --from=<ref> / /` instead''
      | KwShell \<Rightarrow> parse_shell start
      | KwUser \<Rightarrow> parse_user start
      | KwWorkdir \<Rightarrow> parse_workdir start
      | KwRun \<Rightarrow> parse_run start
      | KwAdd \<Rightarrow> parse_add start False
      | KwCopy \<Rightarrow> parse_add start True
      | KwEntrypoint \<Rightarrow> parse_entrypoint start
      | KwExpose \<Rightarrow> parse_expose start
      | KwEnable \<Rightarrow> removed_directive span ''ENABLE''
          (''enable the unit directly instead: `ADD`/`COPY` the `.service` file (or let the '' @
           ''package manager place it), or `RUN systemctl enable <unit>`'')
      | KwDisable \<Rightarrow> removed_directive span ''DISABLE''
          ''act on the unit directly instead: remove/mask it, or `RUN systemctl disable <unit>`''
      | KwHostname \<Rightarrow> removed_directive span ''HOSTNAME''
          ''set the hostname at first boot with cloud-init / ignition instead''
      | KwLocale \<Rightarrow> removed_directive span ''LOCALE''
          ''set the locale at first boot with cloud-init / ignition instead''
      | KwTimezone \<Rightarrow> removed_directive span ''TIMEZONE''
          ''set the timezone at first boot with cloud-init / ignition instead''
      | KwCmd \<Rightarrow> parse_cmd start
      | KwVolume \<Rightarrow> parse_volume start
      | KwStopsignal \<Rightarrow> parse_stopsignal start)"

text \<open>A leading token that is no keyword: a known Dockerfile directive is skipped with a warning.\<close>

definition not_a_keyword :: "Token \<Rightarrow> Directive parse" where
  "not_a_keyword tok p =
     (case (case tk_kind tok of TkIdent name \<Rightarrow> map_option (Pair name) (unsupported_dockerfile_directive name)
            | _ \<Rightarrow> None) of
        Some (name, hint) \<Rightarrow>
          (None, push_warning (with_hint hint
            (Diagnostic_warning (''`'' @ name @ ''` is not supported by umf and is ignored'')
              (Annotation_new (tk_span tok) ''unsupported directive, skipped''))) p)
      | None \<Rightarrow>
          fail (Diagnostic_error ''expected a directive keyword''
            (Annotation_new (tk_span tok) (''found '' @ describe (tk_kind tok) @ '' here''))) p)"

definition parse_directive :: "Directive parse" where
  "parse_directive p =
     (case p_peek p of
        None \<Rightarrow> (None, p)
      | Some tok \<Rightarrow>
          (case tk_kind tok of
             TkKeyword kw \<Rightarrow> parse_keyword kw (tk_span tok) (snd (advance p))
           | _ \<Rightarrow> not_a_keyword tok p))"

end
