(* ===== verification/Grammar_Laws.thy ===== *)
theory Grammar_Laws
  imports Grammar
begin

text \<open>
  Every directive parser keeps the laws of \<open>Parser_Laws\<close>: the generic facts are proved once inside
  the locales, so each holds at once for the frame, for loudness, for severity and for the queue.
\<close>

section \<open>The loops as sequences of steps\<close>

declare key_value_list_loop.simps [simp del] expose_loop.simps [simp del] array_loop.simps [simp del]
  run_mounts.simps [simp del] add_options.simps [simp del] volume_loop.simps [simp del]

lemma key_value_list_loop_step:
  "key_value_list_loop d ps =
     andThen (parse_key_value d) (\<lambda>(k, v, _) q.
       if is_ident (peek_kind q) then key_value_list_loop d (ps @ [(k, v)]) q
       else (Some (ps @ [(k, v)]), q))"
  by (rule ext, subst key_value_list_loop.simps) (simp add: andThen_def split: prod.split option.split)

lemma expose_loop_step:
  "expose_loop start built =
     andThen parse_expose_entry (\<lambda>(port, protocol, espan) q.
       let d = DirExpose \<lparr> ex_port = port, ex_protocol = protocol,
                 ex_span = (if built = [] then Span_new start (sp_end espan) else espan) \<rparr>
       in if is_number (peek_kind q) then expose_loop start (built @ [d]) q
          else (Some (built @ [d]), q))"
  by (rule ext, subst expose_loop.simps) (simp add: andThen_def Let_def split: prod.split option.split)

lemma array_loop_step:
  "array_loop what hint each items =
     andThen (advance_or_err (''expected string in '' @ what) hint) (\<lambda>tok.
       case tk_kind tok of
         TkString s \<Rightarrow>
           andThen (advance_or_err (''expected `,` or `]` in '' @ what) hint) (\<lambda>sep.
             if tk_kind sep = TkPunct PComma
             then array_loop what hint each (items @ [Spanned_new s (tk_span tok)])
             else if tk_kind sep = TkPunct PRBracket
             then (\<lambda>q. (Some (items @ [Spanned_new s (tk_span tok)], sp_end (tk_span sep)), q))
             else fail (Diagnostic_error (''expected `,` or `]` in '' @ what)
                    (Annotation_new (tk_span sep) ''unexpected token here'')))
       | _ \<Rightarrow> fail (Diagnostic_error (''expected quoted string in '' @ what)
                (Annotation_new (tk_span tok) each)))"
  by (rule ext, subst array_loop.simps) (auto simp: andThen_def split: prod.split option.split TokenKind.split)

lemma run_mounts_step:
  "run_mounts ms p =
     (case peek_kind p of
        Some (TkLongOption name _) \<Rightarrow>
          if name \<noteq> ''mount'' then
            fail (with_hint ''`RUN` accepts `--mount=type=secret,id=<id>,target=<path>`''
              (Diagnostic_error (''unsupported RUN option `--'' @ name @ ''`'')
                (Annotation_new (current_or_eof_span p) ''not supported''))) p
          else
            andThen advance (\<lambda>tok.
              case tk_kind tok of
                TkLongOption _ (Some v) \<Rightarrow>
                  (case parse_run_mount_value v (tk_span tok) of
                     Inr m \<Rightarrow> run_mounts (ms @ [m])
                   | Inl diag \<Rightarrow> fail diag)
              | TkLongOption _ None \<Rightarrow>
                  fail (with_hint (''example: `RUN --mount=type=secret,id=k,target=/run/secrets/k '' @
                                   ''cat /run/secrets/k`'')
                    (Diagnostic_error ''RUN --mount requires a value''
                      (Annotation_new (tk_span tok) ''expected --mount=type=<kind>,...'')))
              | _ \<Rightarrow> run_mounts ms) p
      | _ \<Rightarrow> (Some ms, p))"
  by (subst run_mounts.simps)
     (auto simp: andThen_def split: prod.split option.split TokenKind.split sum.split)

lemma parse_run_mount_value_severity:
  "parse_run_mount_value v sp = Inl d \<Longrightarrow> dg_severity d = SevError"
  by (auto simp: parse_run_mount_value_def split: prod.splits option.splits if_splits sum.splits)

lemma add_options_step:
  "add_options verb from p =
     (case peek_kind p of
        Some (TkLongOption _ _) \<Rightarrow>
          andThen advance (\<lambda>tok.
            case tk_kind tok of
              TkLongOption name val \<Rightarrow>
                if name \<noteq> ''from'' then fail (bad_add_option verb name (tk_span tok))
                else
                  (case val of
                     None \<Rightarrow>
                       fail (with_hint (''example: `'' @ verb @ '' --from=builder /src /dst`'')
                         (Diagnostic_error (verb @ '' --from requires a value'')
                           (Annotation_new (tk_span tok) ''expected --from=<stage>'')))
                   | Some v \<Rightarrow>
                       andThen (validated v (tk_span tok) verb ''--from stage name'' new_StageName)
                         (\<lambda>n. add_options verb (Some n)))
            | _ \<Rightarrow> add_options verb from) p
      | _ \<Rightarrow> (Some from, p))"
  by (subst add_options.simps)
     (auto simp: andThen_def split: prod.split option.split TokenKind.split)


section \<open>The directives under any law\<close>

context parser_rel
begin

lemma keeps_if_state:
  "(c p \<Longrightarrow> keeps f p) \<Longrightarrow> (\<not> c p \<Longrightarrow> keeps g p) \<Longrightarrow> keeps (\<lambda>p. if c p then f p else g p) p"
  by (simp add: keeps_def)

lemma key_value_list_loop_keeps: "keeps (key_value_list_loop d ps) p"
proof (induction d ps p rule: key_value_list_loop.induct)
  case (1 d ps p)
  show ?case
  proof (subst key_value_list_loop_step, rule keeps_andThen [OF parse_key_value_keeps])
    fix a q assume a: "parse_key_value d p = (Some a, q)"
    obtain k v e where kve: "a = (k, v, e)" by (cases a)
    have "is_ident (peek_kind q) \<Longrightarrow> keeps (key_value_list_loop d (ps @ [(k, v)])) q"
      by (rule 1 [OF a [symmetric]]) (simp_all add: kve)
    then show "keeps (case a of (k, v, x) \<Rightarrow> \<lambda>q. if is_ident (peek_kind q)
        then key_value_list_loop d (ps @ [(k, v)]) q else (Some (ps @ [(k, v)]), q)) q"
      by (simp add: kve keeps_def refl)
  qed
qed

lemma build_labels_keeps: "keeps (build_labels start i ps) p"
  by (induction start i ps arbitrary: p rule: build_labels.induct)
     (auto intro!: keeps_ok keeps_andThen validated_keeps)

lemma build_envs_keeps: "keeps (build_envs start i ps) p"
  by (induction start i ps arbitrary: p rule: build_envs.induct)
     (auto intro!: keeps_ok keeps_andThen validated_keeps)

lemma finish_arg_keeps: "keeps (finish_arg start name dflt e) p"
proof -
  have "Q False p (push_warning d (expect_newline_after ''ARG'' p))" if "dg_severity d = SevWarning" for d
    by (rule trans_ok [OF expect_newline_after_Q recover [OF warn [OF that]]])
  then show ?thesis using expect_newline_after_Q by (simp add: keeps_def finish_arg_def Let_def)
qed

lemma expose_loop_keeps: "keeps (expose_loop start built) p"
proof (induction start built p rule: expose_loop.induct)
  case (1 start built p)
  show ?case
  proof (subst expose_loop_step, rule keeps_andThen [OF parse_expose_entry_keeps])
    fix a q assume a: "parse_expose_entry p = (Some a, q)"
    obtain po pr sp where kve: "a = (po, pr, sp)" by (cases a)
    have "is_number (peek_kind q) \<Longrightarrow> keeps (expose_loop start (built @ [DirExpose \<lparr> ex_port = po,
        ex_protocol = pr, ex_span = (if built = [] then Span_new start (sp_end sp) else sp) \<rparr>])) q"
      by (rule 1 [OF a [symmetric]]) (simp_all add: kve)
    then show "keeps (case a of (port, protocol, espan) \<Rightarrow> \<lambda>q.
        let d = DirExpose \<lparr> ex_port = port, ex_protocol = protocol,
                 ex_span = (if built = [] then Span_new start (sp_end espan) else espan) \<rparr>
        in if is_number (peek_kind q) then expose_loop start (built @ [d]) q
           else (Some (built @ [d]), q)) q"
      by (simp add: kve keeps_def refl Let_def)
  qed
qed

lemma array_step_keeps:
  assumes "\<And>tok s q sep r. advance_or_err m1 h p = (Some tok, q) \<Longrightarrow> tk_kind tok = TkString s \<Longrightarrow>
      advance_or_err m2 h q = (Some sep, r) \<Longrightarrow> tk_kind sep = TkPunct PComma \<Longrightarrow> keeps (F s tok) r"
    and "\<And>sep. dg_severity (d1 sep) = SevError" and "\<And>tok. dg_severity (d2 tok) = SevError"
  shows "keeps (andThen (advance_or_err m1 h) (\<lambda>tok.
       case tk_kind tok of
         TkString s \<Rightarrow>
           andThen (advance_or_err m2 h) (\<lambda>sep.
             if tk_kind sep = TkPunct PComma then F s tok
             else if tk_kind sep = TkPunct PRBracket then (\<lambda>q. (Some (G s tok sep), q))
             else fail (d1 sep))
       | _ \<Rightarrow> fail (d2 tok))) p"
proof (rule keeps_andThen [OF advance_or_err_keeps])
  fix tok q assume tok: "advance_or_err m1 h p = (Some tok, q)"
  have "keeps (andThen (advance_or_err m2 h) (\<lambda>sep.
             if tk_kind sep = TkPunct PComma then F s tok
             else if tk_kind sep = TkPunct PRBracket then (\<lambda>q. (Some (G s tok sep), q))
             else fail (d1 sep))) q" if "tk_kind tok = TkString s" for s
    using assms(1) [OF tok that]
    by (intro keeps_andThen [OF advance_or_err_keeps]) (auto simp: keeps_fail keeps_ok assms(2))
  then show "keeps (case tk_kind tok of
         TkString s \<Rightarrow>
           andThen (advance_or_err m2 h) (\<lambda>sep.
             if tk_kind sep = TkPunct PComma then F s tok
             else if tk_kind sep = TkPunct PRBracket then (\<lambda>q. (Some (G s tok sep), q))
             else fail (d1 sep))
       | _ \<Rightarrow> fail (d2 tok)) q"
    by (cases "tk_kind tok") (simp_all add: keeps_fail assms(3))
qed

lemma array_loop_keeps: "keeps (array_loop what hint each items) p"
proof (induction what hint each items p rule: array_loop.induct)
  case (1 what hint each items p)
  show ?case
    by (subst array_loop_step, rule array_step_keeps)
       (rule 1 [OF sym HOL.refl _ sym HOL.refl], assumption+, (rule severity_builders(1))+)
qed

lemma empty_array_keeps:
  assumes "peek_kind p = Some (TkPunct PRBracket)" and "\<And>tok. dg_severity (d tok) = SevError"
  shows "keeps (andThen advance (\<lambda>tok. fail (d tok))) p"
  using assms by (intro keeps_andThen advance_keeps keeps_fail) (auto simp: peek_kind_def)

lemma parse_string_array_keeps: "p_peek p \<noteq> None \<Longrightarrow> keeps (parse_string_array d) p"
  unfolding parse_string_array_def
  by (intro keeps_andThen advance_keeps keeps_if_state empty_array_keeps array_loop_keeps) simp_all

lemma finish_shell_keeps: "keeps (finish_shell start argv e) p"
  by (simp add: keeps_def finish_shell_def expect_newline_after_Q)

lemma parse_shell_keeps: "keeps (parse_shell start) p"
proof -
  have "p_peek p \<noteq> None" if "peek_kind p = Some k" for k using that by (auto simp: peek_kind_def)
  then show ?thesis
    unfolding parse_shell_def [abs_def]
    by (intro keeps_if_state keeps_andThen keeps_prod parse_string_array_keeps expect_ident_arg_keeps
        finish_shell_keeps) (simp_all add: finish_shell_keeps keeps_fail)
qed

lemma parse_user_keeps: "keeps (parse_user start) p"
  unfolding parse_user_def
  by (intro keeps_andThen keeps_prod expect_ident_arg_keeps validated_keeps keeps_line)

lemma parse_workdir_keeps: "keeps (parse_workdir start) p"
  unfolding parse_workdir_def
  by (intro keeps_andThen keeps_prod expect_ident_arg_keeps validated_keeps keeps_line)

lemma parse_stopsignal_keeps: "keeps (parse_stopsignal start) p"
  unfolding parse_stopsignal_def
  by (intro keeps_andThen advance_or_err_keeps keeps_option keeps_fail keeps_line) simp

lemma run_mounts_keeps: "keeps (run_mounts ms) p"
proof (induction ms p rule: run_mounts.induct)
  case (1 ms p)
  show ?case
  proof (cases "\<exists>name v. peek_kind p = Some (TkLongOption name v)")
    case False
    then have "run_mounts ms p = (Some ms, p)"
      by (subst run_mounts_step) (auto split: option.split TokenKind.split)
    then show ?thesis by (simp add: keeps_def refl)
  next
    case True
    then obtain name v where pk: "peek_kind p = Some (TkLongOption name v)" by blast
    then obtain tok where tok: "p_peek p = Some tok" "tk_kind tok = TkLongOption name v"
      by (auto simp: peek_kind_def)
    define q where "q = p \<lparr> p_pos := p_pos p + 1 \<rparr>"
    have adv: "advance p = (Some tok, q)" using tok by (simp add: advance_def q_def)
    have Q: "Q False p q" using advance_Q [of p] adv by simp
    show ?thesis
    proof (cases "name = ''mount''")
      case False
      then show ?thesis by (simp add: keeps_def run_mounts_step [of ms p] pk fail_def err)
    next
      case name: True
      have ih: "keeps (run_mounts (ms @ [m])) q" if "v = Some w" "parse_run_mount_value w (tk_span tok) = Inr m" for w m
        by (rule 1(6) [OF pk HOL.refl _ adv [symmetric]]) (use that tok name in simp_all)
      have "keeps (case v of
          Some w \<Rightarrow> (case parse_run_mount_value w (tk_span tok) of
                       Inr m \<Rightarrow> run_mounts (ms @ [m]) | Inl diag \<Rightarrow> fail diag)
        | None \<Rightarrow>
            fail (with_hint (''example: `RUN --mount=type=secret,id=k,target=/run/secrets/k '' @
                             ''cat /run/secrets/k`'')
              (Diagnostic_error ''RUN --mount requires a value''
                (Annotation_new (tk_span tok) ''expected --mount=type=<kind>,...'')))) q"
        using ih parse_run_mount_value_severity
        by (cases v) (auto intro!: keeps_fail split: sum.split)
      from keeps_after [OF Q this] show ?thesis
        using name tok adv by (cases v) (simp_all add: law_def run_mounts_step [of ms p] pk andThen_def split: sum.split)
    qed
  qed
qed

lemma add_options_keeps: "keeps (add_options verb from) p"
proof (induction verb "from" p rule: add_options.induct)
  case (1 verb "from" p)
  show ?case
  proof (cases "\<exists>name v. peek_kind p = Some (TkLongOption name v)")
    case False
    then have "add_options verb from p = (Some from, p)"
      by (subst add_options_step) (auto split: option.split TokenKind.split)
    then show ?thesis by (simp add: keeps_def refl)
  next
    case True
    then obtain name v where pk: "peek_kind p = Some (TkLongOption name v)" by blast
    then obtain tok where tok: "p_peek p = Some tok" "tk_kind tok = TkLongOption name v"
      by (auto simp: peek_kind_def)
    define q where "q = p \<lparr> p_pos := p_pos p + 1 \<rparr>"
    have adv: "advance p = (Some tok, q)" using tok by (simp add: advance_def q_def)
    have Q: "Q False p q" using advance_Q [of p] adv by simp
    have ih: "keeps (add_options verb (Some n)) r"
      if "v = Some w" "name = ''from''"
        "validated w (tk_span tok) verb ''--from stage name'' new_StageName q = (Some n, r)" for w n r
    proof -
      have "r = q" using that(3) by (rule validated_Some)
      with that show ?thesis
        using 1(6) [OF pk HOL.refl adv [symmetric] HOL.refl tok(2), of w "Some n" q n] by simp
    qed
    have "keeps (if name \<noteq> ''from'' then fail (bad_add_option verb name (tk_span tok))
                else
                  (case v of
                     None \<Rightarrow>
                       fail (with_hint (''example: `'' @ verb @ '' --from=builder /src /dst`'')
                         (Diagnostic_error (verb @ '' --from requires a value'')
                           (Annotation_new (tk_span tok) ''expected --from=<stage>'')))
                   | Some v \<Rightarrow>
                       andThen (validated v (tk_span tok) verb ''--from stage name'' new_StageName)
                         (\<lambda>n. add_options verb (Some n)))) q"
      using ih
      by (cases "name = ''from''"; cases v)
         (simp_all add: keeps_fail bad_add_option_def keeps_andThen [OF validated_keeps])
    from keeps_after [OF Q this] show ?thesis
      using tok adv by (simp add: law_def add_options_step [of verb "from" p] pk andThen_def)
  qed
qed

lemma slurp_line_keeps:
  "keeps (\<lambda>p. case slurp_line e p of (cmd_end, p') \<Rightarrow> (Some (g cmd_end p'), expect_newline_after d p')) p"
  using trans_ok [OF slurp_line_Q [of p e] expect_newline_after_Q [of _ d]]
  by (cases "slurp_line e p") (simp add: keeps_def)

lemma keeps_peek:
  "(p_peek p = None \<Longrightarrow> keeps f p) \<Longrightarrow> (\<And>t. p_peek p = Some t \<Longrightarrow> keeps (g t) p) \<Longrightarrow>
   keeps (\<lambda>p. case p_peek p of None \<Rightarrow> f p | Some t \<Rightarrow> g t p) p"
  by (cases "p_peek p") (simp_all add: keeps_def)

lemma keeps_fail_state: "dg_severity (d p) = SevError \<Longrightarrow> keeps (\<lambda>p. fail (d p) p) p"
  by (simp add: keeps_def fail_def err)

lemma parse_run_keeps: "keeps (parse_run start) p"
  unfolding parse_run_def Let_def
  by (intro keeps_andThen run_mounts_keeps keeps_peek keeps_if keeps_fail_state keeps_prod
      parse_string_array_keeps keeps_line slurp_line_keeps) simp_all

lemma add_source_keeps: "keeps (add_source verb t sp) p"
proof -
  have "keeps (andThen (validated r sp verb l new) (\<lambda>x p. (Some (g x), p))) p"
    for r l and new :: "string \<Rightarrow> validation_error + 'x" and g :: "'x Spanned \<Rightarrow> AddSource"
    by (intro keeps_andThen validated_keeps keeps_ok)
  then show ?thesis
    unfolding add_source_def [abs_def]
    by (intro keeps_option keeps_if keeps_ok keeps_andThen validated_keeps)
qed

lemma parse_add_keeps: "keeps (parse_add start c) p"
proof -
  have opt: "keeps (case x of None \<Rightarrow> f | Some y \<Rightarrow> g y) q"
    if "x = None \<Longrightarrow> keeps f q" "\<And>y. x = Some y \<Longrightarrow> keeps (g y) q"
    for x :: "string option" and f :: "Directive parse" and g q
    using that by (cases x) auto
  show ?thesis
    unfolding parse_add_def Let_def
    by (intro keeps_andThen add_options_keeps advance_or_err_keeps opt keeps_fail add_source_keeps
        validated_keeps keeps_line) simp_all
qed

lemma parse_entrypoint_exec_keeps: "p_peek p \<noteq> None \<Longrightarrow> keeps parse_entrypoint_exec p"
  unfolding parse_entrypoint_exec_def
  by (intro keeps_andThen advance_keeps keeps_if_state empty_array_keeps array_loop_keeps keeps_prod keeps_ok)
     simp_all

lemma entrypoint_keyword_keeps: "p_peek p \<noteq> None \<Longrightarrow> keeps (entrypoint_keyword s) p"
  unfolding entrypoint_keyword_def
  by (intro keeps_andThen advance_keeps) (simp_all add: keeps_ok keeps_fail)

lemma parse_entrypoint_shell_path_Q: "Q False p (snd (parse_entrypoint_shell_path p))"
  unfolding parse_entrypoint_shell_path_def Let_def prod.case_distrib [of snd] snd_conv
  using slurp_line_Q by (simp add: case_prod_beta)

lemma entrypoint_init_keeps:
  assumes "p_peek p \<noteq> None"
  shows "keeps (entrypoint_init k) p"
proof -
  have bad: "keeps (andThen advance (\<lambda>tok. fail (Diagnostic_error m (Annotation_new (tk_span tok) m')))) p" for m m'
    by (intro keeps_andThen advance_keeps assms keeps_fail) simp
  have path: "keeps (\<lambda>p. case parse_entrypoint_shell_path p of (r, p') \<Rightarrow> (Some r, p')) p"
    using parse_entrypoint_shell_path_Q [of p] by (cases "parse_entrypoint_shell_path p") (simp add: keeps_def)
  show ?thesis
    using bad path entrypoint_keyword_keeps [OF assms] parse_entrypoint_exec_keeps [OF assms]
    by (auto simp: entrypoint_init_def split: TokenKind.split Punct.split)
qed

lemma parse_entrypoint_keeps: "keeps (parse_entrypoint start) p"
proof (cases "peek_kind p = None \<or> peek_kind p = Some TkNewline")
  case True
  then show ?thesis by (auto simp: keeps_def parse_entrypoint_def fail_def err)
next
  case False
  then have "p_peek p \<noteq> None" by (auto simp: peek_kind_def)
  then have "keeps (andThen (entrypoint_init (the (peek_kind p))) (\<lambda>(i, e) p.
          (Some (DirEntrypoint \<lparr> ep_init = i, ep_span = Span_new start e \<rparr>),
           expect_newline_after ''ENTRYPOINT'' p))) p"
    by (intro keeps_andThen entrypoint_init_keeps keeps_prod keeps_line)
  with False show ?thesis by (simp only: law_def parse_entrypoint_def if_False)
qed

lemma finish_cmd_keeps: "keeps (finish_cmd start c e) p"
  unfolding finish_cmd_def [abs_def] by (rule keeps_line)

lemma parse_cmd_keeps: "keeps (parse_cmd start) p"
  unfolding parse_cmd_def [abs_def] finish_cmd_def [abs_def] Let_def
  by (intro keeps_peek keeps_if keeps_fail_state keeps_andThen keeps_prod parse_string_array_keeps
      keeps_line slurp_line_keeps) simp_all

lemma volume_loop_keeps: "keeps (volume_loop paths e) p"
proof (induction paths e p rule: volume_loop.induct)
  case (1 paths e p)
  show ?case
  proof (cases "p_peek p")
    case None
    then show ?thesis by (simp add: keeps_def volume_loop.simps [of paths e p] refl)
  next
    case (Some t)
    show ?thesis
    proof (cases "path_text t")
      case None
      then show ?thesis using Some by (simp add: keeps_def volume_loop.simps [of paths e p] refl fail_def err)
    next
      case s: (Some s)
      have "keeps (volume_loop (paths @ [Spanned_new s (tk_span t)]) (sp_end (tk_span t))) (snd (advance p))"
        if "tk_kind t \<noteq> TkNewline" using 1 [OF Some that s] .
      then show ?thesis
        using Some s keeps_after [OF advance_Q [of p]]
        by (cases "tk_kind t = TkNewline") (simp_all add: law_def volume_loop.simps [of paths e p] refl)
    qed
  qed
qed

lemma parse_volume_keeps: "keeps (parse_volume start) p"
proof (cases "peek_kind p = None \<or> peek_kind p = Some TkNewline")
  case True
  then show ?thesis by (auto simp: keeps_def parse_volume_def fail_def err)
next
  case False
  then have peek: "p_peek p \<noteq> None" by (auto simp: peek_kind_def)
  have "keeps (if peek_kind p = Some (TkPunct PLBracket) then parse_string_array ''VOLUME''
           else volume_loop [] start) p"
    using parse_string_array_keeps [OF peek] volume_loop_keeps by simp
  then have "keeps (andThen
          (if peek_kind p = Some (TkPunct PLBracket) then parse_string_array ''VOLUME''
           else volume_loop [] start)
          (\<lambda>(paths, e) p.
             (Some (DirVolume \<lparr> vo_paths = paths, vo_span = Span_new start e \<rparr>),
              expect_newline_after ''VOLUME'' p))) p"
    by (rule keeps_andThen) (intro keeps_prod keeps_line)
  with False show ?thesis by (simp only: law_def parse_volume_def if_False)
qed

lemma arg_default_keeps:
  assumes "dg_severity d = SevError"
  shows "keeps (\<lambda>p. case value_text v of
      None \<Rightarrow> fail d p
    | Some ft \<Rightarrow> (case splice_value v ft p of ((vt, e), p') \<Rightarrow>
        andThen (validated vt (Span_new (sp_start (tk_span v)) e) ''ARG'' ''default'' new_EnvVarValue)
          (\<lambda>dflt. finish_arg start name (Some dflt) e) p')) p"
proof (cases "value_text v")
  case None
  with assms show ?thesis by (simp add: keeps_def fail_def err)
next
  case (Some ft)
  obtain vt e p' where sv: "splice_value v ft p = ((vt, e), p')" by (metis surj_pair)
  have "Q False p p'" using splice_value_Q [of p v ft] by (simp add: sv)
  moreover have "keeps (andThen (validated vt (Span_new (sp_start (tk_span v)) e) ''ARG'' ''default'' new_EnvVarValue)
          (\<lambda>dflt. finish_arg start name (Some dflt) e)) p'"
    by (intro keeps_andThen validated_keeps finish_arg_keeps)
  ultimately show ?thesis using keeps_after Some sv by (simp add: law_def)
qed

lemma keeps_advanced: "keeps m (snd (advance p)) \<Longrightarrow> keeps (\<lambda>p. m (snd (advance p))) p"
  using keeps_after [OF advance_Q] by (simp add: law_def)

lemma keeps_key_text:
  "(key_text t p = None \<Longrightarrow> keeps f p) \<Longrightarrow> (\<And>k. key_text t p = Some k \<Longrightarrow> keeps (g k) p) \<Longrightarrow>
   keeps (\<lambda>p. case key_text t p of None \<Rightarrow> f p | Some k \<Rightarrow> g k p) p"
  by (cases "key_text t p") (simp_all add: keeps_def)

lemma parse_arg_keeps: "keeps (parse_arg start) p"
  unfolding parse_arg_def
  by (intro keeps_andThen advance_or_err_keeps keeps_key_text keeps_fail_state validated_keeps
      keeps_if_state keeps_advanced arg_default_keeps finish_arg_keeps) simp_all

lemma removed_directive_keeps: "keeps (removed_directive sp n r) p"
  unfolding removed_directive_def by (rule keeps_fail) simp

lemma not_a_keyword_keeps: "keeps (not_a_keyword t) p"
  by (auto simp: keeps_def not_a_keyword_def fail_def err warn split: option.split)

end


section \<open>The directives that queue\<close>

text \<open>A line with several items gives at least one; the rest is queued.\<close>

lemma key_value_list_loop_not_Nil: "key_value_list_loop d ps p = (Some xs, q) \<Longrightarrow> xs \<noteq> []"
proof (induction d ps p rule: key_value_list_loop.induct)
  case (1 d ps p)
  from 1(2) show ?case
    by (subst (asm) key_value_list_loop.simps)
       (auto split: prod.splits option.splits if_splits dest: 1(1) [OF sym refl refl refl])
qed

lemma build_labels_length: "build_labels start i ps p = (Some ds, q) \<Longrightarrow> length ds = length ps"
  by (induction start i ps arbitrary: p q ds rule: build_labels.induct)
     (auto simp: andThen_def split: prod.splits option.splits)

lemma build_envs_length: "build_envs start i ps p = (Some ds, q) \<Longrightarrow> length ds = length ps"
  by (induction start i ps arbitrary: p q ds rule: build_envs.induct)
     (auto simp: andThen_def split: prod.splits option.splits)

lemma expose_loop_not_Nil: "expose_loop start built p = (Some ds, q) \<Longrightarrow> ds \<noteq> []"
proof (induction start built p rule: expose_loop.induct)
  case (1 start built p)
  from 1(2) show ?case
    by (subst (asm) expose_loop.simps)
       (auto simp: Let_def split: prod.splits option.splits if_splits dest: 1(1) [OF sym refl refl refl refl refl])
qed

context queueing_rel
begin

lemma parse_label_keeps: "keeps (parse_label start) p"
  unfolding parse_label_def parse_key_value_list_def
proof (rule keeps_andThen [OF key_value_list_loop_keeps])
  fix ps q assume "key_value_list_loop ''LABEL'' [] p = (Some ps, q)"
  then have "ps \<noteq> []" by (rule key_value_list_loop_not_Nil)
  then have "keeps (andThen (build_labels start 0 ps) take_first_queue_rest) (expect_newline_after ''LABEL'' q)"
    by (intro keeps_andThen build_labels_keeps take_first_queue_rest_keeps)
       (auto dest: build_labels_length)
  from keeps_after [OF expect_newline_after_Q this]
  show "keeps (\<lambda>p. andThen (build_labels start 0 ps) take_first_queue_rest (expect_newline_after ''LABEL'' p)) q"
    by (simp add: law_def)
qed

lemma parse_env_keeps: "keeps (parse_env start) p"
  unfolding parse_env_def parse_key_value_list_def
proof (rule keeps_andThen [OF key_value_list_loop_keeps])
  fix ps q assume "key_value_list_loop ''ENV'' [] p = (Some ps, q)"
  then have "ps \<noteq> []" by (rule key_value_list_loop_not_Nil)
  then have "keeps (andThen (build_envs start 0 ps) take_first_queue_rest) (expect_newline_after ''ENV'' q)"
    by (intro keeps_andThen build_envs_keeps take_first_queue_rest_keeps)
       (auto dest: build_envs_length)
  from keeps_after [OF expect_newline_after_Q this]
  show "keeps (\<lambda>p. andThen (build_envs start 0 ps) take_first_queue_rest (expect_newline_after ''ENV'' p)) q"
    by (simp add: law_def)
qed

lemma parse_expose_keeps: "keeps (parse_expose start) p"
  unfolding parse_expose_def
proof (rule keeps_andThen [OF expose_loop_keeps])
  fix built q assume "expose_loop start [] p = (Some built, q)"
  then have "keeps (take_first_queue_rest built) (expect_newline_after ''EXPOSE'' q)"
    by (intro take_first_queue_rest_keeps expose_loop_not_Nil)
  from keeps_after [OF expect_newline_after_Q this]
  show "keeps (\<lambda>p. take_first_queue_rest built (expect_newline_after ''EXPOSE'' p)) q"
    by (simp add: law_def)
qed

lemma parse_keyword_keeps: "keeps (parse_keyword kw sp) p"
  by (cases kw)
     (simp_all add: parse_keyword_def keeps_fail parse_label_keeps parse_env_keeps parse_arg_keeps
       removed_directive_keeps parse_shell_keeps parse_user_keeps parse_workdir_keeps parse_run_keeps
       parse_add_keeps parse_entrypoint_keeps parse_expose_keeps parse_cmd_keeps parse_volume_keeps
       parse_stopsignal_keeps)

lemma parse_directive_keeps: "p_peek p \<noteq> None \<Longrightarrow> keeps parse_directive p"
  using keeps_after [OF advance_Q [of p] parse_keyword_keeps] not_a_keyword_keeps
  by (auto simp: law_def parse_directive_def split: TokenKind.split)

end


section \<open>Progress of a directive\<close>

lemma parse_directive_forward: "forward parse_directive p"
proof -
  have "p_pos p < p_pos q"
    if peek: "p_peek p = Some t" and kw: "parse_keyword kw sp (snd (advance p)) = (Some d, q)" for t kw sp d q
  proof -
    have "p_pos (snd (advance p)) \<le> p_pos q"
      using frame.keepsD [OF frame.parse_keyword_keeps kw] by (rule parser_leD(3))
    with peek show ?thesis by (simp add: advance_def)
  qed
  moreover have "fst (not_a_keyword t p) = None" for t
    by (auto simp: not_a_keyword_def fail_def split: option.split)
  ultimately show ?thesis
    by (auto simp: forward_def parse_directive_def split: option.splits TokenKind.splits dest: arg_cong [of _ _ fst])
qed

section \<open>Properties\<close>

text \<open>
  C6: the contract of a directive.  It leaves the source, the tokens and the finished stages alone,
  never moves backwards or past the end, and only appends reports; when it succeeds it has consumed
  something, and when it fails it has reported an error or a warning, so no line is dropped silently.
\<close>

theorem parse_directive_contract:
  assumes "p_peek p \<noteq> None" and "parse_directive p = (r, q)"
  shows "parser_le p q \<and> (if r = None then reports p < reports q else p_pos p < p_pos q)"
  using frame.keepsD [OF frame.parse_directive_keeps [OF assms(1)] assms(2)]
    loudness.keepsD [OF loudness.parse_directive_keeps [OF assms(1)] assms(2)]
    parse_directive_forward [of p] assms(2)
  by (auto simp: loud_def forward_def)

theorem parse_directive_contract_witness:
  "reports (snd (parse_directive (parser_new ''USER'' [\<lparr> tk_kind = TkKeyword KwUser, tk_span = Span_new 0 4 \<rparr>]))) > 0"
proof -
  let ?p = "parser_new ''USER'' [\<lparr> tk_kind = TkKeyword KwUser, tk_span = Span_new 0 4 \<rparr>]"
  have peek: "p_peek ?p \<noteq> None" by (simp add: p_peek_def parser_new_def)
  have "fst (parse_directive ?p) = None" by code_simp
  then have "parse_directive ?p = (None, snd (parse_directive ?p))" by (metis prod.collapse)
  from parse_directive_contract [OF peek this] show ?thesis by auto
qed

end
