(* ===== verification/Stages.thy ===== *)
theory Stages
  imports Grammar_Laws
begin

text \<open>
  The stage level of the parser, from \<open>parse\<close>, \<open>parse_top\<close>, \<open>parse_global_args\<close> and \<open>parse_stage\<close> of
  \<open>crates/umf-parser/src/grammar.rs\<close>.  Each loop makes progress through the tokens by the laws of
  the directives, so the whole parser is a total function.
\<close>

section \<open>One stage\<close>

definition tokens_left :: "parser \<Rightarrow> nat" where
  "tokens_left p = length (p_tokens p) - p_pos p"

text \<open>One line of a stage: a directive with what it queued, or nothing after recovery.\<close>

definition stage_step :: "parser \<Rightarrow> Directive list \<times> parser" where
  "stage_step p =
     (case parse_directive p of
        (Some d, p') \<Rightarrow> (d # p_pending p', p' \<lparr> p_pending := [] \<rparr>)
      | (None, p') \<Rightarrow> ([], recover_to_eol p'))"

function stage_loop :: "Directive list \<Rightarrow> parser \<Rightarrow> Directive list \<times> parser" where
  "stage_loop directives p =
     (let p1 = skip_newlines p
      in if peek_kind p1 = None \<or> peek_kind p1 = Some (TkKeyword KwFrom) then (directives, p1)
         else
           (case stage_step p1 of
              (new, p2) \<Rightarrow>
                if length (p_errors p2) > MAX_COLLECTED_DIAGNOSTICS then (directives @ new, p2)
                else stage_loop (directives @ new) p2))"
  by pat_completeness auto

lemma recover_to_eol_left:
  assumes "p_pos p < length (p_tokens p)"
  shows "tokens_left (recover_to_eol p) < tokens_left p"
proof -
  obtain t where t: "p_peek p = Some t" using assms by (auto simp: p_peek_def)
  have "tokens_left (snd (advance p)) < tokens_left p"
    using advance_left [OF t] by (simp add: tokens_left_def)
  moreover have "tokens_left (recover_to_eol q) \<le> tokens_left q" for q
    using parser_leD(2,3) [OF frame.recover_to_eol_Q [of q]] by (simp add: tokens_left_def)
  ultimately have "tokens_left (recover_to_eol (snd (advance p))) < tokens_left p"
    using order_le_less_trans by blast
  with \<open>tokens_left (snd (advance p)) < tokens_left p\<close> t show ?thesis
    by (subst recover_to_eol.simps) auto
qed

lemma frame_left: "parser_le p q \<Longrightarrow> tokens_left q \<le> tokens_left p"
  using parser_leD(2,3) [of p q] by (simp add: tokens_left_def)

lemma stage_step_left:
  assumes "p_peek p \<noteq> None"
  shows "tokens_left (snd (stage_step p)) < tokens_left p"
proof -
  obtain r q where rq: "parse_directive p = (r, q)" by fastforce
  have bound: "p_pos p < length (p_tokens p)" using assms by (auto dest: p_peek_bound)
  have le: "parser_le p q" using frame.keepsD [OF frame.parse_directive_keeps [OF assms] rq] .
  show ?thesis
  proof (cases r)
    case None
    have "tokens_left (recover_to_eol q) < tokens_left p"
    proof (cases "p_pos q < length (p_tokens q)")
      case True
      then show ?thesis using recover_to_eol_left [OF True] frame_left [OF le] by linarith
    next
      case False
      then have "tokens_left q = 0" by (simp add: tokens_left_def)
      then have "tokens_left (recover_to_eol q) = 0"
        using frame_left [OF frame.recover_to_eol_Q [of q]] by simp
      then show ?thesis using bound by (simp add: tokens_left_def)
    qed
    with None rq show ?thesis by (simp add: stage_step_def)
  next
    case (Some d)
    then have "p_pos p < p_pos q" using parse_directive_forward rq by (simp add: forward_def)
    then show ?thesis
      using Some rq parser_leD(2) [OF le] bound by (simp add: stage_step_def tokens_left_def)
  qed
qed

lemma skip_newlines_left: "tokens_left (skip_newlines p) \<le> tokens_left p"
  by (rule frame_left [OF frame.skip_newlines_Q])

lemma stage_loop_step_left:
  assumes "peek_kind (skip_newlines p) \<noteq> None" and "(new, q) = stage_step (skip_newlines p)"
  shows "tokens_left q < tokens_left p"
  using stage_step_left [of "skip_newlines p"] skip_newlines_left [of p] assms
  by (cases "stage_step (skip_newlines p)") (auto simp: peek_kind_def)

termination stage_loop
  by (relation "measure (\<lambda>(_, p). tokens_left p)") (auto intro: stage_loop_step_left)

declare stage_loop.simps [simp del]

definition stage_body :: "Token \<Rightarrow> FromSource \<Rightarrow> StageName Spanned option \<Rightarrow> nat \<Rightarrow> Stage parse" where
  "stage_body from_kw source name after_name_end p =
     (let stage_start = sp_start (tk_span from_kw);
          from = \<lparr> fr_source = source, fr_span = Span_new (sp_start (tk_span from_kw)) after_name_end \<rparr>
      in case stage_loop [] (expect_newline_after ''FROM'' p) of
           (directives, p') \<Rightarrow>
             let stage_end = max (last_consumed_end p') after_name_end
             in (Some \<lparr> st_from = from, st_name = name, st_directives = directives,
                        st_span = Span_new stage_start stage_end \<rparr>, p'))"

definition from_source :: "string \<Rightarrow> Span \<Rightarrow> FromSource parse" where
  "from_source arg_ident span =
     (if arg_ident = ''scratch'' then (\<lambda>p. (Some Scratch, p))
      else andThen (validated arg_ident span ''FROM'' ''reference'' new_OciReference)
             (\<lambda>oci p. (Some (Reference oci), p)))"

text \<open>The optional \<open>AS <name>\<close>: the name, and where the \<open>FROM\<close> clause ends.\<close>

definition stage_name_clause :: "Token \<Rightarrow> (StageName Spanned option \<times> nat) parse" where
  "stage_name_clause arg_tok p =
     (case match_keyword KwAs p of
        (True, p1) \<Rightarrow>
          andThen (advance_or_err ''expected stage name after AS''
                     (''use a bare identifier '' @ EM_DASH @ '' e.g. `FROM debian:bookworm AS builder`''))
            (\<lambda>name_tok.
              case tk_kind name_tok of
                TkIdent name_text \<Rightarrow>
                  andThen (validated name_text (tk_span name_tok) ''AS'' ''stage name'' new_StageName)
                    (\<lambda>name p. (Some (Some name, sp_end (tk_span name_tok)), p))
              | _ \<Rightarrow> fail (Diagnostic_error ''expected stage name after AS''
                       (Annotation_new (tk_span name_tok) ''expected an identifier''))) p1
      | (False, p1) \<Rightarrow> (Some (None, sp_end (tk_span arg_tok)), p1))"

definition stage_from :: "Token \<Rightarrow> Token \<Rightarrow> Stage parse" where
  "stage_from from_kw arg_tok =
     (case tk_kind arg_tok of
        TkIdent arg_ident \<Rightarrow>
          andThen (from_source arg_ident (tk_span arg_tok)) (\<lambda>source.
          andThen (stage_name_clause arg_tok) (\<lambda>(name, after_name_end).
          stage_body from_kw source name after_name_end))
      | _ \<Rightarrow> fail (with_hint ''example: `FROM debian:bookworm`''
               (Diagnostic_error ''expected reference after FROM''
                 (Annotation_new (tk_span arg_tok) ''expected an identifier or `scratch`''))))"

definition parse_stage :: "Stage parse" where
  "parse_stage =
     andThen (expect_keyword KwFrom ''expected FROM at start of stage''
                ''every UMF stage must begin with a FROM directive'')
       (\<lambda>from_kw.
     andThen (advance_or_err ''expected reference after FROM''
                ''FROM takes either an OCI image reference (e.g. `debian:bookworm`) or `scratch`'')
       (stage_from from_kw))"


section \<open>The laws of a stage\<close>

text \<open>The \<open>FROM\<close> line does not queue; the stage loop also empties the queue, so its laws must allow that.\<close>

context parser_rel
begin

lemma from_source_keeps: "keeps (from_source a sp) p"
  unfolding from_source_def
  by (simp add: keeps_andThen [OF validated_keeps] keeps_ok)

lemma stage_name_clause_keeps: "keeps (stage_name_clause t) p"
proof -
  obtain b p1 where mk: "match_keyword KwAs p = (b, p1)" by fastforce
  have Q1: "Q False p p1" using match_keyword_Q [of p KwAs] by (simp add: mk)
  have name: "keeps (case tk_kind u of
                TkIdent x \<Rightarrow>
                  andThen (validated x (tk_span u) ''AS'' ''stage name'' new_StageName)
                    (\<lambda>name p. (Some (Some name, sp_end (tk_span u)), p))
              | _ \<Rightarrow> fail (Diagnostic_error ''expected stage name after AS''
                       (Annotation_new (tk_span u) ''expected an identifier''))) q" for u q
    by (cases "tk_kind u") (simp_all add: keeps_fail keeps_andThen [OF validated_keeps] keeps_ok)
  show ?thesis
    using keeps_after [OF Q1 keeps_andThen [OF advance_or_err_keeps name]] Q1
    by (cases b) (simp_all add: law_def stage_name_clause_def mk)
qed

end

locale draining_rel = queueing_rel +
  assumes drain: "Q False p (p \<lparr> p_pending := [] \<rparr>)"
begin

lemma stage_step_Q:
  assumes "p_peek p \<noteq> None"
  shows "Q False p (snd (stage_step p))"
proof -
  obtain r q where rq: "parse_directive p = (r, q)" by fastforce
  have "Q (r = None) p q" using keepsD [OF parse_directive_keeps [OF assms] rq] .
  then show ?thesis
    using rq trans_ok [OF recover [of p q] recover_to_eol_Q] trans_ok [OF _ drain [of q], of p]
    by (cases r) (simp_all add: stage_step_def)
qed

lemma stage_loop_Q: "Q False p (snd (stage_loop ds p))"
proof (induction ds p rule: stage_loop.induct)
  case (1 ds p)
  define p1 where "p1 = skip_newlines p"
  have Q1: "Q False p p1" unfolding p1_def by (rule skip_newlines_Q)
  show ?case
  proof (cases "peek_kind p1 = None \<or> peek_kind p1 = Some (TkKeyword KwFrom)")
    case True
    then show ?thesis using Q1 by (subst stage_loop.simps) (simp add: Let_def p1_def [symmetric])
  next
    case False
    obtain new p2 where st: "stage_step p1 = (new, p2)" by fastforce
    have "p_peek p1 \<noteq> None" using False by (auto simp: peek_kind_def)
    from stage_step_Q [OF this] have Q2: "Q False p p2" using trans_ok [OF Q1] st by simp
    have "Q False p2 (snd (stage_loop (ds @ new) p2))"
      if "\<not> length (p_errors p2) > MAX_COLLECTED_DIAGNOSTICS"
      using 1 [OF p1_def _ st [symmetric] that] False by blast
    then show ?thesis
      using trans_ok [OF Q2] Q2 False st
      by (subst stage_loop.simps) (simp only: Let_def p1_def [symmetric] if_False prod.case split: if_split, auto)
  qed
qed

lemma stage_body_keeps: "keeps (stage_body k s n e) p"
  using trans_ok [OF expect_newline_after_Q [of p "''FROM''"] stage_loop_Q [of _ "[]"]]
  by (simp add: keeps_def stage_body_def Let_def case_prod_beta)

lemma stage_from_keeps: "keeps (stage_from k t) p"
proof -
  have "keeps (andThen (from_source a (tk_span t)) (\<lambda>source.
          andThen (stage_name_clause t) (\<lambda>(name, e). stage_body k source name e))) p" for a
    by (intro keeps_andThen from_source_keeps stage_name_clause_keeps keeps_prod stage_body_keeps)
  then show ?thesis by (auto simp: stage_from_def keeps_fail split: TokenKind.split)
qed

lemma parse_stage_keeps: "keeps parse_stage p"
  unfolding parse_stage_def
  by (intro keeps_andThen expect_keyword_keeps advance_or_err_keeps stage_from_keeps)

end

text \<open>The frame of a stage: as for a directive, but the queue may be emptied.\<close>

definition stage_le :: "parser \<Rightarrow> parser \<Rightarrow> bool" where
  "stage_le p q \<longleftrightarrow> parser_le (p \<lparr> p_pending := [] \<rparr>) (q \<lparr> p_pending := [] \<rparr>)"

interpretation outer: draining_rel "\<lambda>_. stage_le"
  by unfold_locales
     (auto simp: stage_le_def parser_le_def push_error_def push_warning_def intro: prefix_order.trans)

interpretation stage_loudness: draining_rel loud
  by unfold_locales (auto simp: loud_def reports_def)

interpretation stage_severity: draining_rel "\<lambda>_ p q. severities p \<longrightarrow> severities q"
  by unfold_locales (auto simp: severities_def)

lemma stage_leD:
  assumes "stage_le p q"
  shows "p_source q = p_source p" "p_tokens q = p_tokens p" "p_pos p \<le> p_pos q"
    "p_global_args q = p_global_args p" "p_stages q = p_stages p"
    "p_pos p \<le> length (p_tokens p) \<Longrightarrow> p_pos q \<le> length (p_tokens q)"
    "prefix (p_errors p) (p_errors q)" "prefix (p_warnings p) (p_warnings q)"
  using assms by (simp_all add: stage_le_def parser_le_def)

text \<open>The queue is empty between the lines of a stage, so no item of a multi-item line is lost.\<close>

lemma unqueued_keyword:
  assumes "kw \<notin> {KwLabel, KwEnv, KwExpose}"
  shows "unqueued.keeps (parse_keyword kw sp) p"
  using assms
  by (cases kw)
     (simp_all add: parse_keyword_def unqueued.keeps_fail unqueued.parse_arg_keeps
       unqueued.removed_directive_keeps unqueued.parse_shell_keeps unqueued.parse_user_keeps
       unqueued.parse_workdir_keeps unqueued.parse_run_keeps unqueued.parse_add_keeps
       unqueued.parse_entrypoint_keeps unqueued.parse_cmd_keeps unqueued.parse_volume_keeps
       unqueued.parse_stopsignal_keeps)


section \<open>The preamble and the top level\<close>

definition global_arg_step :: "Token \<Rightarrow> parser \<Rightarrow> parser" where
  "global_arg_step tok p =
     (case parse_arg (sp_start (tk_span tok)) (snd (advance p)) of
        (r, p') \<Rightarrow>
          (case r of
             Some (DirArg arg) \<Rightarrow> p' \<lparr> p_global_args := p_global_args p' @ [arg] \<rparr>
           | _ \<Rightarrow> recover_to_eol p'))"

definition before_from :: "Token \<Rightarrow> Diagnostic" where
  "before_from tok =
     with_hint ''ARG is the only directive allowed before FROM; move this after the FROM line''
       (Diagnostic_error ''only ARG may appear before FROM''
         (Annotation_new (tk_span tok) (''found '' @ describe (tk_kind tok) @ '' before the first FROM'')))"

function parse_global_args :: "parser \<Rightarrow> parser" where
  "parse_global_args p =
     (let p1 = skip_newlines p
      in case p_peek p1 of
           None \<Rightarrow> p1
         | Some tok \<Rightarrow>
             if tk_kind tok = TkKeyword KwArg then parse_global_args (global_arg_step tok p1)
             else if tk_kind tok = TkKeyword KwFrom then p1
             else push_error (before_from tok) p1)"
  by pat_completeness auto

lemma advance_tokens_left: "p_peek p = Some t \<Longrightarrow> tokens_left (snd (advance p)) < tokens_left p"
  using advance_left by (simp add: tokens_left_def)

lemma global_arg_step_left:
  assumes "p_peek p = Some t"
  shows "tokens_left (global_arg_step t p) < tokens_left p"
proof -
  let ?p = "snd (advance p)"
  obtain r q where rq: "parse_arg (sp_start (tk_span t)) ?p = (r, q)" by fastforce
  have "tokens_left q \<le> tokens_left ?p"
    using frame_left [OF frame.keepsD [OF frame.parse_arg_keeps rq]] .
  also have "\<dots> < tokens_left p" by (rule advance_tokens_left [OF assms])
  finally have q: "tokens_left q < tokens_left p" .
  have "tokens_left (recover_to_eol q) \<le> tokens_left q" by (rule frame_left [OF frame.recover_to_eol_Q])
  with q have "tokens_left (recover_to_eol q) < tokens_left p" by simp
  with q show ?thesis
    unfolding global_arg_step_def rq prod.case
    by (simp add: tokens_left_def split: option.split Directive.split)
qed

lemma global_args_left:
  assumes "p_peek (skip_newlines p) = Some t"
  shows "tokens_left (global_arg_step t (skip_newlines p)) < tokens_left p"
  using global_arg_step_left [OF assms] skip_newlines_left [of p] by linarith

termination parse_global_args
  by (relation "measure tokens_left") (auto intro: global_args_left)

declare parse_global_args.simps [simp del]

definition top_step :: "parser \<Rightarrow> parser" where
  "top_step p =
     skip_newlines
       (case parse_stage p of
          (Some stage, p') \<Rightarrow> p' \<lparr> p_stages := p_stages p' @ [stage] \<rparr>
        | (None, p') \<Rightarrow> recover_to_next_stage p')"

function top_loop :: "parser \<Rightarrow> parser" where
  "top_loop p =
     (if p_pos p < length (p_tokens p) then
        let p' = top_step p
        in if length (p_errors p') > MAX_COLLECTED_DIAGNOSTICS then p' else top_loop p'
      else p)"
  by pat_completeness auto

lemma outer_left: "stage_le p q \<Longrightarrow> tokens_left q \<le> tokens_left p"
  using stage_leD(2,3) [of p q] by (simp add: tokens_left_def)

lemma recover_to_next_stage_left:
  assumes "p_peek p = Some t" and "tk_kind t \<noteq> TkKeyword KwFrom"
  shows "tokens_left (recover_to_next_stage p) < tokens_left p"
proof -
  have "recover_to_next_stage p = recover_to_next_stage (snd (advance p))"
    using assms by (subst recover_to_next_stage.simps) simp
  then show ?thesis
    using frame_left [OF frame.recover_to_next_stage_Q [of "snd (advance p)"]]
      advance_tokens_left [OF assms(1)] by simp
qed

lemma parse_stage_left:
  assumes "p_peek p = Some t" and "tk_kind t = TkKeyword KwFrom"
  shows "tokens_left (snd (parse_stage p)) < tokens_left p"
proof -
  let ?k = "expect_keyword KwFrom ''expected FROM at start of stage''
    ''every UMF stage must begin with a FROM directive''"
  let ?rest = "andThen (advance_or_err ''expected reference after FROM''
    ''FROM takes either an OCI image reference (e.g. `debian:bookworm`) or `scratch`'') (stage_from t)"
  have "?k p = (Some t, snd (advance p))"
    using assms by (simp add: expect_keyword_def advance_def peek_kind_def)
  then have "parse_stage p = ?rest (snd (advance p))"
    unfolding parse_stage_def andThen_def [of ?k] by simp
  moreover have "outer.keeps ?rest (snd (advance p))"
    by (intro outer.keeps_andThen outer.advance_or_err_keeps outer.stage_from_keeps)
  ultimately have "tokens_left (snd (parse_stage p)) \<le> tokens_left (snd (advance p))"
    using outer_left by (simp add: law_def)
  with advance_tokens_left [OF assms(1)] show ?thesis by linarith
qed

lemma parse_stage_elsewhere:
  assumes "p_peek p = Some t" and "tk_kind t \<noteq> TkKeyword KwFrom"
  shows "parse_stage p = (None, push_error (Diagnostic_error ''expected FROM at start of stage''
    (Annotation_new (tk_span t) ''every UMF stage must begin with a FROM directive'')) p)"
  using assms
  by (simp add: parse_stage_def andThen_def expect_keyword_def peek_kind_def fail_def
      current_or_eof_span_def)

lemma top_step_left:
  assumes "p_pos p < length (p_tokens p)"
  shows "tokens_left (top_step p) < tokens_left p"
proof -
  obtain t where t: "p_peek p = Some t" using assms by (auto simp: p_peek_def)
  obtain r q where rq: "parse_stage p = (r, q)" by fastforce
  define m where "m = (case (r, q) of (Some stage, p') \<Rightarrow> p' \<lparr> p_stages := p_stages p' @ [stage] \<rparr>
        | (None, p') \<Rightarrow> recover_to_next_stage p')"
  have "tokens_left m < tokens_left p"
  proof (cases "tk_kind t = TkKeyword KwFrom")
    case True
    have "tokens_left m \<le> tokens_left q"
      using frame_left [OF frame.recover_to_next_stage_Q [of q]]
      by (cases r) (simp_all add: m_def tokens_left_def)
    with parse_stage_left [OF t True] rq show ?thesis by simp
  next
    case False
    define d where "d = Diagnostic_error ''expected FROM at start of stage''
      (Annotation_new (tk_span t) ''every UMF stage must begin with a FROM directive'')"
    have "r = None" "q = push_error d p" using parse_stage_elsewhere [OF t False] rq by (simp_all add: d_def)
    moreover have "p_peek (push_error d p) = Some t" using t by (simp add: p_peek_Some push_error_def)
    ultimately show ?thesis
      using recover_to_next_stage_left [OF _ False, of "push_error d p"]
      by (simp add: m_def tokens_left_def push_error_def)
  qed
  moreover have "top_step p = skip_newlines m" by (simp add: top_step_def rq m_def)
  ultimately show ?thesis using skip_newlines_left [of m] by simp
qed

termination top_loop
  by (relation "measure tokens_left") (auto intro: top_step_left)

declare top_loop.simps [simp del]

definition parse_top :: "parser \<Rightarrow> parser" where
  "parse_top p = top_loop (parse_global_args (skip_newlines p))"

definition parse :: "string \<Rightarrow> Token list \<Rightarrow> Diagnostic list + (Ast \<times> Diagnostic list)" where
  "parse source tokens =
     (let p = parse_top (parser_new source tokens)
      in if p_errors p \<noteq> [] then Inl (p_errors p)
         else Inr (\<lparr> ast_global_args = p_global_args p, ast_stages = p_stages p \<rparr>, p_warnings p))"


section \<open>The laws of the top level\<close>

text \<open>The top level also records what it has parsed.\<close>

locale recording_rel = draining_rel +
  assumes record_arg: "Q False p (p \<lparr> p_global_args := p_global_args p @ [a] \<rparr>)"
    and record_stage: "Q False p (p \<lparr> p_stages := p_stages p @ [s] \<rparr>)"
begin

lemma global_arg_step_Q: "Q False p (global_arg_step t p)"
proof -
  obtain r q where rq: "parse_arg (sp_start (tk_span t)) (snd (advance p)) = (r, q)" by fastforce
  have "Q (r = None) (snd (advance p)) q" using keepsD [OF parse_arg_keeps rq] .
  then have "Q False (snd (advance p)) q" by (cases r) (simp_all add: recover)
  then have pq: "Q False p q" by (rule step)
  show ?thesis
    using trans_ok [OF pq recover_to_eol_Q] trans_ok [OF pq record_arg]
    by (simp add: global_arg_step_def rq split: option.split Directive.split)
qed

lemma parse_global_args_Q: "Q False p (parse_global_args p)"
proof (induction p rule: parse_global_args.induct)
  case (1 p)
  note skip = skip_newlines_Q [of p]
  have err: "Q False p (push_error (before_from t) (skip_newlines p))" for t
    by (rule trans_ok [OF skip err_ok]) (simp add: before_from_def)
  show ?case
    using trans_ok [OF trans_ok [OF skip global_arg_step_Q] 1] skip err
    by (subst parse_global_args.simps) (simp add: Let_def split: option.split)
qed

lemma top_step_Q: "Q False p (top_step p)"
proof -
  obtain r q where rq: "parse_stage p = (r, q)" by fastforce
  have "Q (r = None) p q" using keepsD [OF parse_stage_keeps rq] .
  then have pq: "Q False p q" by (cases r) (simp_all add: recover)
  show ?thesis
    using trans_ok [OF trans_ok [OF pq recover_to_next_stage_Q] skip_newlines_Q]
      trans_ok [OF trans_ok [OF pq record_stage] skip_newlines_Q]
    by (cases r) (simp_all add: top_step_def rq)
qed

lemma top_loop_Q: "Q False p (top_loop p)"
proof (induction p rule: top_loop.induct)
  case (1 p)
  show ?case
    using trans_ok [OF top_step_Q 1] top_step_Q [of p] refl [of p]
    by (subst top_loop.simps) (simp add: Let_def)
qed

lemma parse_top_Q: "Q False p (parse_top p)"
  unfolding parse_top_def
  by (rule trans_ok [OF trans_ok [OF skip_newlines_Q parse_global_args_Q] top_loop_Q])

end

definition top_le :: "parser \<Rightarrow> parser \<Rightarrow> bool" where
  "top_le p q \<longleftrightarrow>
     p_source q = p_source p \<and> p_tokens q = p_tokens p \<and> p_pos p \<le> p_pos q \<and>
     (p_pos p \<le> length (p_tokens p) \<longrightarrow> p_pos q \<le> length (p_tokens p)) \<and>
     prefix (p_errors p) (p_errors q) \<and> prefix (p_warnings p) (p_warnings q) \<and>
     prefix (p_global_args p) (p_global_args q) \<and> prefix (p_stages p) (p_stages q)"

interpretation top_frame: recording_rel "\<lambda>_. top_le"
  by unfold_locales
     (auto simp: top_le_def push_error_def push_warning_def intro: prefix_order.trans)

interpretation top_severity: recording_rel "\<lambda>_ p q. severities p \<longrightarrow> severities q"
  by unfold_locales (auto simp: severities_def)

lemma parse_top_severities: "severities (parse_top (parser_new source tokens))"
  using top_severity.parse_top_Q [of "parser_new source tokens"] by (simp add: severities_def parser_new_def)

lemma parse_severity:
  "parse source tokens = Inl ds \<Longrightarrow> ds \<noteq> [] \<and> list_all (\<lambda>d. dg_severity d = SevError) ds"
  "parse source tokens = Inr (ast, ws) \<Longrightarrow> list_all (\<lambda>d. dg_severity d = SevWarning) ws"
  using parse_top_severities [of source tokens]
  by (auto simp: parse_def Let_def severities_def split: if_splits)

text \<open>The loop stops at the end of the tokens, or early once the report limit is passed.\<close>

lemma top_loop_stops:
  "p_pos (top_loop p) \<ge> length (p_tokens (top_loop p)) \<or> length (p_errors (top_loop p)) > MAX_COLLECTED_DIAGNOSTICS"
proof (induction p rule: top_loop.induct)
  case (1 p)
  then show ?case by (subst (1 2 3) top_loop.simps) (auto simp: Let_def)
qed

lemma parse_top_stops:
  assumes "p = parse_top (parser_new source tokens)"
  shows "p_tokens p = tokens" "p_source p = source"
    "p_pos p = length tokens \<or> length (p_errors p) > MAX_COLLECTED_DIAGNOSTICS"
proof -
  have le: "top_le (parser_new source tokens) p" unfolding assms by (rule top_frame.parse_top_Q)
  then show "p_tokens p = tokens" "p_source p = source" by (simp_all add: top_le_def parser_new_def)
  moreover have "p_pos p \<le> length tokens" using le by (simp add: top_le_def parser_new_def)
  ultimately show "p_pos p = length tokens \<or> length (p_errors p) > MAX_COLLECTED_DIAGNOSTICS"
    using top_loop_stops [of "parse_global_args (skip_newlines (parser_new source tokens))"]
    by (auto simp: assms parse_top_def)
qed

section \<open>Properties\<close>

text \<open>
  C17: the parser terminates on every token list, with the source and tokens unchanged, and it stops
  only at the end of the tokens or after more than 256 reported errors.
\<close>

theorem parse_top_consumes:
  "case parse_top (parser_new source tokens) of p \<Rightarrow>
     p_source p = source \<and> p_tokens p = tokens \<and>
     (p_pos p = length tokens \<or> MAX_COLLECTED_DIAGNOSTICS < length (p_errors p))"
  using parse_top_stops [OF refl, of source tokens] by auto

end
