(* ===== verification/Validator.thy ===== *)
theory Validator
  imports Stages
begin

text \<open>
  The semantic checks of \<open>crates/umf-parser/src/validator.rs\<close> and the pipeline of
  \<open>crates/umf-parser/src/lib.rs\<close>: lex, parse, validate.  The reference for the validator is
  distinctness: it is silent exactly on trees whose stage names are distinct and whose stages have
  at most one \<open>ENTRYPOINT\<close>, and otherwise reports each repetition once.
\<close>

section \<open>The scan for repetitions\<close>

text \<open>
  The loop that both checks are: \<open>key\<close> says what must not repeat, the map holds where each key was
  first seen, and \<open>report\<close> builds the diagnostic of a repetition.
\<close>

fun dup_scan ::
  "('a \<Rightarrow> ('k \<times> Span) option) \<Rightarrow> ('k \<Rightarrow> Span \<Rightarrow> Span \<Rightarrow> Diagnostic) \<Rightarrow> ('k \<rightharpoonup> Span) \<Rightarrow> 'a list \<Rightarrow>
   Diagnostic list" where
  "dup_scan key report seen [] = []"
| "dup_scan key report seen (x # xs) =
     (case key x of
        None \<Rightarrow> dup_scan key report seen xs
      | Some (k, span) \<Rightarrow>
          (case seen k of
             Some first_span \<Rightarrow> report k span first_span # dup_scan key report seen xs
           | None \<Rightarrow> dup_scan key report (seen(k \<mapsto> span)) xs))"

definition keys_of :: "('a \<Rightarrow> ('k \<times> Span) option) \<Rightarrow> 'a list \<Rightarrow> 'k list" where
  "keys_of key xs = List.map_filter (\<lambda>x. map_option fst (key x)) xs"

lemma keys_of_simps [simp]:
  "keys_of key [] = []"
  "keys_of key (x # xs) = (case key x of None \<Rightarrow> keys_of key xs | Some (k, _) \<Rightarrow> k # keys_of key xs)"
  by (auto simp: keys_of_def List.map_filter_def split: option.split)

text \<open>One report per repetition: the reports and the first occurrences make up all occurrences.\<close>

lemma dup_scan_count:
  "length (dup_scan key report seen xs) + card (set (keys_of key xs) - dom seen) = length (keys_of key xs)"
proof (induction xs arbitrary: seen)
  case (Cons x xs)
  show ?case
  proof (cases "key x")
    case None
    with Cons show ?thesis by simp
  next
    case (Some ks)
    obtain k span where ks: "ks = (k, span)" by (cases ks)
    show ?thesis
    proof (cases "seen k")
      case None
      let ?A = "set (keys_of key xs) - dom (seen(k \<mapsto> span))"
      have "insert k (set (keys_of key xs)) - dom seen = insert k ?A" using None by auto
      moreover have "k \<notin> ?A" "finite ?A" by auto
      moreover have "length (dup_scan key report (seen(k \<mapsto> span)) xs) + card ?A = length (keys_of key xs)"
        by (rule Cons)
      ultimately show ?thesis using Some ks None by (simp del: dom_fun_upd)
    next
      case s: (Some f)
      then have "insert k (set (keys_of key xs)) - dom seen = set (keys_of key xs) - dom seen" by auto
      then show ?thesis using Cons [of seen] Some ks s by simp
    qed
  qed
qed simp

lemma dup_scan_Nil: "dup_scan key report Map.empty xs = [] \<longleftrightarrow> distinct (keys_of key xs)"
proof -
  have "length (dup_scan key report Map.empty xs) + card (set (keys_of key xs)) = length (keys_of key xs)"
    using dup_scan_count [of key report Map.empty xs] by simp
  then show ?thesis
    using card_distinct [of "keys_of key xs"] distinct_card [of "keys_of key xs"]
    by (metis add_cancel_left_left length_0_conv)
qed

lemma dup_scan_reports:
  "d \<in> set (dup_scan key report seen xs) \<Longrightarrow> \<exists>k a b. d = report k a b"
  by (induction xs arbitrary: seen) (auto split: option.splits if_splits, blast+)


section \<open>The checks\<close>

definition duplicate_stage :: "string \<Rightarrow> Span \<Rightarrow> Span \<Rightarrow> Diagnostic" where
  "duplicate_stage name span first_span =
     with_hint ''stage names must be unique within a multi-stage build''
       (with_note (Annotation_new first_span ''first declared here'')
         (Diagnostic_error (''duplicate stage name `'' @ name @ ''`'')
           (Annotation_new span ''redeclared here'')))"

definition stage_key :: "Stage \<Rightarrow> (string \<times> Span) option" where
  "stage_key stage = map_option (\<lambda>n. (stage_name_str (sd_value n), sd_span n)) (st_name stage)"

definition check_stage_name_uniqueness :: "Ast \<Rightarrow> Diagnostic list" where
  "check_stage_name_uniqueness ast = dup_scan stage_key duplicate_stage Map.empty (ast_stages ast)"

datatype SingletonKind = SkEntrypoint

fun SingletonKind_label :: "SingletonKind \<Rightarrow> string" where
  "SingletonKind_label SkEntrypoint = ''ENTRYPOINT''"

definition singleton_kind :: "Directive \<Rightarrow> SingletonKind option" where
  "singleton_kind d = (case d of DirEntrypoint _ \<Rightarrow> Some SkEntrypoint | _ \<Rightarrow> None)"

definition duplicate_directive :: "SingletonKind \<Rightarrow> Span \<Rightarrow> Span \<Rightarrow> Diagnostic" where
  "duplicate_directive kind span first_span =
     with_hint (SingletonKind_label kind @ '' accepts at most one instance per stage'')
       (with_note (Annotation_new first_span ''first declared here'')
         (Diagnostic_error (''duplicate '' @ SingletonKind_label kind @ '' directive in stage'')
           (Annotation_new span ''duplicate here'')))"

definition directive_key :: "Directive \<Rightarrow> (SingletonKind \<times> Span) option" where
  "directive_key d = map_option (\<lambda>kind. (kind, Directive_span d)) (singleton_kind d)"

definition check_no_duplicate_singletons :: "Stage \<Rightarrow> Diagnostic list" where
  "check_no_duplicate_singletons stage =
     dup_scan directive_key duplicate_directive Map.empty (st_directives stage)"

definition validate_stage :: "Stage \<Rightarrow> Diagnostic list" where
  "validate_stage stage = check_no_duplicate_singletons stage"

definition validate :: "Ast \<Rightarrow> Diagnostic list" where
  "validate ast = check_stage_name_uniqueness ast @ concat (map validate_stage (ast_stages ast))"


section \<open>The pipeline\<close>

definition MAX_SOURCE_BYTES :: nat where
  "MAX_SOURCE_BYTES = 8 * 1024 * 1024"

definition oversized :: "string \<Rightarrow> Diagnostic" where
  "oversized source =
     with_hint (''reduce the recipe size; this cap bounds memory against accidental or '' @
                ''hostile oversized inputs'')
       (Diagnostic_error
         (''recipe is '' @ show_nat (length source) @ '' bytes, exceeding the '' @
          show_nat MAX_SOURCE_BYTES @ ''-byte parser limit'')
         (Annotation_new (Span_new 0 1) ''input exceeds the maximum recipe size''))"

definition parse_with_warnings :: "string \<Rightarrow> Diagnostic list + (Ast \<times> Diagnostic list)" where
  "parse_with_warnings source =
     (if length source > MAX_SOURCE_BYTES then Inl [oversized source]
      else
        (case tokenize source of
           (tokens, diagnostics) \<Rightarrow>
             (case parse source tokens of
                Inr (ast, warnings) \<Rightarrow>
                  let diagnostics' = diagnostics @ validate ast
                  in if diagnostics' = [] then Inr (ast, warnings) else Inl diagnostics'
              | Inl parse_errors \<Rightarrow> Inl (diagnostics @ parse_errors))))"

definition parse_recipe :: "string \<Rightarrow> Diagnostic list + Ast" where
  "parse_recipe source =
     (case parse_with_warnings source of
        Inr (ast, _) \<Rightarrow> Inr ast
      | Inl diagnostics \<Rightarrow> Inl diagnostics)"


section \<open>What the validator decides\<close>

definition stage_names :: "Ast \<Rightarrow> string list" where
  "stage_names ast = List.map_filter (\<lambda>s. map_option (\<lambda>n. stage_name_str (sd_value n)) (st_name s)) (ast_stages ast)"

definition is_entrypoint :: "Directive \<Rightarrow> bool" where
  "is_entrypoint d = (case d of DirEntrypoint _ \<Rightarrow> True | _ \<Rightarrow> False)"

definition entrypoints :: "Stage \<Rightarrow> nat" where
  "entrypoints stage = length (filter is_entrypoint (st_directives stage))"

lemma keys_of_stages: "keys_of stage_key (ast_stages ast) = stage_names ast"
  by (simp add: keys_of_def stage_names_def stage_key_def option.map_comp comp_def)

lemma keys_of_directives:
  "keys_of directive_key ds = replicate (length (filter is_entrypoint ds)) SkEntrypoint"
  by (induction ds)
     (auto simp: directive_key_def singleton_kind_def is_entrypoint_def split: Directive.split)

lemma validate_stage_length: "length (validate_stage s) = entrypoints s - 1"
proof -
  have "length (validate_stage s) + card (set (replicate (entrypoints s) SkEntrypoint)) = entrypoints s"
    using dup_scan_count [of directive_key duplicate_directive Map.empty "st_directives s"]
    by (simp add: validate_stage_def check_no_duplicate_singletons_def keys_of_directives entrypoints_def)
  then show ?thesis by (cases "entrypoints s") (simp_all add: set_replicate_conv_if split: if_splits)
qed

lemma validate_stage_Nil: "validate_stage s = [] \<longleftrightarrow> entrypoints s \<le> 1"
  using validate_stage_length [of s] by (metis diff_is_0_eq length_0_conv)

lemma validate_Nil:
  "validate ast = [] \<longleftrightarrow> distinct (stage_names ast) \<and> list_all (\<lambda>s. entrypoints s \<le> 1) (ast_stages ast)"
  by (simp add: validate_def check_stage_name_uniqueness_def dup_scan_Nil keys_of_stages
      validate_stage_Nil list_all_iff)

lemma validate_severity: "d \<in> set (validate ast) \<Longrightarrow> dg_severity d = SevError"
  by (auto simp: validate_def check_stage_name_uniqueness_def validate_stage_def
      check_no_duplicate_singletons_def duplicate_stage_def duplicate_directive_def
      dest!: dup_scan_reports)

section \<open>Properties\<close>

text \<open>
  C21: the validator is silent exactly on trees with distinct stage names and at most one \<open>ENTRYPOINT\<close>
  in each stage, and otherwise reports every repetition once: the names that occur again, and the
  entrypoints after the first.
\<close>

theorem validate_decides:
  "(validate ast = [] \<longleftrightarrow> distinct (stage_names ast) \<and> list_all (\<lambda>s. entrypoints s \<le> 1) (ast_stages ast)) \<and>
   length (check_stage_name_uniqueness ast) = length (stage_names ast) - card (set (stage_names ast)) \<and>
   map (length \<circ> validate_stage) (ast_stages ast) = map (\<lambda>s. entrypoints s - 1) (ast_stages ast)"
  using validate_Nil [of ast] dup_scan_count [of stage_key duplicate_stage Map.empty "ast_stages ast"]
  by (auto simp: check_stage_name_uniqueness_def keys_of_stages validate_stage_length)

end
