(* ===== verification/Grammar_Results.thy ===== *)
theory Grammar_Results
  imports Validator
begin

text \<open>
  What the parser returns.  Every validated string in a parsed tree satisfies the grammar of its
  newtype: the constructors' contracts carry through the directives, the queue of a multi-item line,
  the stages and the top level.
\<close>

section \<open>Results of an operation\<close>

definition yields :: "('a \<Rightarrow> bool) \<Rightarrow> 'a parse \<Rightarrow> parser \<Rightarrow> bool" where
  "yields P m p \<longleftrightarrow> (\<forall>a q. m p = (Some a, q) \<longrightarrow> P a)"

lemma yieldsD: "yields P m p \<Longrightarrow> m p = (Some a, q) \<Longrightarrow> P a"
  by (simp add: yields_def)

lemma andThen_Some:
  "andThen m f p = (Some b, r) \<longleftrightarrow> (\<exists>a q. m p = (Some a, q) \<and> f a q = (Some b, r))"
  by (auto simp: andThen_def split: prod.splits option.splits)

lemma yields_andThen:
  "(\<And>a q. m p = (Some a, q) \<Longrightarrow> yields P (f a) q) \<Longrightarrow> yields P (andThen m f) p"
  by (auto simp: yields_def andThen_Some)

lemma yields_ok: "P a \<Longrightarrow> yields P (\<lambda>p. (Some a, g p)) p"
  by (simp add: yields_def)

lemma yields_fail: "yields P (fail d) p"
  by (simp add: yields_def fail_def)

lemma yields_if_state:
  "(c p \<Longrightarrow> yields P f p) \<Longrightarrow> (\<not> c p \<Longrightarrow> yields P g p) \<Longrightarrow> yields P (\<lambda>p. if c p then f p else g p) p"
  by (simp add: yields_def)

text \<open>A validated value is what the constructor made of the text.\<close>

lemma validated_result:
  "validated raw sp d l new p = (Some v, q) \<Longrightarrow> new raw = Inr (sd_value v) \<and> sd_span v = sp \<and> q = p"
  by (auto simp: validated_def fail_def Spanned_new_def split: sum.splits)

lemma new_grammar:
  "new_LabelKey s = Inr a1 \<Longrightarrow> label_key_grammar (label_key_str a1)"
  "new_LabelValue s = Inr a2 \<Longrightarrow> no_nul (label_value_str a2)"
  "new_EnvVarName s = Inr a3 \<Longrightarrow> env_name_grammar (env_name_str a3)"
  "new_EnvVarValue s = Inr a4 \<Longrightarrow> no_nul (env_value_str a4)"
  "new_StageName s = Inr a5 \<Longrightarrow> bare_identifier_grammar (stage_name_str a5)"
  "new_SecretId s = Inr a6 \<Longrightarrow> bare_identifier_grammar (secret_id_str a6)"
  "new_Username s = Inr a7 \<Longrightarrow> username_grammar (username_str a7)"
  "new_RecipePath s = Inr a8 \<Longrightarrow> recipe_path_grammar (recipe_path_str a8)"
  "new_OciReference s = Inr a9 \<Longrightarrow> deferred_oci (oci_ref_str a9)"
  "new_HttpsUrl s = Inr a10 \<Longrightarrow> https_url_grammar (url_raw a10)"
  by (auto simp: new_LabelKey_def new_LabelValue_def new_EnvVarName_def new_EnvVarValue_def
      new_StageName_def new_SecretId_def new_Username_def new_RecipePath_def new_OciReference_def
      new_HttpsUrl_def HttpsUrl_placeholder_same
      intro: label_key.ok_grammar label_value.ok_grammar env_name.ok_grammar env_value.ok_grammar
      stage_name.ok_grammar secret_id.ok_grammar username.ok_grammar recipe_path.ok_grammar
      deferred_oci_new https_url.ok_grammar)

lemmas validated_grammar = new_grammar [OF validated_result [THEN conjunct1]]


section \<open>Directives\<close>

lemma parse_run_mount_value_ok:
  "parse_run_mount_value v sp = Inr m \<Longrightarrow> mount_kind_ok (rm_kind m)"
  by (auto simp: parse_run_mount_value_def Spanned_new_def new_grammar
      split: prod.splits option.splits if_splits sum.splits)

lemma build_labels_ok: "yields (list_all directive_ok) (build_labels start i ps) p"
proof (induction start i ps arbitrary: p rule: build_labels.induct)
  case (2 start i k v rest)
  show ?case
    unfolding build_labels.simps
    by (intro yields_andThen yields_ok) (auto dest!: validated_grammar(1,2) yieldsD [OF 2 [simplified]])
qed (simp add: yields_def)

lemma build_envs_ok: "yields (list_all directive_ok) (build_envs start i ps) p"
proof (induction start i ps arbitrary: p rule: build_envs.induct)
  case (2 start i k v rest)
  show ?case
    unfolding build_envs.simps
    by (intro yields_andThen yields_ok) (auto dest!: validated_grammar(3,4) yieldsD [OF 2 [simplified]])
qed (simp add: yields_def)

text \<open>What \<open>EXPOSE\<close> adds to what it has built are \<open>Expose\<close> nodes only.\<close>

lemma expose_loop_exposes:
  "expose_loop start built p = (Some ds, q) \<Longrightarrow> \<exists>es. ds = built @ map DirExpose es"
proof (induction start built p rule: expose_loop.induct)
  case (1 start built p)
  from 1(2) obtain port protocol espan p' where
    entry: "parse_expose_entry p = (Some (port, protocol, espan), p')" and
    rest: "(let d = DirExpose \<lparr> ex_port = port, ex_protocol = protocol,
                 ex_span = (if built = [] then Span_new start (sp_end espan) else espan) \<rparr>
       in if is_number (peek_kind p') then expose_loop start (built @ [d]) p'
          else (Some (built @ [d]), p')) = (Some ds, q)"
    by (auto simp: expose_loop_step [of start built] andThen_Some)
  let ?e = "\<lparr> ex_port = port, ex_protocol = protocol,
    ex_span = (if built = [] then Span_new start (sp_end espan) else espan) \<rparr>"
  show ?case
  proof (cases "is_number (peek_kind p')")
    case True
    with rest obtain es where "ds = (built @ [DirExpose ?e]) @ map DirExpose es"
      using 1(1) [OF entry [symmetric] refl refl refl refl refl True] by (auto simp: Let_def)
    then have "ds = built @ map DirExpose (?e # es)" by simp
    then show ?thesis ..
  next
    case False
    with rest have "ds = built @ map DirExpose [?e]" by (simp add: Let_def)
    then show ?thesis ..
  qed
qed

lemma take_first_queue_rest_Some:
  "take_first_queue_rest ds p = (Some d, q) \<Longrightarrow> \<exists>rest. ds = d # rest \<and> q = p \<lparr> p_pending := p_pending p @ rest \<rparr>"
  by (auto simp: take_first_queue_rest_def split: list.splits)

text \<open>
  A queueing directive: the node returned and the nodes queued are all well-formed, and a failure
  queues nothing.
\<close>

definition queues_ok :: "Directive parse \<Rightarrow> parser \<Rightarrow> bool" where
  "queues_ok m p \<longleftrightarrow>
     (\<forall>d q. m p = (Some d, q) \<longrightarrow>
        (\<exists>rest. p_pending q = p_pending p @ rest \<and> list_all directive_ok (d # rest))) \<and>
     (\<forall>q. m p = (None, q) \<longrightarrow> p_pending q = p_pending p)"

lemma expect_newline_after_pending [simp]: "p_pending (expect_newline_after x p) = p_pending p"
  using unqueued.expect_newline_after_Q [of p x] by (simp add: same_pending_def)

lemma unqueued_pending: "unqueued.keeps m p \<Longrightarrow> m p = (r, q) \<Longrightarrow> p_pending q = p_pending p"
  by (simp add: law_def same_pending_def)

lemma queues_okI:
  assumes "\<And>r q. m p = (r, q) \<Longrightarrow> p_pending q = p_pending p" and "yields (list_all directive_ok) m p"
  shows "queues_ok (andThen m take_first_queue_rest) p"
proof (cases "m p")
  case (Pair r q)
  show ?thesis
  proof (cases r)
    case None
    with Pair assms(1) [OF Pair] show ?thesis by (simp add: queues_ok_def andThen_def)
  next
    case (Some ds)
    with Pair assms(1) [OF Pair] yieldsD [OF assms(2)] show ?thesis
      by (cases ds) (auto simp: queues_ok_def andThen_def take_first_queue_rest_def)
  qed
qed

text \<open>Both \<open>LABEL\<close> and \<open>ENV\<close> read pairs, finish the line and build one node per pair.\<close>

lemma key_value_queues:
  assumes "\<And>ps q. yields (list_all directive_ok) (build ps) q" and "\<And>ps q. unqueued.keeps (build ps) q"
  shows "queues_ok (andThen (key_value_list_loop x [])
    (\<lambda>ps p. andThen (build ps) take_first_queue_rest (expect_newline_after x p))) p"
proof -
  let ?m = "andThen (key_value_list_loop x []) (\<lambda>ps p. build ps (expect_newline_after x p))"
  have "andThen (key_value_list_loop x [])
      (\<lambda>ps p. andThen (build ps) take_first_queue_rest (expect_newline_after x p)) =
    andThen ?m take_first_queue_rest"
    by (rule ext) (simp add: andThen_def split: prod.split option.split)
  moreover have "unqueued.keeps ?m p"
  proof (rule unqueued.keeps_andThen [OF unqueued.key_value_list_loop_keeps])
    fix ps q show "unqueued.keeps (\<lambda>p. build ps (expect_newline_after x p)) q"
      using unqueued.keeps_after [OF unqueued.expect_newline_after_Q assms(2)] by (simp add: law_def)
  qed
  moreover have "yields (list_all directive_ok) ?m p"
    using assms(1) by (auto simp: yields_def andThen_Some)
  ultimately show ?thesis using queues_okI unqueued_pending by metis
qed

lemma parse_label_queues: "queues_ok (parse_label start) p"
  unfolding parse_label_def parse_key_value_list_def
  by (rule key_value_queues [OF build_labels_ok unqueued.build_labels_keeps])

lemma parse_env_queues: "queues_ok (parse_env start) p"
  unfolding parse_env_def parse_key_value_list_def
  by (rule key_value_queues [OF build_envs_ok unqueued.build_envs_keeps])

lemma parse_expose_queues: "queues_ok (parse_expose start) p"
proof -
  let ?m = "\<lambda>p. case expose_loop start [] p of (r, q) \<Rightarrow>
    (r, case r of None \<Rightarrow> q | Some _ \<Rightarrow> expect_newline_after ''EXPOSE'' q)"
  have "parse_expose start = andThen ?m take_first_queue_rest"
    by (rule ext) (simp add: parse_expose_def andThen_def split: prod.split option.split)
  moreover have "p_pending q = p_pending p" if "?m p = (r, q)" for r q
    using that unqueued_pending [OF unqueued.expose_loop_keeps [of start "[]" p]]
    by (auto split: prod.splits option.splits)
  moreover have "yields (list_all directive_ok) ?m p"
    using expose_loop_exposes [of start "[]" p] by (fastforce simp: yields_def list_all_iff split: prod.splits)
  ultimately show ?thesis using queues_okI [of ?m p] by simp
qed

text \<open>The other directives return one well-formed node.\<close>

lemma yields_prod: "(\<And>a b. x = (a, b) \<Longrightarrow> yields P (f a b) p) \<Longrightarrow> yields P (case x of (a, b) \<Rightarrow> f a b) p"
  by (cases x) simp

lemma yields_if: "(c \<Longrightarrow> yields P f p) \<Longrightarrow> (\<not> c \<Longrightarrow> yields P g p) \<Longrightarrow> yields P (if c then f else g) p"
  by simp

lemma yields_eq: "f p = g p \<Longrightarrow> yields P g p \<Longrightarrow> yields P f p"
  by (simp add: yields_def)

lemma finish_arg_ok:
  assumes "env_name_grammar (env_name_str (sd_value n))"
    and "case dflt of None \<Rightarrow> True | Some v \<Rightarrow> no_nul (env_value_str (sd_value v))"
  shows "yields directive_ok (finish_arg start n dflt e) p"
  using assms by (simp add: yields_def finish_arg_def Let_def arg_ok_def)

lemma yields_option_state:
  "(x p = None \<Longrightarrow> yields P f p) \<Longrightarrow> (\<And>y. x p = Some y \<Longrightarrow> yields P (g y) p) \<Longrightarrow>
   yields P (\<lambda>p. case x p of None \<Rightarrow> f p | Some y \<Rightarrow> g y p) p"
  by (cases "x p") (simp_all add: yields_def)

lemma yields_fail_state: "yields P (\<lambda>p. fail (d p) p) p"
  by (simp add: yields_def fail_def)

lemma yields_advanced: "yields P m (snd (advance p)) \<Longrightarrow> yields P (\<lambda>p. m (snd (advance p))) p"
  by (simp add: yields_def)

lemma yields_splice:
  "(\<And>vt e p'. yields P (f vt e) p') \<Longrightarrow>
   yields P (\<lambda>p. case splice_value v ft p of ((vt, e), p') \<Rightarrow> f vt e p') p"
  by (auto simp: yields_def split: prod.split)

lemma yields_slurp:
  "(\<And>c p'. P (g c p')) \<Longrightarrow> yields P (\<lambda>p. case slurp_line e p of (c, p') \<Rightarrow> (Some (g c p'), h p')) p"
  by (simp add: yields_def split: prod.split)

lemma parse_arg_ok: "yields directive_ok (parse_arg start) p"
  unfolding parse_arg_def
  by (intro yields_andThen yields_option_state yields_fail_state yields_if_state yields_advanced
      yields_splice finish_arg_ok) (auto dest: validated_grammar(3,4))

lemma finish_shell_ok: "yields directive_ok (finish_shell start a e) p"
  by (simp add: yields_def finish_shell_def)

lemma parse_shell_ok: "yields directive_ok (parse_shell start) p"
  unfolding parse_shell_def [abs_def]
  by (intro yields_andThen yields_if_state yields_prod yields_if finish_shell_ok yields_fail)

lemma parse_user_ok: "yields directive_ok (parse_user start) p"
  by (auto simp: yields_def parse_user_def andThen_Some dest!: validated_grammar(7))

lemma parse_workdir_ok: "yields directive_ok (parse_workdir start) p"
  by (auto simp: yields_def parse_workdir_def andThen_Some dest!: validated_grammar(8))

lemma run_mounts_ok:
  "list_all (\<lambda>m. mount_kind_ok (rm_kind m)) ms \<Longrightarrow>
   yields (list_all (\<lambda>m. mount_kind_ok (rm_kind m))) (run_mounts ms) p"
proof (induction "tokens_left p" arbitrary: ms p rule: less_induct)
  case less
  show ?case
    unfolding yields_def
  proof (intro allI impI)
    fix ms' q assume r: "run_mounts ms p = (Some ms', q)"
    show "list_all (\<lambda>m. mount_kind_ok (rm_kind m)) ms'"
    proof (cases "\<exists>name v. peek_kind p = Some (TkLongOption name v)")
      case False
      with r less(2) show ?thesis
        by (subst (asm) run_mounts_step) (auto split: option.splits TokenKind.splits)
    next
      case True
      then obtain name v tok where pk: "peek_kind p = Some (TkLongOption name v)"
        and tok: "p_peek p = Some tok" "tk_kind tok = TkLongOption name v"
        by (auto simp: peek_kind_def)
      define p' where "p' = snd (advance p)"
      have adv: "advance p = (Some tok, p')" using tok by (simp add: advance_def p'_def)
      have left: "tokens_left p' < tokens_left p" unfolding p'_def by (rule advance_tokens_left [OF tok(1)])
      from r pk adv tok obtain w m where "parse_run_mount_value w (tk_span tok) = Inr m"
        and "run_mounts (ms @ [m]) p' = (Some ms', q)"
        by (subst (asm) run_mounts_step)
           (auto simp: andThen_Some fail_def split: if_splits option.splits sum.splits)
      then show ?thesis
        using yieldsD [OF less(1) [OF left, of "ms @ [m]"]] less(2) parse_run_mount_value_ok by simp
    qed
  qed
qed

lemma parse_run_ok: "yields directive_ok (parse_run start) p"
proof -
  have "list_all (\<lambda>m. mount_kind_ok (rm_kind m)) ms" if "run_mounts [] p = (Some ms, q)" for ms q
    using yieldsD [OF run_mounts_ok that] by simp
  then show ?thesis
    unfolding parse_run_def Let_def
    by (intro yields_andThen yields_option_state yields_fail_state yields_if_state yields_slurp yields_prod
        yields_ok) simp_all
qed

lemma parse_entrypoint_ok: "yields directive_ok (parse_entrypoint start) p"
  unfolding parse_entrypoint_def [abs_def]
  by (rule yields_if_state [OF yields_fail_state])
     (auto simp: yields_def andThen_Some)

lemma parse_cmd_ok: "yields directive_ok (parse_cmd start) p"
  unfolding parse_cmd_def [abs_def] finish_cmd_def [abs_def] Let_def
  by (intro yields_andThen yields_option_state yields_fail_state yields_if_state yields_slurp yields_prod
      yields_ok) simp_all

lemma parse_volume_ok: "yields directive_ok (parse_volume start) p"
  unfolding parse_volume_def [abs_def]
  by (rule yields_if_state [OF yields_fail_state])
     (auto simp: yields_def andThen_Some)

lemma parse_stopsignal_ok: "yields directive_ok (parse_stopsignal start) p"
  unfolding parse_stopsignal_def
  by (intro yields_andThen yields_option_state yields_fail_state yields_ok) simp


lemma add_options_ok:
  "case from of None \<Rightarrow> True | Some n \<Rightarrow> bare_identifier_grammar (stage_name_str (sd_value n)) \<Longrightarrow>
   yields (\<lambda>r. case r of None \<Rightarrow> True | Some n \<Rightarrow> bare_identifier_grammar (stage_name_str (sd_value n)))
     (add_options verb from) p"
proof (induction "tokens_left p" arbitrary: "from" p rule: less_induct)
  case less
  show ?case
    unfolding yields_def
  proof (intro allI impI)
    fix r q assume r: "add_options verb from p = (Some r, q)"
    show "case r of None \<Rightarrow> True | Some n \<Rightarrow> bare_identifier_grammar (stage_name_str (sd_value n))"
    proof (cases "\<exists>name v. peek_kind p = Some (TkLongOption name v)")
      case False
      with r less(2) show ?thesis
        by (subst (asm) add_options_step) (auto split: option.splits TokenKind.splits)
    next
      case True
      then obtain name v tok where pk: "peek_kind p = Some (TkLongOption name v)"
        and tok: "p_peek p = Some tok" "tk_kind tok = TkLongOption name v"
        by (auto simp: peek_kind_def)
      define p' where "p' = snd (advance p)"
      have adv: "advance p = (Some tok, p')" using tok by (simp add: advance_def p'_def)
      have left: "tokens_left p' < tokens_left p" unfolding p'_def by (rule advance_tokens_left [OF tok(1)])
      from r pk adv tok obtain w n where
        n: "validated w (tk_span tok) verb ''--from stage name'' new_StageName p' = (Some n, p')" and
        rest: "add_options verb (Some n) p' = (Some r, q)"
        by (subst (asm) add_options_step)
           (auto simp: andThen_Some fail_def split: if_splits option.splits dest: validated_Some)
      show ?thesis
        using yieldsD [OF less(1) [OF left, of "Some n"] rest] validated_grammar(5) [OF n] by simp
    qed
  qed
qed

lemma add_source_ok: "yields add_source_ok (add_source verb t sp) p"
  unfolding add_source_def [abs_def]
  by (intro yields_option_state yields_if_state yields_andThen yields_ok)
     (auto dest: validated_grammar(9,10))

lemma yields_option:
  "(x = None \<Longrightarrow> yields P f p) \<Longrightarrow> (\<And>y. x = Some y \<Longrightarrow> yields P (g y) p) \<Longrightarrow>
   yields P (case x of None \<Rightarrow> f | Some y \<Rightarrow> g y) p"
  by (cases x) simp_all

lemma parse_add_ok: "yields directive_ok (parse_add start c) p"
proof -
  have "directive_ok (DirAdd \<lparr> ad_source = s, ad_destination = d, ad_from = f, ad_plain_copy = c, ad_span = sp \<rparr>)"
    if "add_options v None p1 = (Some f, p2)" "add_source v t tsp p3 = (Some s, p4)"
      "validated r rsp v l new_RecipePath p5 = (Some d, p6)"
    for v p1 f p2 t tsp p3 s p4 r rsp l p5 d p6 sp
    using yieldsD [OF add_options_ok that(1)] yieldsD [OF add_source_ok that(2)] validated_grammar(8) [OF that(3)]
    by simp
  then show ?thesis
    unfolding parse_add_def Let_def
    by (intro yields_andThen yields_option yields_fail yields_ok)
qed

lemma parse_keyword_queues: "queues_ok (parse_keyword kw sp) p"
proof (cases "kw \<in> {KwLabel, KwEnv, KwExpose}")
  case True
  then show ?thesis
    using parse_label_queues parse_env_queues parse_expose_queues by (auto simp: parse_keyword_def)
next
  case False
  have "yields directive_ok (parse_keyword kw sp) p"
    using False
    by (cases kw)
       (simp_all add: parse_keyword_def yields_fail removed_directive_def parse_arg_ok parse_shell_ok
         parse_user_ok parse_workdir_ok parse_run_ok parse_add_ok parse_entrypoint_ok parse_cmd_ok
         parse_volume_ok parse_stopsignal_ok)
  then show ?thesis
    using unqueued_pending [OF unqueued_keyword [OF False]] by (force simp: queues_ok_def yields_def)
qed

lemma parse_directive_queues: "queues_ok parse_directive p"
proof -
  have adv: "p_pending (snd (advance p)) = p_pending p"
    using unqueued.advance_Q [of p] by (simp add: same_pending_def)
  have "queues_ok (not_a_keyword t) p" for t
    by (auto simp: queues_ok_def not_a_keyword_def fail_def push_error_def push_warning_def split: option.split)
  moreover have "queues_ok (\<lambda>p. parse_keyword kw sp (snd (advance p))) p" for kw sp
    using parse_keyword_queues [of kw sp "snd (advance p)"] by (simp add: queues_ok_def adv)
  ultimately show ?thesis
    by (cases "p_peek p") (auto simp: queues_ok_def parse_directive_def split: TokenKind.split)
qed


section \<open>Stages\<close>

lemma stage_step_ok:
  assumes "p_pending p = []"
  shows "list_all directive_ok (fst (stage_step p))"
proof (cases "parse_directive p")
  case (Pair r q)
  then show ?thesis
    using parse_directive_queues [of p] assms by (cases r) (auto simp: stage_step_def queues_ok_def)
qed

lemma stage_step_pending:
  assumes "p_pending p = []"
  shows "p_pending (snd (stage_step p)) = []"
proof (cases "parse_directive p")
  case (Pair r q)
  show ?thesis
  proof (cases r)
    case (Some d)
    with Pair show ?thesis by (simp add: stage_step_def)
  next
    case None
    have "p_pending q = p_pending p"
      using parse_directive_queues [of p] Pair None by (simp add: queues_ok_def)
    with None Pair assms show ?thesis
      using unqueued.recover_to_eol_Q [of q] by (simp add: stage_step_def same_pending_def)
  qed
qed


lemma skip_newlines_pending [simp]: "p_pending (skip_newlines p) = p_pending p"
  using unqueued.skip_newlines_Q [of p] by (simp add: same_pending_def)

lemma stage_loop_ok:
  assumes "p_pending p = []" and "list_all directive_ok ds"
  shows "list_all directive_ok (fst (stage_loop ds p)) \<and> p_pending (snd (stage_loop ds p)) = []"
  using assms
proof (induction ds p rule: stage_loop.induct)
  case (1 ds p)
  define p1 where "p1 = skip_newlines p"
  have p1: "p_pending p1 = []" using 1(2) by (simp add: p1_def)
  show ?case
  proof (cases "peek_kind p1 = None \<or> peek_kind p1 = Some (TkKeyword KwFrom)")
    case True
    with 1(3) p1 show ?thesis by (subst (1 2) stage_loop.simps) (simp add: Let_def p1_def [symmetric])
  next
    case False
    obtain new p2 where st: "stage_step p1 = (new, p2)" by fastforce
    have "list_all directive_ok new" "p_pending p2 = []"
      using stage_step_ok [OF p1] stage_step_pending [OF p1] st by simp_all
    with 1(3) have "list_all directive_ok (ds @ new)" by simp
    then have "list_all directive_ok (fst (stage_loop (ds @ new) p2)) \<and> p_pending (snd (stage_loop (ds @ new) p2)) = []"
      if "\<not> length (p_errors p2) > MAX_COLLECTED_DIAGNOSTICS"
      using 1(1) [OF p1_def _ st [symmetric] that] False \<open>p_pending p2 = []\<close> by blast
    moreover have "stage_loop ds p = (if length (p_errors p2) > MAX_COLLECTED_DIAGNOSTICS
        then (ds @ new, p2) else stage_loop (ds @ new) p2)"
      using False by (subst stage_loop.simps) (simp only: Let_def p1_def [symmetric] if_False st prod.case)
    ultimately show ?thesis
      using \<open>list_all directive_ok (ds @ new)\<close> \<open>p_pending p2 = []\<close> by simp
  qed
qed

lemma from_source_yields: "yields from_source_ok (from_source a sp) p"
  unfolding from_source_def
  by (intro yields_if yields_ok yields_andThen) (auto dest: validated_grammar(9))

definition clause_name_ok :: "StageName Spanned option \<Rightarrow> bool" where
  "clause_name_ok n = (case n of None \<Rightarrow> True | Some x \<Rightarrow> bare_identifier_grammar (stage_name_str (sd_value x)))"

lemma yields_ident:
  "(\<And>s. tk_kind t = TkIdent s \<Longrightarrow> yields P (f s) p) \<Longrightarrow>
   yields P (case tk_kind t of TkIdent s \<Rightarrow> f s | _ \<Rightarrow> fail d) p"
  by (cases "tk_kind t") (simp_all add: yields_fail)

lemma stage_name_clause_yields: "yields (\<lambda>(n, _). clause_name_ok n) (stage_name_clause t) p"
proof (cases "match_keyword KwAs p")
  case (Pair b p1)
  have "yields (\<lambda>(n, _). clause_name_ok n)
    (andThen (advance_or_err m h) (\<lambda>u. case tk_kind u of
        TkIdent x \<Rightarrow> andThen (validated x (tk_span u) ''AS'' ''stage name'' new_StageName)
                      (\<lambda>name p. (Some (Some name, sp_end (tk_span u)), p))
      | _ \<Rightarrow> fail (d u))) p1" for m h d
    by (intro yields_andThen yields_ident yields_ok) (auto simp: clause_name_ok_def dest: validated_grammar(5))
  then show ?thesis
    by (cases b) (simp_all add: yields_def stage_name_clause_def Pair clause_name_ok_def)
qed

text \<open>
  An operation of the stage level: from an empty queue to an empty queue, with a well-formed result.
\<close>

definition clean :: "('a \<Rightarrow> bool) \<Rightarrow> 'a parse \<Rightarrow> parser \<Rightarrow> bool" where
  "clean P m p \<longleftrightarrow> p_pending p = [] \<longrightarrow> p_pending (snd (m p)) = [] \<and> yields P m p"

lemma clean_base: "unqueued.keeps m p \<Longrightarrow> yields P m p \<Longrightarrow> clean P m p"
  by (simp add: clean_def law_def same_pending_def)

lemma yields_True: "yields (\<lambda>_. True) m p"
  by (simp add: yields_def)

lemma clean_andThen:
  assumes "clean R m p" and "\<And>a q. m p = (Some a, q) \<Longrightarrow> R a \<Longrightarrow> clean P (f a) q"
  shows "clean P (andThen m f) p"
proof (cases "m p")
  case (Pair r q)
  with assms show ?thesis
    by (cases r) (auto simp: clean_def yields_def andThen_def)
qed

lemma stage_body_clean:
  assumes "from_source_ok src" and "clause_name_ok n"
  shows "clean stage_ok (stage_body k src n e) p"
  using stage_loop_ok [of "expect_newline_after ''FROM'' p" "[]"] assms
  by (auto simp: clean_def yields_def stage_body_def Let_def stage_ok_def clause_name_ok_def split: prod.split)

lemma stage_from_clean: "clean stage_ok (stage_from k t) p"
proof (cases "\<exists>a. tk_kind t = TkIdent a")
  case True
  then obtain a where a: "tk_kind t = TkIdent a" by blast
  have "clean stage_ok (andThen (from_source a (tk_span t)) (\<lambda>source.
          andThen (stage_name_clause t) (\<lambda>(name, e). stage_body k source name e))) p"
  proof (rule clean_andThen [OF clean_base [OF unqueued.from_source_keeps from_source_yields]])
    fix src q assume src: "from_source_ok src"
    show "clean stage_ok (andThen (stage_name_clause t) (\<lambda>(name, e). stage_body k src name e)) q"
      by (rule clean_andThen [OF clean_base [OF unqueued.stage_name_clause_keeps stage_name_clause_yields]])
         (auto intro: stage_body_clean src)
  qed
  with a show ?thesis by (simp add: stage_from_def)
next
  case False
  then show ?thesis
    by (cases "tk_kind t") (simp_all add: stage_from_def clean_base unqueued.keeps_fail yields_fail)
qed

lemma parse_stage_clean: "clean stage_ok parse_stage p"
  unfolding parse_stage_def
  by (rule clean_andThen [OF clean_base [OF unqueued.expect_keyword_keeps yields_True]],
      rule clean_andThen [OF clean_base [OF unqueued.advance_or_err_keeps yields_True]],
      rule stage_from_clean)


section \<open>The whole parser\<close>

definition parser_ok :: "parser \<Rightarrow> bool" where
  "parser_ok p \<longleftrightarrow>
     p_pending p = [] \<and> list_all arg_ok (p_global_args p) \<and> list_all stage_ok (p_stages p)"

lemma parser_ok_frame: "parser_le p q \<Longrightarrow> same_pending p q \<Longrightarrow> parser_ok p \<Longrightarrow> parser_ok q"
  using parser_leD(4,5) [of p q] by (simp add: parser_ok_def same_pending_def)

lemma skip_newlines_ok: "parser_ok p \<Longrightarrow> parser_ok (skip_newlines p)"
  by (rule parser_ok_frame [OF frame.skip_newlines_Q unqueued.skip_newlines_Q])

lemma global_arg_step_ok:
  assumes "parser_ok p"
  shows "parser_ok (global_arg_step t p)"
proof -
  obtain r q where rq: "parse_arg (sp_start (tk_span t)) (snd (advance p)) = (r, q)" by fastforce
  have "parser_ok (snd (advance p))"
    by (rule parser_ok_frame [OF frame.advance_Q unqueued.advance_Q assms])
  then have q: "parser_ok q"
    using parser_ok_frame [OF frame.keepsD [OF frame.parse_arg_keeps rq] unqueued.keepsD [OF unqueued.parse_arg_keeps rq]]
    by simp
  then have "parser_ok (recover_to_eol q)"
    by (rule parser_ok_frame [OF frame.recover_to_eol_Q unqueued.recover_to_eol_Q])
  moreover have "parser_ok (q \<lparr> p_global_args := p_global_args q @ [a] \<rparr>)" if "r = Some (DirArg a)" for a
    using q yieldsD [OF parse_arg_ok] rq that by (fastforce simp: parser_ok_def)
  ultimately show ?thesis
    by (simp add: global_arg_step_def rq split: option.split Directive.split)
qed

lemma parse_global_args_ok: "parser_ok p \<Longrightarrow> parser_ok (parse_global_args p)"
proof (induction p rule: parse_global_args.induct)
  case (1 p)
  note ok = skip_newlines_ok [OF 1(2)]
  have err: "parser_ok (push_error d (skip_newlines p))" for d
    using ok by (simp add: parser_ok_def push_error_def)
  show ?case
    using 1(1) ok err global_arg_step_ok [OF ok]
    by (subst parse_global_args.simps) (simp add: Let_def split: option.split)
qed

lemma top_step_ok:
  assumes "parser_ok p"
  shows "parser_ok (top_step p)"
proof -
  obtain r q where rq: "parse_stage p = (r, q)" by fastforce
  have le: "stage_le p q" using outer.keepsD [OF outer.parse_stage_keeps rq] .
  have res: "p_pending q = []" "\<And>s. r = Some s \<Longrightarrow> stage_ok s"
    using parse_stage_clean [of p] rq assms by (auto simp: clean_def yields_def parser_ok_def)
  have q: "parser_ok q" using res(1) assms stage_leD(4,5) [OF le] by (simp add: parser_ok_def)
  have "parser_ok (recover_to_next_stage q)"
    by (rule parser_ok_frame [OF frame.recover_to_next_stage_Q unqueued.recover_to_next_stage_Q q])
  moreover have "parser_ok (q \<lparr> p_stages := p_stages q @ [s] \<rparr>)" if "r = Some s" for s
    using q res(2) [OF that] by (simp add: parser_ok_def)
  ultimately show ?thesis
    by (cases r) (simp_all add: top_step_def rq skip_newlines_ok)
qed

lemma top_loop_ok: "parser_ok p \<Longrightarrow> parser_ok (top_loop p)"
proof (induction p rule: top_loop.induct)
  case (1 p)
  then show ?case using top_step_ok [OF 1(2)] by (subst top_loop.simps) (simp add: Let_def)
qed

lemma parse_top_ok: "parser_ok (parse_top (parser_new source tokens))"
  unfolding parse_top_def
  by (intro top_loop_ok parse_global_args_ok skip_newlines_ok) (simp add: parser_ok_def parser_new_def)

lemma parse_ast_ok: "parse source tokens = Inr (ast, ws) \<Longrightarrow> ast_ok ast"
  using parse_top_ok [of source tokens]
  by (auto simp: parse_def Let_def ast_ok_def parser_ok_def split: if_splits)

end
