(* ===== verification/Directive_Props.thy ===== *)
theory Directive_Props
  imports Grammar_Results
begin

text \<open>
  What single directives make of their line: the command text of \<open>RUN\<close>, the ports of \<open>EXPOSE\<close>, the
  nodes of a line with several pairs, and where a failing line leaves the parser.
\<close>

section \<open>The rest of a line\<close>

definition line_tokens :: "parser \<Rightarrow> Token list" where
  "line_tokens p = takeWhile (\<lambda>t. tk_kind t \<noteq> TkNewline) (drop (p_pos p) (p_tokens p))"

lemma line_tokens_step:
  assumes "p_peek p = Some t" and "tk_kind t \<noteq> TkNewline"
  shows "line_tokens p = t # line_tokens (snd (advance p))"
proof -
  have "drop (p_pos p) (p_tokens p) = t # drop (Suc (p_pos p)) (p_tokens p)"
    using assms(1) by (auto simp: p_peek_Some Cons_nth_drop_Suc)
  with assms show ?thesis by (simp add: line_tokens_def advance_def)
qed

lemma line_tokens_end:
  assumes "p_peek p = None \<or> (\<exists>t. p_peek p = Some t \<and> tk_kind t = TkNewline)"
  shows "line_tokens p = []"
  using assms
  by (auto simp: line_tokens_def p_peek_Some p_peek_def Cons_nth_drop_Suc [symmetric] split: if_splits)

lemma slurp_line_result:
  "slurp_line e p =
     (if line_tokens p = [] then e else sp_end (tk_span (last (line_tokens p))),
      p \<lparr> p_pos := p_pos p + length (line_tokens p) \<rparr>)"
proof (induction e p rule: slurp_line.induct)
  case (1 e p)
  show ?case
  proof (cases "\<exists>t. p_peek p = Some t \<and> tk_kind t \<noteq> TkNewline")
    case True
    then obtain t where t: "p_peek p = Some t" "tk_kind t \<noteq> TkNewline" by blast
    have "slurp_line e p = slurp_line (sp_end (tk_span t)) (snd (advance p))"
      using t by (subst slurp_line.simps) simp
    also have "\<dots> = (if line_tokens p = [] then e else sp_end (tk_span (last (line_tokens p))),
      p \<lparr> p_pos := p_pos p + length (line_tokens p) \<rparr>)"
      using 1 [OF t] line_tokens_step [OF t] t(1) by (simp add: advance_def)
    finally show ?thesis .
  next
    case False
    then have "slurp_line e p = (e, p)" by (subst slurp_line.simps) (auto split: option.split)
    moreover have "line_tokens p = []" using False by (intro line_tokens_end) (cases "p_peek p"; auto)
    ultimately show ?thesis by simp
  qed
qed

lemma after_line:
  "p_peek (p \<lparr> p_pos := p_pos p + length (line_tokens p) \<rparr>) \<noteq> Some t \<or> tk_kind t = TkNewline"
proof -
  let ?d = "drop (p_pos p) (p_tokens p)" and ?P = "\<lambda>t. tk_kind t \<noteq> TkNewline"
  have "tk_kind (?d ! length (takeWhile ?P ?d)) = TkNewline" if "length (takeWhile ?P ?d) < length ?d"
    using nth_length_takeWhile [OF that] by simp
  then show ?thesis by (auto simp: p_peek_Some line_tokens_def)
qed

lemma expect_newline_after_line:
  "expect_newline_after d (p \<lparr> p_pos := p_pos p + length (line_tokens p) \<rparr>) =
   p \<lparr> p_pos := p_pos p + length (line_tokens p) \<rparr>"
  using after_line [of p] by (auto simp: expect_newline_after_def split: option.split)

text \<open>The text of the rest of a line, from its first token to the end of its last.\<close>

definition line_text :: "parser \<Rightarrow> string" where
  "line_text p =
     (case line_tokens p of
        [] \<Rightarrow> []
      | t # ts \<Rightarrow> slice (p_source p) (sp_start (tk_span t)) (sp_end (tk_span (last (t # ts)))))"

definition is_long_option :: "TokenKind \<Rightarrow> bool" where
  "is_long_option k = (case k of TkLongOption _ _ \<Rightarrow> True | _ \<Rightarrow> False)"

lemma run_mounts_none:
  assumes "p_peek p = Some t" and "\<not> is_long_option (tk_kind t)"
  shows "run_mounts [] p = (Some [], p)"
  using assms by (subst run_mounts_step) (auto simp: peek_kind_def is_long_option_def split: TokenKind.splits)

lemma parse_run_line:
  assumes t: "p_peek p = Some t" and k: "tk_kind t \<noteq> TkNewline" "tk_kind t \<noteq> TkPunct PLBracket"
    and opt: "\<not> is_long_option (tk_kind t)"
  shows "parse_run start p =
    (Some (DirRun \<lparr> rn_command = RunShell (Spanned_new (line_text p)
        (Span_new (sp_start (tk_span t)) (sp_end (tk_span (last (line_tokens p)))))),
       rn_mounts = [], rn_span = Span_new start (sp_end (tk_span (last (line_tokens p)))) \<rparr>),
     p \<lparr> p_pos := p_pos p + length (line_tokens p) \<rparr>)"
proof -
  obtain ts where l: "line_tokens p = t # ts" using line_tokens_step [OF t k(1)] by blast
  then have lt: "line_text p = slice (p_source p) (sp_start (tk_span t)) (sp_end (tk_span (last (line_tokens p))))"
    by (simp add: line_text_def)
  show ?thesis
    unfolding parse_run_def andThen_def run_mounts_none [OF t opt]
    using t k by (simp add: Let_def slurp_line_result lt expect_newline_after_line)
       (simp add: l)
qed

lemma parse_cmd_line:
  assumes t: "p_peek p = Some t" and k: "tk_kind t \<noteq> TkNewline" "tk_kind t \<noteq> TkPunct PLBracket"
  shows "parse_cmd start p =
    (Some (DirCmd \<lparr> cm_command = CmdShell (Spanned_new (line_text p)
        (Span_new (sp_start (tk_span t)) (sp_end (tk_span (last (line_tokens p)))))),
       cm_span = Span_new start (sp_end (tk_span (last (line_tokens p)))) \<rparr>),
     p \<lparr> p_pos := p_pos p + length (line_tokens p) \<rparr>)"
proof -
  obtain ts where l: "line_tokens p = t # ts" using line_tokens_step [OF t k(1)] by blast
  then have lt: "line_text p = slice (p_source p) (sp_start (tk_span t)) (sp_end (tk_span (last (line_tokens p))))"
    by (simp add: line_text_def)
  show ?thesis
    unfolding parse_cmd_def finish_cmd_def
    using t k by (simp add: Let_def slurp_line_result lt expect_newline_after_line) (simp add: l)
qed


section \<open>Ports\<close>

lemma parse_expose_entry_port:
  assumes "parse_expose_entry p = (Some (port, proto, sp), q)"
  shows "\<exists>t n. p_peek p = Some t \<and> tk_kind t = TkNumber n \<and> unat n \<le> 65535 \<and> unat port = unat n"
proof -
  from assms obtain t p1 m h where a: "advance_or_err m h p = (Some t, p1)"
    and e: "expose_port t p1 = (Some (port, proto, sp), q)"
    unfolding parse_expose_entry_def andThen_Some by blast
  have "p_peek p = Some t" using advance_or_err_Some [OF a] by (simp add: p_peek_Some)
  moreover obtain n where n: "tk_kind t = TkNumber n" "n \<le> 65535" "port = ucast n"
  proof (cases "tk_kind t")
    case (TkNumber n)
    have "port = x" if "expose_protocol x y u r = (Some (port, proto, sp), q)" for x y u r
      using that by (auto simp: expose_protocol_def Let_def fail_def split: TokenKind.splits if_splits)
    then show ?thesis
      using e TkNumber that [of n]
      by (auto simp: expose_port_def fail_def andThen_Some split: if_splits)
  qed (use e in \<open>auto simp: expose_port_def fail_def\<close>)
  moreover have "unat n \<le> 65535" using n(2) by (simp add: word_le_nat_alt)
  moreover have "unat (ucast n :: u16) = unat n"
    using \<open>unat n \<le> 65535\<close> by (simp add: unsigned_ucast_eq unsigned_take_bit_eq take_bit_nat_eq_self)
  ultimately show ?thesis by auto
qed


section \<open>Lines with several pairs\<close>

definition label_pair :: "Directive \<Rightarrow> (string \<times> string) option" where
  "label_pair d = (case d of DirLabel l \<Rightarrow> Some (label_key_str (sd_value (lb_key l)), label_value_str (sd_value (lb_value l)))
                   | _ \<Rightarrow> None)"

definition env_pair :: "Directive \<Rightarrow> (string \<times> string) option" where
  "env_pair d = (case d of DirEnv v \<Rightarrow> Some (env_name_str (sd_value (ev_key v)), env_value_str (sd_value (ev_value v)))
                 | _ \<Rightarrow> None)"

definition pair_texts :: "(string Spanned \<times> string Spanned) list \<Rightarrow> (string \<times> string) option list" where
  "pair_texts ps = map (\<lambda>(k, v). Some (sd_value k, sd_value v)) ps"

lemma new_keeps_text:
  "new_LabelKey s = Inr a1 \<Longrightarrow> label_key_str a1 = s"
  "new_LabelValue s = Inr a2 \<Longrightarrow> label_value_str a2 = s"
  "new_EnvVarName s = Inr a3 \<Longrightarrow> env_name_str a3 = s"
  "new_EnvVarValue s = Inr a4 \<Longrightarrow> env_value_str a4 = s"
  by (auto simp: new_LabelKey_def new_LabelValue_def new_EnvVarName_def new_EnvVarValue_def
      dest: label_key.keeps label_value.keeps env_name.keeps env_value.keeps)

lemma build_labels_pairs: "yields (\<lambda>ds. map label_pair ds = pair_texts ps) (build_labels start i ps) p"
proof (induction start i ps arbitrary: p rule: build_labels.induct)
  case (2 start i k v rest)
  show ?case
    unfolding build_labels.simps
    by (intro yields_andThen yields_ok)
       (auto simp: label_pair_def pair_texts_def
         dest!: new_keeps_text(1,2) [OF validated_result [THEN conjunct1]] yieldsD [OF 2 [simplified]])
qed (simp add: yields_def pair_texts_def)

lemma build_envs_pairs: "yields (\<lambda>ds. map env_pair ds = pair_texts ps) (build_envs start i ps) p"
proof (induction start i ps arbitrary: p rule: build_envs.induct)
  case (2 start i k v rest)
  show ?case
    unfolding build_envs.simps
    by (intro yields_andThen yields_ok)
       (auto simp: env_pair_def pair_texts_def
         dest!: new_keeps_text(3,4) [OF validated_result [THEN conjunct1]] yieldsD [OF 2 [simplified]])
qed (simp add: yields_def pair_texts_def)

text \<open>The nodes that a \<open>LABEL\<close> or \<open>ENV\<close> line adds to its stage.\<close>

lemma key_value_step:
  assumes "p_pending p = []" and "p_peek p = Some t" and "tk_kind t = TkKeyword kw"
    and "parse_keyword kw (tk_span t) = andThen (key_value_list_loop x [])
      (\<lambda>ps p. andThen (build ps) take_first_queue_rest (expect_newline_after x p))"
    and "\<And>ps q. yields (P ps) (build ps) q" and "\<And>ps q. unqueued.keeps (build ps) q"
    and "parse_directive p = (Some d, q)"
  shows "\<exists>ps q'. key_value_list_loop x [] (snd (advance p)) = (Some ps, q') \<and> P ps (fst (stage_step p))"
proof -
  have "parse_keyword kw (tk_span t) (snd (advance p)) = (Some d, q)"
    using assms(2,3,7) by (simp add: parse_directive_def)
  then obtain ps q1 ds q2 where loop: "key_value_list_loop x [] (snd (advance p)) = (Some ps, q1)"
    and b: "build ps (expect_newline_after x q1) = (Some ds, q2)"
    and tk: "take_first_queue_rest ds q2 = (Some d, q)"
    unfolding assms(4) by (auto simp: andThen_Some)
  have "p_pending q2 = []"
    using assms(1) unqueued_pending [OF assms(6) b] unqueued_pending [OF unqueued.key_value_list_loop_keeps loop]
      unqueued.advance_Q [of p] by (simp add: same_pending_def)
  then have "fst (stage_step p) = ds"
    using take_first_queue_rest_Some [OF tk] assms(7) by (auto simp: stage_step_def)
  then show ?thesis using loop yieldsD [OF assms(5) b] by blast
qed

section \<open>Properties\<close>


definition run_sample :: string where
  "run_sample = ''RUN echo  # a=b''"


text \<open>
  a port that \<open>EXPOSE\<close> accepts is the number as written: it is at most 65535, and the conversion
  from the lexer's 64 bits to 16 bits loses nothing.
\<close>

theorem expose_port_exact:
  assumes "parse_expose_entry p = (Some (port, proto, sp), q)"
  shows "\<exists>t n. p_peek p = Some t \<and> tk_kind t = TkNumber n \<and> unat n \<le> 65535 \<and> unat port = unat n"
  by (rule parse_expose_entry_port [OF assms])

definition expose_sample :: parser where
  "expose_sample = parser_new ''8080/udp''
     [\<lparr> tk_kind = TkNumber 8080, tk_span = Span_new 0 4 \<rparr>, \<lparr> tk_kind = TkIdent ''/udp'', tk_span = Span_new 4 8 \<rparr>]"

theorem expose_port_exact_witness:
  "\<exists>t n. p_peek expose_sample = Some t \<and> tk_kind t = TkNumber n \<and> unat n \<le> 65535 \<and> unat (8080 :: u16) = unat n"
proof -
  have "parse_expose_entry expose_sample = (Some (8080, Udp, Span_new 0 8), expose_sample \<lparr> p_pos := 2 \<rparr>)"
    by code_simp
  then show ?thesis by (rule expose_port_exact)
qed

text \<open>
  C23: a \<open>LABEL\<close> or \<open>ENV\<close> line that parses adds to its stage exactly one node per pair, in the order of
  the line, each holding the text of its key and of its value.
\<close>

theorem multi_pair_lines:
  assumes "p_pending p = []" and "p_peek p = Some t" and "parse_directive p = (Some d, q)"
  shows "(tk_kind t = TkKeyword KwLabel \<longrightarrow>
           (\<exists>ps q'. parse_key_value_list ''LABEL'' (snd (advance p)) = (Some ps, q') \<and>
                    map label_pair (fst (stage_step p)) = pair_texts ps)) \<and>
         (tk_kind t = TkKeyword KwEnv \<longrightarrow>
           (\<exists>ps q'. parse_key_value_list ''ENV'' (snd (advance p)) = (Some ps, q') \<and>
                    map env_pair (fst (stage_step p)) = pair_texts ps))"
  unfolding parse_key_value_list_def
  apply (intro conjI impI)
   apply (erule key_value_step [OF assms(1,2) _ _ build_labels_pairs unqueued.build_labels_keeps assms(3)])
   apply (simp add: parse_keyword_def parse_label_def parse_key_value_list_def)
  apply (erule key_value_step [OF assms(1,2) _ _ build_envs_pairs unqueued.build_envs_keeps assms(3)])
  apply (simp add: parse_keyword_def parse_env_def parse_key_value_list_def)
  done

definition env_sample :: parser where
  "env_sample = parser_new ''ENV A=x''
     [\<lparr> tk_kind = TkKeyword KwEnv, tk_span = Span_new 0 3 \<rparr>, \<lparr> tk_kind = TkIdent ''A'', tk_span = Span_new 4 5 \<rparr>,
      \<lparr> tk_kind = TkPunct PEquals, tk_span = Span_new 5 6 \<rparr>, \<lparr> tk_kind = TkIdent ''x'', tk_span = Span_new 6 7 \<rparr>]"

theorem multi_pair_lines_witness:
  "\<exists>ps q'. parse_key_value_list ''ENV'' (snd (advance env_sample)) = (Some ps, q') \<and>
           map env_pair (fst (stage_step env_sample)) = pair_texts ps"
proof -
  let ?t = "\<lparr> tk_kind = TkKeyword KwEnv, tk_span = Span_new 0 3 \<rparr>"
  have start: "p_pending env_sample = []" "p_peek env_sample = Some ?t" by code_simp+
  have "fst (parse_directive env_sample) \<noteq> None" by code_simp
  then obtain d q where "parse_directive env_sample = (Some d, q)"
    by (metis not_None_eq prod.collapse)
  from multi_pair_lines [OF start this] show ?thesis by simp
qed

text \<open>
  \<open>USER\<close> with a bare number never parses, because the lexer makes a number of it and the directive
  asks for an identifier, although the newtype behind the directive accepts a numeric uid.
\<close>

theorem numeric_user_rejected:
  assumes "p_peek p = Some t" and "tk_kind t = TkNumber n"
  shows "fst (parse_user start p) = None \<and> Username_new ''1000'' = Inr (Username ''1000'')"
proof -
  have "username_grammar ''1000''"
    by (simp add: username_grammar_def user_component_grammar_def split_once_def is_ascii_digit_def byte_def
        dec_value_def digit_value_def)
  then have "Username_new ''1000'' = Inr (Username ''1000'')"
    by (metis username.accepts username.keeps Username.collapse)
  with assms show ?thesis
    by (simp add: parse_user_def expect_ident_arg_def andThen_def advance_or_err_def advance_def fail_def)
qed

theorem numeric_user_rejected_witness:
  "fst (parse_user 0 (parser_new ''1000'' [\<lparr> tk_kind = TkNumber 1000, tk_span = Span_new 0 4 \<rparr>])) = None \<and>
   Username_new ''1000'' = Inr (Username ''1000'')"
  using numeric_user_rejected [of "parser_new ''1000'' [\<lparr> tk_kind = TkNumber 1000, tk_span = Span_new 0 4 \<rparr>]"
      "\<lparr> tk_kind = TkNumber 1000, tk_span = Span_new 0 4 \<rparr>" 1000 0]
  by (simp add: p_peek_def parser_new_def)

end
