(* ===== verification/Lexer_Props.thy ===== *)
theory Lexer_Props
  imports Lexer
begin

text \<open>
  What the tokenizer guarantees: the spans of its tokens are non-empty, ordered and inside the
  source; each token's payload is determined by the bytes it spans; every byte outside a token is
  blank, a continuation or a comment unless an error was reported; positions fall on character
  boundaries; at most 257 diagnostics are kept; and quoting is inverted by lexing.
\<close>

section \<open>Ordered spans\<close>

definition spans_ordered :: "Token list \<Rightarrow> bool" where
  "spans_ordered ts \<longleftrightarrow>
     sorted_wrt (\<lambda>a b. sp_end (tk_span a) \<le> sp_start (tk_span b)) ts \<and>
     list_all (\<lambda>t. sp_start (tk_span t) < sp_end (tk_span t)) ts"

definition spans_upto :: "nat \<Rightarrow> Token list \<Rightarrow> bool" where
  "spans_upto n ts \<longleftrightarrow> list_all (\<lambda>t. sp_end (tk_span t) \<le> n) ts"

lemma spans_ordered_snoc:
  assumes "spans_ordered ts" and "spans_upto n ts" and "n \<le> a" and "a < b"
  shows "spans_ordered (ts @ [\<lparr> tk_kind = k, tk_span = Span_new a b \<rparr>])"
    and "spans_upto b (ts @ [\<lparr> tk_kind = k, tk_span = Span_new a b \<rparr>])"
  using assms
  by (auto simp: spans_ordered_def spans_upto_def Span_new_def sorted_wrt_append list_all_iff
      dest: bspec order_trans)

lemma spans_upto_mono: "spans_upto n ts \<Longrightarrow> n \<le> m \<Longrightarrow> spans_upto m ts"
  by (auto simp: spans_upto_def list_all_iff)

definition tokens_inv :: "lexer \<Rightarrow> bool" where
  "tokens_inv l \<longleftrightarrow> spans_ordered (lx_tokens l) \<and> spans_upto (lx_pos l) (lx_tokens l)"

text \<open>
  One iteration appends at most one token, and that token spans exactly the bytes from the old
  position to the new one.
\<close>

lemma lex_step_token:
  assumes "lx_pos l < length (lx_source l)"
  shows "lx_tokens (lex_step l) = lx_tokens l \<or>
         (\<exists>k. lx_tokens (lex_step l) =
                lx_tokens l @ [\<lparr> tk_kind = k, tk_span = Span_new (lx_pos l) (lx_pos (lex_step l)) \<rparr>])"
  by (rule lex_step_rule [OF assms])
     (auto simp: skip_comment_def lex_string_def lex_number_def lex_word_def lex_long_option_def
       unexpected_character_def Let_def split: prod.splits)

lemma tokens_inv_step: "tokens_inv l \<Longrightarrow> lx_pos l < length (lx_source l) \<Longrightarrow> tokens_inv (lex_step l)"
  using lex_step_token [of l] lex_step_pos [of l] spans_ordered_snoc [of "lx_tokens l" "lx_pos l"]
    spans_upto_mono [of "lx_pos l" "lx_tokens l" "lx_pos (lex_step l)"]
  by (auto simp: tokens_inv_def)

lemma tokenize_spans:
  "spans_ordered (fst (tokenize s)) \<and> spans_upto (length s) (fst (tokenize s))"
proof -
  have "tokens_inv (lexer_run (lexer_new s))"
    by (rule lexer_run_invariant [of tokens_inv, OF tokens_inv_step])
       (simp_all add: tokens_inv_def spans_ordered_def spans_upto_def lexer_new_def)
  moreover have "lx_pos (lexer_run (lexer_new s)) = length s"
    using lexer_run_pos [of "lexer_new s"] by (simp add: lexer_new_def)
  ultimately show ?thesis by (simp add: tokens_inv_def tokenize_def Let_def)
qed


section \<open>Errors\<close>

definition errors_inv :: "lexer \<Rightarrow> bool" where
  "errors_inv l \<longleftrightarrow>
     length (lx_errors l) \<le> 257 \<and>
     list_all (\<lambda>d. dg_severity d = SevError \<and> diag_in (length (lx_source l)) d) (lx_errors l)"

lemma errors_inv_lex_error:
  assumes "errors_inv l" and "dg_severity d = SevError" and "diag_in (length (lx_source l)) d"
  shows "errors_inv (lex_error d l)"
  using assms by (auto simp: errors_inv_def lex_error_def push_capped_def MAX_COLLECTED_DIAGNOSTICS_def)

lemma errors_inv_eq:
  "lx_errors l' = lx_errors l \<Longrightarrow> lx_source l' = lx_source l \<Longrightarrow> errors_inv l' = errors_inv l"
  by (simp add: errors_inv_def)

lemma errors_inv_step:
  assumes "errors_inv l" and "lx_pos l < length (lx_source l)"
  shows "errors_inv (lex_step l)"
proof (rule lex_step_rule [OF assms(2)])
  let ?q = "lx_source l ! lx_pos l"
  obtain pos v c where loop: "string_loop (lx_source l) ?q (lx_pos l + 1) [] = (pos, v, c)"
    by (cases "string_loop (lx_source l) ?q (lx_pos l + 1) []")
  have "lx_pos l + 1 \<le> pos \<and> pos \<le> length (lx_source l)"
    using string_loop_bounds [of "lx_pos l + 1" "lx_source l" ?q "[]"] loop assms(2) by simp
  then show "errors_inv (lex_string ?q l)"
    using assms loop
    by (auto simp: lex_string_def Let_def errors_inv_eq [of "push_token _ _"] errors_inv_eq [of "l\<lparr>lx_pos := _\<rparr>" l]
        intro!: errors_inv_lex_error)
next
  let ?p = "scan_while is_ascii_digit (lx_source l) (lx_pos l)"
  have "lx_pos l \<le> ?p \<and> ?p \<le> length (lx_source l)"
    using assms(2) by (auto intro: scan_while_ge scan_while_le)
  then show "errors_inv (lex_number l)"
    using assms
    by (auto simp: lex_number_def Let_def errors_inv_eq [of "push_token _ _"]
        errors_inv_eq [of "l\<lparr>lx_pos := _\<rparr>" l] split: prod.split intro!: errors_inv_lex_error)
next
  show "errors_inv (unexpected_character (lx_source l ! lx_pos l) l)"
    using assms
    by (auto simp: unexpected_character_def errors_inv_eq [of "_\<lparr>lx_pos := _\<rparr>"]
        intro!: errors_inv_lex_error)
next
  show "errors_inv (lex_long_option l)"
    using assms
    by (auto simp: lex_long_option_def Let_def errors_inv_eq [of "push_token _ _"]
        errors_inv_eq [of "l\<lparr>lx_pos := _\<rparr>" l])
qed (use assms in \<open>auto simp: errors_inv_def skip_comment_def lex_word_def Let_def\<close>)

lemma tokenize_errors:
  "length (snd (tokenize s)) \<le> 257 \<and>
   list_all (\<lambda>d. dg_severity d = SevError \<and> diag_in (length s) d) (snd (tokenize s))"
proof -
  have "errors_inv (lexer_run (lexer_new s))"
    by (rule lexer_run_invariant [of errors_inv, OF errors_inv_step])
       (simp_all add: errors_inv_def lexer_new_def)
  then show ?thesis by (simp add: errors_inv_def tokenize_def Let_def lexer_new_def)
qed


section \<open>Numbers\<close>

lemma number_digits:
  assumes "list_all is_ascii_digit ds"
  shows "foldl number_step (0, False) ds =
           (if dec_value ds < 2 ^ 64 then (of_nat (dec_value ds), False) else (- 1, True))"
  using assms
proof (induction ds rule: rev_induct)
  case Nil
  then show ?case by simp
next
  case (snoc c ds)
  let ?v = "dec_value ds" and ?d = "digit_value c"
  have d: "?d < 10" using snoc.prems by (simp add: digit_value_less)
  show ?case
  proof (cases "?v < 2 ^ 64")
    case True
    have u: "unat (of_nat ?v :: u64) = ?v" "unat (of_nat ?d :: u64) = ?d"
      using True d by (simp_all add: unat_of_nat)
    show ?thesis
    proof (cases "10 * ?v < 2 ^ 64")
      case m: True
      then have "unat (of_nat ?v * 10 :: u64) = 10 * ?v"
        using u by (simp add: unat_word_ariths mult.commute)
      then show ?thesis
        using snoc m u True
        by (auto simp: number_step_def checked_mul_def checked_add_def mult.commute)
    next
      case False
      then show ?thesis
        using snoc u True by (auto simp: number_step_def checked_mul_def mult.commute)
    qed
  next
    case False
    moreover have "unat (- 1 :: u64) = 2 ^ 64 - 1" by (simp add: unsigned_minus_1_eq_mask mask_eq_exp_minus_1)
    ultimately show ?thesis
      using snoc by (simp add: number_step_def checked_mul_def)
  qed
qed


section \<open>Token text\<close>

text \<open>The body of a quoted string and the value it denotes.\<close>

inductive quoted :: "char \<Rightarrow> string \<Rightarrow> string \<Rightarrow> bool" for q :: char where
  quoted_nil: "quoted q [] []"
| quoted_plain:
    "c \<noteq> q \<Longrightarrow> c \<noteq> BSL \<Longrightarrow> length cs = utf8_len c - 1 \<Longrightarrow>
     quoted q rest v \<Longrightarrow> quoted q (c # cs @ rest) (c # cs @ v)"
| quoted_escape:
    "escape_char c = Some e \<Longrightarrow> quoted q rest v \<Longrightarrow> BSL \<noteq> q \<Longrightarrow> quoted q (BSL # c # rest) (e # v)"
| quoted_other:
    "escape_char c = None \<Longrightarrow> length cs = utf8_len c - 1 \<Longrightarrow>
     BSL \<noteq> q \<Longrightarrow> quoted q rest v \<Longrightarrow> quoted q (BSL # c # cs @ rest) (c # cs @ v)"

text \<open>What a token says about the bytes it spans.\<close>

fun kind_text :: "TokenKind \<Rightarrow> string \<Rightarrow> bool" where
  "kind_text (TkKeyword k) text \<longleftrightarrow> (text, k) \<in> set keyword_table"
| "kind_text (TkIdent w) text \<longleftrightarrow>
     text = w \<and> w \<noteq> [] \<and> is_word_start (hd w) \<and> list_all is_word_cont w \<and> w \<notin> fst ` set keyword_table"
| "kind_text (TkString v) text \<longleftrightarrow>
     (\<exists>q body. (q = DQ \<or> q = SQ) \<and> text = q # body @ [q] \<and> quoted q body v)"
| "kind_text (TkNumber n) text \<longleftrightarrow>
     text \<noteq> [] \<and> list_all is_ascii_digit text \<and> unat n = min (dec_value text) (2 ^ 64 - 1)"
| "kind_text (TkPunct p) text \<longleftrightarrow> text = [punct_char p]"
| "kind_text (TkLongOption name None) text \<longleftrightarrow> text = ''--'' @ name \<and> list_all is_word_cont name"
| "kind_text (TkLongOption name (Some v)) text \<longleftrightarrow>
     text = ''--'' @ name @ ''='' @ v \<and> list_all is_word_cont name \<and>
     list_all (\<lambda>c. c \<notin> {SP, TAB, NL, CR}) v"
| "kind_text TkNewline text \<longleftrightarrow> text = [NL]"

definition token_text :: "string \<Rightarrow> Token \<Rightarrow> bool" where
  "token_text s t \<longleftrightarrow> kind_text (tk_kind t) (slice s (sp_start (tk_span t)) (sp_end (tk_span t)))"

lemma slice_Cons: "i < j \<Longrightarrow> i < length s \<Longrightarrow> slice s i j = s ! i # slice s (Suc i) j"
  by (simp add: slice_def Cons_nth_drop_Suc [symmetric] take_Cons' flip: Suc_diff_Suc)

lemma slice_self [simp]: "slice s i i = []"
  by (simp add: slice_def)

lemma slice_scan_while:
  "i \<le> length s \<Longrightarrow> slice s i (scan_while P s i) = takeWhile P (drop i s)"
  by (simp add: scan_while_takeWhile slice_def takeWhile_eq_take [symmetric])

lemma list_all_takeWhile: "list_all P (takeWhile P xs)"
  by (auto simp: list_all_iff dest: set_takeWhileD)

lemma keyword_lookup_Some: "Keyword_lookup w = Some k \<Longrightarrow> (w, k) \<in> set keyword_table"
  unfolding Keyword_lookup_def by (rule map_of_SomeD)

lemma keyword_lookup_None: "Keyword_lookup w = None \<Longrightarrow> w \<notin> fst ` set keyword_table"
  unfolding Keyword_lookup_def by (simp add: map_of_eq_None_iff)

lemma slice_char_at:
  "i < length s \<Longrightarrow> i + length (char_at s i) \<le> j \<Longrightarrow>
     slice s i j = char_at s i @ slice s (i + length (char_at s i)) j"
  using slice_append [of i "i + length (char_at s i)" j s]
  by (auto simp: char_at_def slice_def min_def)

lemma char_at_full:
  assumes "i + utf8_len (s ! i) \<le> length s"
  obtains cs where "char_at s i = s ! i # cs" and "length cs = utf8_len (s ! i) - 1"
    and "length (char_at s i) = utf8_len (s ! i)"
proof -
  have i: "i < length s" using assms utf8_len_pos [of "s ! i"] by linarith
  then have d: "drop i s = s ! i # drop (Suc i) s" by (simp add: Cons_nth_drop_Suc)
  obtain n where n: "utf8_len (s ! i) = Suc n" using utf8_len_pos [of "s ! i"] by (cases "utf8_len (s ! i)") auto
  show ?thesis
  proof (rule that [of "take n (drop (Suc i) s)"])
    show "char_at s i = s ! i # take n (drop (Suc i) s)" by (simp add: char_at_def d n)
    show "length (take n (drop (Suc i) s)) = utf8_len (s ! i) - 1" using assms n by simp
    show "length (char_at s i) = utf8_len (s ! i)" using assms by (simp add: char_at_def)
  qed
qed

lemma string_loop_end: "pos = length s \<Longrightarrow> string_loop s q pos v = (pos, v, False)"
  by (subst string_loop.simps) simp

lemma char_at_truncated:
  "i < length s \<Longrightarrow> length s < i + utf8_len (s ! i) \<Longrightarrow> i + length (char_at s i) = length s"
  by (simp add: char_at_def)

lemma string_loop_closed:
  assumes "string_loop s q pos v = (pos', v', True)" and "q \<noteq> BSL"
  shows "\<exists>body w. v' = v @ w \<and> quoted q body w \<and> slice s pos pos' = body @ [q] \<and> pos < pos' \<and> pos' \<le> length s"
  using assms
proof (induction s q pos v rule: string_loop.induct)
  case (1 s q pos v)
  have pos: "pos < length s" using "1.prems"(1) by (subst (asm) string_loop.simps) (simp split: if_splits)
  let ?c = "s ! pos"
  consider (close) "?c = q" | (esc) e where "?c \<noteq> q" "?c = BSL" "pos + 1 < length s" "escape_char (s ! (pos + 1)) = Some e"
    | (other) "?c \<noteq> q" "?c = BSL" "pos + 1 < length s" "escape_char (s ! (pos + 1)) = None"
    | (eof) "?c \<noteq> q" "?c = BSL" "\<not> pos + 1 < length s"
    | (plain) "?c \<noteq> q" "?c \<noteq> BSL"
    by (cases "escape_char (s ! (pos + 1))") blast+
  then show ?case
  proof cases
    case close
    then have "pos' = pos + 1" "v' = v"
      using "1.prems"(1) pos by (subst (asm) string_loop.simps, simp)+
    moreover have "slice s pos (pos + 1) = [q]" using close pos by (simp add: slice_Cons)
    ultimately show ?thesis using pos by (intro exI [of _ "[]"]) (auto intro: quoted_nil)
  next
    case (esc e)
    then have st: "string_loop s q (pos + 2) (v @ [e]) = (pos', v', True)"
      using "1.prems"(1) pos by (subst (asm) string_loop.simps) simp
    from "1.IH"(2) [OF pos refl esc(1,2,3,4) st "1.prems"(2)] obtain body w where
      b: "v' = (v @ [e]) @ w" "quoted q body w" "slice s (pos + 2) pos' = body @ [q]"
        "pos + 2 < pos'" "pos' \<le> length s"
      by blast
    have "slice s pos pos' = BSL # s ! (pos + 1) # body @ [q]"
      using esc pos b by (simp add: slice_Cons)
    then show ?thesis
      using b quoted_escape [OF esc(4) b(2)] "1.prems"(2)
      by (intro exI [of _ "BSL # s ! (pos + 1) # body"] exI [of _ "e # w"]) auto
  next
    case other
    let ?u = "char_at s (pos + 1)"
    have st: "string_loop s q (pos + 1 + length ?u) (v @ ?u) = (pos', v', True)"
      using other "1.prems"(1) pos by (subst (asm) string_loop.simps) simp
    have full: "pos + 1 + utf8_len (s ! (pos + 1)) \<le> length s"
      using st char_at_truncated [of "pos + 1" s] string_loop_end [of "pos + 1 + length ?u" s q "v @ ?u"] other(3)
      by (metis Pair_inject not_le)
    obtain cs where u: "?u = s ! (pos + 1) # cs" "length cs = utf8_len (s ! (pos + 1)) - 1"
      using char_at_full [OF full] by metis
    from "1.IH"(1) [OF pos refl other(1,2,3,4) st "1.prems"(2)] obtain body w where
      b: "v' = (v @ ?u) @ w" "quoted q body w" "slice s (pos + 1 + length ?u) pos' = body @ [q]"
        "pos + 1 + length ?u < pos'" "pos' \<le> length s"
      by blast
    have "slice s pos pos' = BSL # ?u @ body @ [q]"
      using other pos b slice_char_at [of "pos + 1" s pos'] by (simp add: slice_Cons)
    then show ?thesis
      using b u quoted_other [OF other(4) u(2) _ b(2)] "1.prems"(2)
      by (intro exI [of _ "BSL # ?u @ body"] exI [of _ "?u @ w"]) auto
  next
    case eof
    then show ?thesis using "1.prems"(1) pos by (subst (asm) string_loop.simps) simp
  next
    case plain
    let ?u = "char_at s pos"
    have st: "string_loop s q (pos + length ?u) (v @ ?u) = (pos', v', True)"
      using plain "1.prems"(1) pos by (subst (asm) string_loop.simps) simp
    have full: "pos + utf8_len (s ! pos) \<le> length s"
      using st char_at_truncated [of pos s] string_loop_end [of "pos + length ?u" s q "v @ ?u"] pos
      by (metis Pair_inject not_le)
    obtain cs where u: "?u = s ! pos # cs" "length cs = utf8_len (s ! pos) - 1"
      using char_at_full [OF full] by metis
    from "1.IH"(3) [OF pos refl plain st "1.prems"(2)] obtain body w where
      b: "v' = (v @ ?u) @ w" "quoted q body w" "slice s (pos + length ?u) pos' = body @ [q]"
        "pos + length ?u < pos'" "pos' \<le> length s"
      by blast
    have "slice s pos pos' = ?u @ body @ [q]"
      using pos b slice_char_at [of pos s pos'] by simp
    then show ?thesis
      using b u quoted_plain [OF plain u(2) b(2)]
      by (intro exI [of _ "?u @ body"] exI [of _ "?u @ w"]) auto
  qed
qed

lemma word_text:
  assumes "i < length s" and "is_word_start (s ! i)"
  shows "kind_text (case Keyword_lookup (slice s i (scan_while is_word_cont s i)) of
                      Some k \<Rightarrow> TkKeyword k
                    | None \<Rightarrow> TkIdent (slice s i (scan_while is_word_cont s i)))
           (slice s i (scan_while is_word_cont s i))"
proof -
  let ?w = "slice s i (scan_while is_word_cont s i)"
  have w: "?w = takeWhile is_word_cont (drop i s)" using assms(1) by (simp add: slice_scan_while)
  have "drop i s = s ! i # drop (Suc i) s" using assms(1) by (simp add: Cons_nth_drop_Suc)
  then have "?w \<noteq> [] \<and> hd ?w = s ! i" using w assms(2) by (simp add: is_word_start_def)
  moreover have "list_all is_word_cont ?w" unfolding w by (rule list_all_takeWhile)
  ultimately show ?thesis
    using assms(2) by (auto split: option.split dest: keyword_lookup_Some keyword_lookup_None)
qed

lemma number_text:
  assumes "i < length s" and "is_ascii_digit (s ! i)"
  shows "kind_text (TkNumber (fst (foldl number_step (0, False) (slice s i (scan_while is_ascii_digit s i)))))
           (slice s i (scan_while is_ascii_digit s i))"
proof -
  let ?w = "slice s i (scan_while is_ascii_digit s i)"
  have w: "?w = takeWhile is_ascii_digit (drop i s)" using assms(1) by (simp add: slice_scan_while)
  have "drop i s = s ! i # drop (Suc i) s" using assms(1) by (simp add: Cons_nth_drop_Suc)
  then have "?w \<noteq> []" using w assms(2) by simp
  moreover have d: "list_all is_ascii_digit ?w" unfolding w by (rule list_all_takeWhile)
  moreover have "unat (- 1 :: u64) = 2 ^ 64 - 1" by (simp add: unsigned_minus_1_eq_mask mask_eq_exp_minus_1)
  ultimately show ?thesis by (auto simp: number_digits unat_of_nat min_def)
qed

lemma long_option_text:
  assumes "i + 2 \<le> length s" and "s ! i = CHR ''-''" and "s ! (i + 1) = CHR ''-''"
    and ne: "name_end = scan_while is_word_cont s (i + 2)"
  shows "kind_text (TkLongOption (slice s (i + 2) name_end) None) (slice s i name_end)"
    and "name_end < length s \<Longrightarrow> s ! name_end = CHR ''='' \<Longrightarrow>
         value_end = scan_while (\<lambda>c. c \<notin> {SP, TAB, NL, CR}) s (name_end + 1) \<Longrightarrow>
         kind_text (TkLongOption (slice s (i + 2) name_end) (Some (slice s (name_end + 1) value_end)))
           (slice s i value_end)"
proof -
  have b: "i + 2 \<le> name_end" using ne by (simp add: scan_while_ge)
  have nm: "list_all is_word_cont (slice s (i + 2) name_end)"
    using ne slice_scan_while [OF assms(1), of is_word_cont] by (simp add: list_all_takeWhile)
  have pre: "slice s i j = ''--'' @ slice s (i + 2) j" if "name_end \<le> j" for j
    using that b assms by (simp add: slice_Cons)
  show "kind_text (TkLongOption (slice s (i + 2) name_end) None) (slice s i name_end)"
    using pre [of name_end] nm by simp
  assume v: "name_end < length s" "s ! name_end = CHR ''=''"
    "value_end = scan_while (\<lambda>c. c \<notin> {SP, TAB, NL, CR}) s (name_end + 1)"
  have ve: "name_end + 1 \<le> value_end" using v(3) by (simp add: scan_while_ge)
  have "slice s (i + 2) value_end = slice s (i + 2) name_end @ slice s name_end value_end"
    using slice_append [of "i + 2" name_end value_end s] b ve by simp
  moreover have "slice s name_end value_end = CHR ''='' # slice s (name_end + 1) value_end"
    using v ve by (simp add: slice_Cons)
  moreover have "slice s (name_end + 1) value_end = takeWhile (\<lambda>c. c \<notin> {SP, TAB, NL, CR}) (drop (name_end + 1) s)"
    unfolding v(3) by (rule slice_scan_while) (use v(1) in simp)
  then have "list_all (\<lambda>c. c \<notin> {SP, TAB, NL, CR}) (slice s (name_end + 1) value_end)"
    by (simp only: list_all_takeWhile)
  ultimately show "kind_text (TkLongOption (slice s (i + 2) name_end) (Some (slice s (name_end + 1) value_end)))
           (slice s i value_end)"
    using pre [of value_end] nm ve by simp
qed

definition text_inv :: "lexer \<Rightarrow> bool" where
  "text_inv l \<longleftrightarrow> list_all (token_text (lx_source l)) (lx_tokens l)"

lemma text_inv_push:
  "text_inv l \<Longrightarrow> lx_source l' = lx_source l \<Longrightarrow> lx_tokens l' = lx_tokens l @ [\<lparr>tk_kind = k, tk_span = Span_new a b\<rparr>] \<Longrightarrow>
   kind_text k (slice (lx_source l) a b) \<Longrightarrow> text_inv l'"
  by (simp add: text_inv_def token_text_def Span_new_def)

lemma text_inv_same:
  "text_inv l \<Longrightarrow> lx_source l' = lx_source l \<Longrightarrow> lx_tokens l' = lx_tokens l \<Longrightarrow> text_inv l'"
  by (simp add: text_inv_def)

lemma text_inv_step:
  assumes "text_inv l" and "lx_pos l < length (lx_source l)"
  shows "text_inv (lex_step l)"
proof (rule lex_step_rule [OF assms(2)])
  let ?s = "lx_source l" and ?i = "lx_pos l"
  note push = text_inv_push [OF assms(1)] and same = text_inv_same [OF assms(1)]
  show "text_inv (emit TkNewline 1 l)" if "?s ! ?i = NL"
    using that assms(2) by (intro push [of _ TkNewline ?i "?i + 1"]) (simp_all add: slice_Cons)
  show "text_inv (emit (TkPunct p) 1 l)" if "?s ! ?i = punct_char p" for p
    using that assms(2) by (intro push [of _ "TkPunct p" ?i "?i + 1"]) (simp_all add: slice_Cons)
  show "text_inv (lex_word l)" if "is_word_start (?s ! ?i)"
    by (rule push [OF _ _ word_text [OF assms(2) that]]) (simp_all add: lex_word_def Let_def)
  show "text_inv (lex_number l)" if "is_ascii_digit (?s ! ?i)"
    by (rule push [OF _ _ number_text [OF assms(2) that]])
       (simp_all add: lex_number_def Let_def split: prod.split)
  show "text_inv (lex_string (?s ! ?i) l)" if q: "?s ! ?i = DQ \<or> ?s ! ?i = SQ"
  proof -
    obtain pos v c where loop: "string_loop ?s (?s ! ?i) (?i + 1) [] = (pos, v, c)"
      by (cases "string_loop ?s (?s ! ?i) (?i + 1) []")
    show ?thesis
    proof (cases c)
      case True
      have "?s ! ?i \<noteq> BSL" using q by auto
      with loop True obtain body where b: "quoted (?s ! ?i) body v"
        "slice ?s (?i + 1) pos = body @ [?s ! ?i]" "?i + 1 < pos"
        using string_loop_closed [of ?s "?s ! ?i" "?i + 1" "[]" pos v] by auto
      have "kind_text (TkString v) (slice ?s ?i pos)"
        using b q assms(2) by (auto simp: slice_Cons)
      then show ?thesis
        using loop True by (intro push [of _ "TkString v" ?i pos]) (simp_all add: lex_string_def Let_def)
    next
      case False
      then show ?thesis using loop by (intro same) (simp_all add: lex_string_def Let_def)
    qed
  qed
  show "text_inv (lex_long_option l)"
    if "?i + 2 \<le> length ?s" "?s ! ?i = CHR ''-''" "?s ! (?i + 1) = CHR ''-''"
  proof (cases "scan_while is_word_cont ?s (?i + 2) < length ?s \<and> ?s ! scan_while is_word_cont ?s (?i + 2) = CHR ''=''")
    case True
    then show ?thesis
      by (intro push [OF _ _ long_option_text(2) [OF that refl _ _ refl]])
         (simp_all add: lex_long_option_def Let_def)
  next
    case False
    then show ?thesis
      by (intro push [OF _ _ long_option_text(1) [OF that refl]])
         (auto simp add: lex_long_option_def Let_def)
  qed
qed (use assms in \<open>auto simp: text_inv_def skip_comment_def unexpected_character_def\<close>)

lemma tokenize_text: "list_all (token_text s) (fst (tokenize s))"
proof -
  have "text_inv (lexer_run (lexer_new s))"
    by (rule lexer_run_invariant [of text_inv, OF text_inv_step]) (simp_all add: text_inv_def lexer_new_def)
  then show ?thesis by (simp add: text_inv_def tokenize_def Let_def lexer_new_def)
qed


section \<open>Shell payloads and skipped text\<close>

definition opens_payload :: "TokenKind \<Rightarrow> bool" where
  "opens_payload k \<longleftrightarrow> k = TkKeyword KwRun \<or> k = TkKeyword KwCmd \<or> k = TkKeyword KwEntrypoint"

text \<open>Whether the logical line that the tokens end in has reached a shell payload.\<close>

definition payload_open :: "Token list \<Rightarrow> bool" where
  "payload_open ts \<longleftrightarrow>
     (\<exists>t \<in> set (takeWhile (\<lambda>t. tk_kind t \<noteq> TkNewline) (rev ts)). opens_payload (tk_kind t))"

lemma payload_open_snoc:
  "payload_open (ts @ [t]) \<longleftrightarrow>
     (if tk_kind t = TkNewline then False else opens_payload (tk_kind t) \<or> payload_open ts)"
  by (auto simp: payload_open_def)

lemma push_token_payload:
  "lx_in_shell_payload (push_token t l) =
     (if tk_kind t = TkNewline then False else opens_payload (tk_kind t) \<or> lx_in_shell_payload l)"
  by (auto simp: push_token_def Let_def opens_payload_def split: TokenKind.split)

definition payload_inv :: "lexer \<Rightarrow> bool" where
  "payload_inv l \<longleftrightarrow> lx_in_shell_payload l = payload_open (lx_tokens l)"

lemma payload_inv_push: "payload_inv l \<Longrightarrow> payload_inv (push_token t l)"
  by (simp add: payload_inv_def push_token_payload payload_open_snoc)

lemma payload_inv_pos [simp]: "payload_inv (l\<lparr>lx_pos := n\<rparr>) = payload_inv l"
  by (simp add: payload_inv_def)

lemma payload_inv_error [simp]: "payload_inv (lex_error d l) = payload_inv l"
  by (simp add: payload_inv_def)

lemma payload_inv_step:
  "payload_inv l \<Longrightarrow> lx_pos l < length (lx_source l) \<Longrightarrow> payload_inv (lex_step l)"
  by (rule lex_step_rule)
     (auto simp: emit_def skip_comment_def lex_string_def lex_number_def lex_word_def
       lex_long_option_def unexpected_character_def Let_def payload_inv_push split: prod.splits)

text \<open>A byte inside a comment, with the tokens that precede the comment's \<open>#\<close>.\<close>

definition comment_at :: "string \<Rightarrow> Token list \<Rightarrow> nat \<Rightarrow> bool" where
  "comment_at s ts i \<longleftrightarrow>
     (\<exists>j. j \<le> i \<and> s ! j = CHR ''#'' \<and> (\<forall>k. j \<le> k \<longrightarrow> k \<le> i \<longrightarrow> s ! k \<noteq> NL) \<and>
          \<not> payload_open (filter (\<lambda>t. sp_end (tk_span t) \<le> j) ts))"

definition covered_at :: "Token list \<Rightarrow> nat \<Rightarrow> bool" where
  "covered_at ts i \<longleftrightarrow> (\<exists>t \<in> set ts. sp_start (tk_span t) \<le> i \<and> i < sp_end (tk_span t))"

definition accounted :: "string \<Rightarrow> Token list \<Rightarrow> nat \<Rightarrow> bool" where
  "accounted s ts i \<longleftrightarrow> covered_at ts i \<or> blank_at s i \<or> comment_at s ts i"

definition gap_inv :: "lexer \<Rightarrow> bool" where
  "gap_inv l \<longleftrightarrow> payload_inv l \<and> tokens_inv l \<and>
     (lx_errors l = [] \<longrightarrow> (\<forall>i < lx_pos l. accounted (lx_source l) (lx_tokens l) i))"

lemma scan_while_stop:
  assumes "i \<le> k" and "k < scan_while P s i"
  shows "P (s ! k)"
  using assms
proof (induction P s i rule: scan_while.induct)
  case (1 P s i)
  have i: "i < length s" "P (s ! i)"
    using 1(2,3) by (subst (asm) (1) scan_while.simps, simp split: if_splits)+
  then have "scan_while P s i = scan_while P s (Suc i)" by (subst scan_while.simps) simp
  with 1 i show ?case by (cases "k = i") auto
qed

lemma accounted_snoc:
  assumes "accounted s ts i" and "i < p" and "p < sp_end (tk_span t)"
  shows "accounted s (ts @ [t]) i"
proof -
  have "comment_at s ts i \<Longrightarrow> comment_at s (ts @ [t]) i"
    unfolding comment_at_def by (elim exE, rule exI) (use assms in auto)
  with assms(1) show ?thesis by (auto simp: accounted_def covered_at_def)
qed

lemma lex_step_no_errors:
  assumes "lx_pos l < length (lx_source l)" and "lx_errors (lex_step l) = []"
  shows "lx_errors l = []"
proof -
  have grow: "lx_errors (lex_error d l') = [] \<Longrightarrow> False" for d l'
    by (auto simp: lex_error_def push_capped_def MAX_COLLECTED_DIAGNOSTICS_def split: if_splits)
  have "lx_errors (lex_step l) = [] \<longrightarrow> lx_errors l = []"
    by (rule lex_step_rule [OF assms(1)])
       (auto simp: emit_def skip_comment_def lex_string_def lex_number_def lex_word_def
         lex_long_option_def unexpected_character_def Let_def dest: grow split: prod.splits if_splits)
  with assms(2) show ?thesis by simp
qed

text \<open>An iteration that reports nothing emits a token or skips bytes that are accounted for.\<close>

lemma lex_step_region:
  assumes "lx_pos l < length (lx_source l)" and "lx_errors (lex_step l) = []" and "payload_inv l" and "tokens_inv l"
  shows "(\<exists>k. lx_tokens (lex_step l) =
                lx_tokens l @ [\<lparr> tk_kind = k, tk_span = Span_new (lx_pos l) (lx_pos (lex_step l)) \<rparr>]) \<or>
         (lx_tokens (lex_step l) = lx_tokens l \<and>
          (\<forall>i. lx_pos l \<le> i \<longrightarrow> i < lx_pos (lex_step l) \<longrightarrow> accounted (lx_source l) (lx_tokens l) i))"
proof -
  let ?G = "\<lambda>l'. lx_errors l' = [] \<longrightarrow>
         (\<exists>k. lx_tokens l' = lx_tokens l @ [\<lparr> tk_kind = k, tk_span = Span_new (lx_pos l) (lx_pos l') \<rparr>]) \<or>
         (lx_tokens l' = lx_tokens l \<and>
          (\<forall>i. lx_pos l \<le> i \<longrightarrow> i < lx_pos l' \<longrightarrow> accounted (lx_source l) (lx_tokens l) i))"
  have grow: "lx_errors (lex_error d l') \<noteq> []" for d l'
    by (auto simp: lex_error_def push_capped_def MAX_COLLECTED_DIAGNOSTICS_def)
  have "?G (lex_step l)"
  proof (rule lex_step_rule [OF assms(1)])
    fix n
    assume "\<forall>i<n. byte (lx_source l ! (lx_pos l + i)) < 128 \<and> blank_at (lx_source l) (lx_pos l + i)"
    then have "blank_at (lx_source l) i" if "lx_pos l \<le> i" "i < lx_pos l + n" for i
      using that by (metis add_diff_inverse_nat nat_add_left_cancel_less not_less)
    then show "?G (l\<lparr>lx_pos := lx_pos l + n\<rparr>)" by (simp add: accounted_def)
  next
    assume h: "lx_source l ! lx_pos l = CHR ''#''" "\<not> lx_in_shell_payload l"
    have "filter (\<lambda>t. sp_end (tk_span t) \<le> lx_pos l) (lx_tokens l) = lx_tokens l"
      using assms(4) by (auto simp: tokens_inv_def spans_upto_def list_all_iff filter_id_conv)
    then have "comment_at (lx_source l) (lx_tokens l) i" if "lx_pos l \<le> i" "i < lx_pos (skip_comment l)" for i
      unfolding comment_at_def using h that assms(3) scan_while_stop [of "lx_pos l" _ "\<lambda>b. b \<noteq> NL" "lx_source l"]
      by (intro exI [of _ "lx_pos l"]) (auto simp: payload_inv_def lex_methods_pos)
    then show "?G (skip_comment l)" by (auto simp: accounted_def skip_comment_def)
  qed (auto simp: lex_string_def lex_number_def lex_word_def lex_long_option_def
        unexpected_character_def Let_def grow split: prod.splits)
  with assms(2) show ?thesis by simp
qed

lemma gap_inv_step:
  assumes "gap_inv l" and "lx_pos l < length (lx_source l)"
  shows "gap_inv (lex_step l)"
proof -
  let ?l = "lex_step l" and ?s = "lx_source l"
  have inv: "payload_inv l" "tokens_inv l" using assms(1) by (simp_all add: gap_inv_def)
  have "accounted ?s (lx_tokens ?l) i" if e: "lx_errors ?l = []" and i: "i < lx_pos ?l" for i
  proof -
    have old: "\<forall>i < lx_pos l. accounted ?s (lx_tokens l) i"
      using assms(1) lex_step_no_errors [OF assms(2) e] by (simp add: gap_inv_def)
    note adv = lex_step_pos [OF assms(2)]
    from lex_step_region [OF assms(2) e inv] show ?thesis
    proof (elim disjE exE conjE)
      fix k
      let ?t = "\<lparr> tk_kind = k, tk_span = Span_new (lx_pos l) (lx_pos ?l) \<rparr>"
      assume t: "lx_tokens ?l = lx_tokens l @ [?t]"
      have "accounted ?s (lx_tokens l @ [?t]) i"
      proof (cases "i < lx_pos l")
        case True
        with old adv show ?thesis by (intro accounted_snoc [of _ _ _ "lx_pos l"]) (simp_all add: Span_new_def)
      next
        case False
        with i show ?thesis by (simp add: accounted_def covered_at_def Span_new_def)
      qed
      with t show ?thesis by simp
    next
      assume "lx_tokens ?l = lx_tokens l"
        and "\<forall>i. lx_pos l \<le> i \<longrightarrow> i < lx_pos ?l \<longrightarrow> accounted ?s (lx_tokens l) i"
      with old i show ?thesis by (cases "i < lx_pos l") simp_all
    qed
  qed
  then show ?thesis
    using payload_inv_step [OF inv(1) assms(2)] tokens_inv_step [OF inv(2) assms(2)]
    by (simp add: gap_inv_def)
qed

lemma tokenize_accounted:
  assumes "snd (tokenize s) = []" and "i < length s"
  shows "accounted s (fst (tokenize s)) i"
proof -
  have "gap_inv (lexer_run (lexer_new s))"
    by (rule lexer_run_invariant [of gap_inv, OF gap_inv_step])
       (simp_all add: gap_inv_def payload_inv_def payload_open_def tokens_inv_def spans_ordered_def
         spans_upto_def lexer_new_def)
  moreover have "lx_pos (lexer_run (lexer_new s)) = length s"
    using lexer_run_pos [of "lexer_new s"] by (simp add: lexer_new_def)
  ultimately show ?thesis
    using assms by (simp add: gap_inv_def tokenize_def Let_def lexer_new_def)
qed

section \<open>Properties\<close>

text \<open>
  C20: the tokenizer is total on any bytes, and the spans of its tokens are non-empty, in source order
  without overlap, and inside the source.
\<close>

theorem tokenize_spans_ordered:
  "case tokenize s of (ts, _) \<Rightarrow>
     sorted_wrt (\<lambda>a b. sp_end (tk_span a) \<le> sp_start (tk_span b)) ts \<and>
     list_all (\<lambda>t. sp_start (tk_span t) < sp_end (tk_span t) \<and> sp_end (tk_span t) \<le> length s) ts"
  using tokenize_spans [of s]
  by (auto simp: spans_ordered_def spans_upto_def list_all_iff split: prod.split)

text \<open>
  C18: each token is what its own bytes say: a keyword or identifier is the spanned word, a string is
  the spanned quotation with its escapes resolved, an option splits at its first equals sign, and a
  number is the decimal value of its digits, clamped to \<open>2 ^ 64 - 1\<close>.
\<close>

theorem tokenize_faithful:
  "list_all (\<lambda>t. kind_text (tk_kind t) (slice s (sp_start (tk_span t)) (sp_end (tk_span t)))) (fst (tokenize s))"
  using tokenize_text [of s] by (simp add: token_text_def [abs_def])

text \<open>
  C15: when lexing reports nothing, every byte of the source is in a token, is blank space or a line
  continuation, or belongs to a comment that starts outside a \<open>RUN\<close>, \<open>CMD\<close> or \<open>ENTRYPOINT\<close> payload;
  so no part of a shell command is dropped as a comment.
\<close>

theorem tokenize_drops_nothing:
  assumes "snd (tokenize s) = []" and "i < length s"
  shows "covered_at (fst (tokenize s)) i \<or> blank_at s i \<or> comment_at s (fst (tokenize s)) i"
  using tokenize_accounted [OF assms] by (simp add: accounted_def)

theorem tokenize_drops_nothing_witness:
  "snd (tokenize ''RUN a #b'') = [] \<and>
   (covered_at (fst (tokenize ''RUN a #b'')) 6 \<or> blank_at ''RUN a #b'' 6 \<or>
    comment_at ''RUN a #b'' (fst (tokenize ''RUN a #b'')) 6)"
proof -
  have "snd (tokenize ''RUN a #b'') = []" by code_simp
  with tokenize_drops_nothing [of "''RUN a #b''" 6] show ?thesis by simp
qed

text \<open>
  at most 257 diagnostics are kept, whatever the input; each is an error located inside the source.
\<close>

theorem tokenize_reports_bounded:
  "length (snd (tokenize s)) \<le> MAX_COLLECTED_DIAGNOSTICS + 1 \<and>
   list_all (\<lambda>d. dg_severity d = SevError \<and> diag_in (length s) d) (snd (tokenize s))"
  using tokenize_errors [of s] by (simp add: MAX_COLLECTED_DIAGNOSTICS_def)

end
