(* ===== verification/Lexer_Utf8.thy ===== *)
theory Lexer_Utf8
  imports Lexer_Props
begin

text \<open>
  The tokenizer on UTF-8 text: it works on bytes, and every position at which it slices the source
  is a character boundary, so no slice can panic.  The second half shows that lexing inverts
  quoting: the literal printed for any text is one token that carries that text.
\<close>

section \<open>Character boundaries\<close>

lemma wf_utf8_drop:
  "wf_utf8 s \<Longrightarrow> is_char_boundary s i \<Longrightarrow> wf_utf8 (drop i s)"
proof (induction s arbitrary: i rule: wf_utf8.induct)
  case (2 b bs)
  let ?n = "utf8_len b"
  have n: "0 < ?n" by (rule utf8_len_pos)
  show ?case
  proof (cases "i < ?n")
    case True
    have "i = 0 \<or> length (b # bs) \<le> i"
    proof (rule ccontr)
      assume c: "\<not> (i = 0 \<or> length (b # bs) \<le> i)"
      then have "take (?n - 1) bs ! (i - 1) \<in> set (take (?n - 1) bs)" using True by (intro nth_mem) auto
      then have "is_cont (bs ! (i - 1))" using 2(2) True c by (auto simp: list_all_iff)
      then show False using 2(3) c by (auto simp: is_char_boundary_def nth_Cons')
    qed
    then show ?thesis using 2(2) by auto
  next
    case False
    then obtain j where j: "i = ?n + j" using le_Suc_ex by (metis not_less)
    have dr: "drop i (b # bs) = drop j (drop (?n - 1) bs)" using j n by (cases ?n) (auto simp: add.commute)
    have len: "?n - 1 \<le> length bs" using 2(2) by simp
    have "is_char_boundary (drop (?n - 1) bs) j"
      using 2(3) j n len by (cases ?n) (auto simp: is_char_boundary_def)
    then show ?thesis using 2(1) 2(2) dr by simp
  qed
qed simp

lemma boundary_char_at:
  assumes "wf_utf8 s" and "is_char_boundary s i" and "i < length s"
  shows "is_char_boundary s (i + length (char_at s i))" and "length (char_at s i) = utf8_len (s ! i)"
proof -
  have d: "drop i s = s ! i # drop (Suc i) s" using assms(3) by (simp add: Cons_nth_drop_Suc)
  have wf: "wf_utf8 (s ! i # drop (Suc i) s)" using wf_utf8_drop [OF assms(1,2)] d by simp
  let ?n = "utf8_len (s ! i)"
  have n: "0 < ?n" by (rule utf8_len_pos)
  have "?n - 1 \<le> length (drop (Suc i) s)" using wf by (simp only: wf_utf8.simps)
  then have len: "i + ?n \<le> length s" using n assms(3) unfolding length_drop by linarith
  show l: "length (char_at s i) = ?n" using len by (simp add: char_at_def)
  have "wf_utf8 (drop (?n - 1) (drop (Suc i) s))" using wf by simp
  moreover have "?n - 1 + Suc i = i + ?n" using n by simp
  ultimately have r: "wf_utf8 (drop (i + ?n) s)" by (simp add: add.commute)
  show "is_char_boundary s (i + length (char_at s i))"
  proof (cases "i + ?n < length s")
    case True
    then have "drop (i + ?n) s = s ! (i + ?n) # drop (Suc (i + ?n)) s" by (simp add: Cons_nth_drop_Suc)
    with r True l show ?thesis by (simp add: is_char_boundary_def)
  next
    case False
    with len l show ?thesis by (simp add: is_char_boundary_def)
  qed
qed

lemma boundary_ascii:
  assumes "wf_utf8 s" and "is_char_boundary s i" and "i < length s" and "byte (s ! i) < 128"
  shows "is_char_boundary s (i + 1)"
proof -
  have "utf8_len (s ! i) = 1" using assms(4) by simp
  with boundary_char_at [OF assms(1-3)] show ?thesis by simp
qed

lemma boundary_ascii_run:
  assumes "wf_utf8 s" and "is_char_boundary s i"
    and "\<forall>k < n. i + k < length s \<and> byte (s ! (i + k)) < 128"
  shows "is_char_boundary s (i + n)"
  using assms(3)
proof (induction n)
  case (Suc n)
  then show ?case using boundary_ascii [OF assms(1), of "i + n"] by simp
qed (simp add: assms(2))

text \<open>A scan that stops at an ASCII byte or at the end stops on a boundary.\<close>

lemma scan_while_not: "i \<le> length s \<Longrightarrow> scan_while P s i < length s \<Longrightarrow> \<not> P (s ! scan_while P s i)"
  by (induction P s i rule: scan_while.induct)
     (metis le_eq_less_or_eq scan_while.simps Suc_leI)

lemma boundary_scan_while:
  assumes "i \<le> length s" and "\<And>b. \<not> P b \<Longrightarrow> byte b < 128"
  shows "is_char_boundary s (scan_while P s i)"
proof (cases "scan_while P s i < length s")
  case True
  then have "byte (s ! scan_while P s i) < 128" using scan_while_not [OF assms(1)] assms(2) by blast
  with True show ?thesis by (simp add: is_char_boundary_def)
next
  case False
  with scan_while_le [OF assms(1), of P] show ?thesis by (simp add: is_char_boundary_def)
qed

lemma boundary_digits:
  assumes "wf_utf8 s" and "is_char_boundary s i" and "i \<le> length s"
  shows "is_char_boundary s (scan_while is_ascii_digit s i)"
proof -
  let ?j = "scan_while is_ascii_digit s i"
  have "i \<le> ?j" "?j \<le> length s" using assms(3) by (auto intro: scan_while_ge scan_while_le)
  moreover have "byte (s ! (i + k)) < 128" if "k < ?j - i" for k
  proof -
    have "i + k < ?j" using that by linarith
    then show ?thesis using scan_while_stop [of i "i + k" is_ascii_digit s] by (simp add: is_ascii_digit_def)
  qed
  ultimately show ?thesis
    using boundary_ascii_run [OF assms(1,2), of "?j - i"] by (auto simp: less_diff_conv add.commute)
qed

lemma escape_char_ascii: "escape_char c = Some e \<Longrightarrow> byte c < 128"
  by (auto simp: escape_char_def byte_def split: if_splits)

lemma string_loop_boundary:
  assumes "wf_utf8 s" and "is_char_boundary s pos" and "pos \<le> length s" and "byte q < 128"
  shows "is_char_boundary s (fst (string_loop s q pos v))"
  using assms
proof (induction s q pos v rule: string_loop.induct)
  case (1 s q pos v)
  show ?case
  proof (cases "pos < length s")
    case False
    then show ?thesis using 1 by (subst string_loop.simps) simp
  next
    case pos: True
    note b1 = boundary_ascii [OF "1.prems"(1,2) pos]
    note bc = boundary_char_at(1) [OF "1.prems"(1,2) pos] length_char_at_le [OF pos]
    consider (close) "s ! pos = q"
      | (esc) e where "s ! pos \<noteq> q" "s ! pos = BSL" "pos + 1 < length s" "escape_char (s ! (pos + 1)) = Some e"
      | (other) "s ! pos \<noteq> q" "s ! pos = BSL" "pos + 1 < length s" "escape_char (s ! (pos + 1)) = None"
      | (eof) "s ! pos \<noteq> q" "s ! pos = BSL" "\<not> pos + 1 < length s"
      | (plain) "s ! pos \<noteq> q" "s ! pos \<noteq> BSL"
      by (cases "escape_char (s ! (pos + 1))") blast+
    then show ?thesis
    proof cases
      case close
      then show ?thesis using b1 "1.prems"(4) pos by (subst string_loop.simps) simp
    next
      case (esc e)
      have p1: "is_char_boundary s (pos + 1)" using b1 esc by (simp add: byte_def)
      have "byte (s ! (pos + 1)) < 128"
        using esc(4) by (rule escape_char_ascii)
      then have "is_char_boundary s (pos + 2)"
        using boundary_ascii [OF "1.prems"(1) p1 esc(3)] by simp
      then show ?thesis
        using "1.IH"(2) [OF pos refl esc] esc pos "1.prems" by (subst string_loop.simps) simp
    next
      case other
      have p1: "is_char_boundary s (pos + 1)" using b1 other by (simp add: byte_def)
      note c = boundary_char_at(1) [OF "1.prems"(1) p1 other(3)] length_char_at_le [OF other(3)]
      show ?thesis
        using "1.IH"(1) [OF pos refl other] other pos "1.prems" c by (subst string_loop.simps) simp
    next
      case eof
      then show ?thesis using b1 pos by (subst string_loop.simps) (simp add: byte_def)
    next
      case plain
      then show ?thesis
        using "1.IH"(3) [OF pos refl plain] pos "1.prems" bc by (subst string_loop.simps) simp
    qed
  qed
qed

definition boundary_inv :: "lexer \<Rightarrow> bool" where
  "boundary_inv l \<longleftrightarrow>
     is_char_boundary (lx_source l) (lx_pos l) \<and>
     list_all (\<lambda>t. is_char_boundary (lx_source l) (sp_start (tk_span t)) \<and>
                   is_char_boundary (lx_source l) (sp_end (tk_span t))) (lx_tokens l)"

lemma not_word_cont_ascii: "\<not> is_word_cont b \<Longrightarrow> byte b < 128"
  by (auto simp: is_word_cont_def byte_def)

lemma blank_ascii: "\<not> b \<notin> {SP, TAB, NL, CR} \<Longrightarrow> byte b < 128"
  by (auto simp: byte_def)

lemma lex_step_boundary:
  assumes "wf_utf8 (lx_source l)" and "is_char_boundary (lx_source l) (lx_pos l)"
    and "lx_pos l < length (lx_source l)"
  shows "is_char_boundary (lx_source l) (lx_pos (lex_step l))"
proof (rule lex_step_rule [OF assms(3)])
  let ?s = "lx_source l" and ?i = "lx_pos l"
  note b1 = boundary_ascii [OF assms]
  show "is_char_boundary ?s (lx_pos (l\<lparr>lx_pos := ?i + n\<rparr>))"
    if "?i + n \<le> length ?s" "\<forall>k<n. byte (?s ! (?i + k)) < 128 \<and> blank_at ?s (?i + k)" for n
    using boundary_ascii_run [OF assms(1,2), of n] that by auto
  show "is_char_boundary ?s (lx_pos (emit TkNewline 1 l))" if "?s ! ?i = NL"
    using b1 that by (simp add: byte_def)
  show "is_char_boundary ?s (lx_pos (emit (TkPunct p) 1 l))" if "?s ! ?i = punct_char p" for p
    using b1 that by (cases p) (simp_all add: byte_def)
  show "is_char_boundary ?s (lx_pos (skip_comment l))"
    unfolding lex_methods_pos using assms(3) by (intro boundary_scan_while) (auto simp: byte_def)
  show "is_char_boundary ?s (lx_pos (lex_string (?s ! ?i) l))" if "?s ! ?i = DQ \<or> ?s ! ?i = SQ"
    unfolding lex_methods_pos using that b1 assms
    by (intro string_loop_boundary) (auto simp: byte_def)
  show "is_char_boundary ?s (lx_pos (lex_long_option l))" if "?i + 2 \<le> length ?s"
  proof -
    let ?n = "scan_while is_word_cont ?s (?i + 2)"
    have n: "is_char_boundary ?s ?n" using that by (intro boundary_scan_while not_word_cont_ascii)
    have v: "?n < length ?s \<Longrightarrow> is_char_boundary ?s (scan_while (\<lambda>c. c \<notin> {SP, TAB, NL, CR}) ?s (?n + 1))"
      by (intro boundary_scan_while blank_ascii) auto
    show ?thesis using n v by (auto simp: lex_long_option_def Let_def)
  qed
  show "is_char_boundary ?s (lx_pos (lex_number l))"
    unfolding lex_methods_pos using assms by (intro boundary_digits) auto
  show "is_char_boundary ?s (lx_pos (lex_word l))"
    unfolding lex_methods_pos using assms(3) by (intro boundary_scan_while not_word_cont_ascii) auto
  show "is_char_boundary ?s (lx_pos (unexpected_character (?s ! ?i) l))" if "byte (?s ! ?i) < 128"
    using b1 that by (simp add: lex_methods_pos)
qed

lemma tokenize_boundaries:
  assumes "wf_utf8 s"
  shows "list_all (\<lambda>t. is_char_boundary s (sp_start (tk_span t)) \<and>
                       is_char_boundary s (sp_end (tk_span t))) (fst (tokenize s))"
proof -
  have init: "boundary_inv (lexer_new s)" "lx_source (lexer_new s) = s"
    by (simp_all add: boundary_inv_def lexer_new_def is_char_boundary_def)
  have step: "boundary_inv (lex_step l) \<and> lx_source (lex_step l) = s"
    if "boundary_inv l \<and> lx_source l = s" "lx_pos l < length (lx_source l)" for l
    using that assms lex_step_boundary [of l] lex_step_token [of l]
    by (auto simp: boundary_inv_def Span_new_def)
  have "boundary_inv (lexer_run (lexer_new s)) \<and> lx_source (lexer_run (lexer_new s)) = s"
    by (rule lexer_run_invariant [of "\<lambda>l. boundary_inv l \<and> lx_source l = s", OF step])
       (simp_all add: init)
  then show ?thesis by (simp add: boundary_inv_def tokenize_def Let_def init)
qed


section \<open>Quoting\<close>

definition escape_byte :: "char \<Rightarrow> string" where
  "escape_byte c =
     (if c = NL then [BSL, CHR ''n''] else if c = TAB then [BSL, CHR ''t'']
      else if c = CR then [BSL, CHR ''r''] else if c = BSL \<or> c = DQ then [BSL, c] else [c])"

definition quote_string :: "string \<Rightarrow> string" where
  "quote_string v = DQ # concat (map escape_byte v) @ [DQ]"

lemma escape_byte_cont: "list_all is_cont cs \<Longrightarrow> concat (map escape_byte cs) = cs"
  by (induction cs) (auto simp: escape_byte_def is_cont_def byte_def)

lemma quoted_escape_bytes: "wf_utf8 v \<Longrightarrow> quoted DQ (concat (map escape_byte v)) v"
proof (induction v rule: wf_utf8.induct)
  case 1
  show ?case by (simp add: quoted_nil)
next
  case (2 b bs)
  let ?n = "utf8_len b - 1"
  let ?cs = "take ?n bs" and ?rest = "drop ?n bs"
  have ih: "quoted DQ (concat (map escape_byte ?rest)) ?rest" using 2 by simp
  show ?case
  proof (cases "escape_byte b = [b]")
    case True
    have "concat (map escape_byte bs) = concat (map escape_byte (?cs @ ?rest))" by simp
    also have "\<dots> = ?cs @ concat (map escape_byte ?rest)"
      unfolding map_append concat_append using 2(2) by (simp add: escape_byte_cont)
    finally have e: "concat (map escape_byte (b # bs)) = b # ?cs @ concat (map escape_byte ?rest)"
      using True by simp
    have "b \<noteq> DQ" "b \<noteq> BSL" using True by (auto simp: escape_byte_def split: if_splits)
    moreover have "length ?cs = utf8_len b - 1" using 2(2) by simp
    ultimately have "quoted DQ (b # ?cs @ concat (map escape_byte ?rest)) (b # ?cs @ ?rest)"
      using ih by (intro quoted_plain)
    with e show ?thesis by simp
  next
    case False
    then have b: "byte b < 128" "utf8_len b = 1"
      by (auto simp: escape_byte_def byte_def split: if_splits)
    obtain c where "escape_byte b = [BSL, c]" and "escape_char c = Some b"
      using False by (auto simp: escape_byte_def escape_char_def split: if_splits)
    with ih b show ?thesis using quoted_escape [of c b DQ] by simp
  qed
qed

lemma char_at_append:
  "length cs = utf8_len c - 1 \<Longrightarrow> char_at (pre @ c # cs @ post) (length pre) = c # cs"
  by (cases "utf8_len c") (auto simp: char_at_def nth_append)

lemma string_loop_quoted:
  "quoted q body v \<Longrightarrow>
   string_loop (pre @ body @ q # post) q (length pre) acc = (length pre + length body + 1, acc @ v, True)"
proof (induction arbitrary: pre acc rule: quoted.induct)
  case quoted_nil
  show ?case by (subst string_loop.simps) (simp add: nth_append)
next
  case (quoted_plain c cs rest v)
  have ca: "char_at (pre @ c # cs @ rest @ q # post) (length pre) = c # cs"
    using quoted_plain(3) by (rule char_at_append)
  show ?case
    using quoted_plain ca quoted_plain.IH [of "pre @ c # cs" "acc @ c # cs"]
    by (subst string_loop.simps) (simp add: nth_append)
next
  case (quoted_escape c e rest v)
  show ?case
    using quoted_escape quoted_escape.IH [of "pre @ [BSL, c]" "acc @ [e]"]
    by (subst string_loop.simps) (simp add: nth_append)
next
  case (quoted_other c cs rest v)
  have ca: "char_at (pre @ BSL # c # cs @ rest @ q # post) (Suc (length pre)) = c # cs"
    using char_at_append [of cs c "pre @ [BSL]" "rest @ q # post"] quoted_other(2) by simp
  show ?case
    using quoted_other ca quoted_other.IH [of "pre @ BSL # c # cs" "acc @ c # cs"]
    by (subst string_loop.simps) (simp add: nth_append)
qed

lemma tokenize_quote_string:
  assumes "wf_utf8 v"
  shows "tokenize (quote_string v) =
           ([\<lparr> tk_kind = TkString v, tk_span = Span_new 0 (length (quote_string v)) \<rparr>], [])"
proof -
  let ?b = "concat (map escape_byte v)" and ?s = "quote_string v"
  let ?l = "lexer_new ?s"
  have loop: "string_loop ?s DQ 1 [] = (length ?s, v, True)"
    using string_loop_quoted [OF quoted_escape_bytes [OF assms], of "[DQ]" "[]" "[]"]
    by (simp add: quote_string_def)
  have step: "lex_step ?l = lex_string DQ ?l"
    by (simp add: lex_step_def lexer_new_def quote_string_def Let_def)
  have str: "lex_string DQ ?l =
      push_token \<lparr> tk_kind = TkString v, tk_span = Span_new 0 (length ?s) \<rparr> (?l\<lparr>lx_pos := length ?s\<rparr>)"
    using loop by (simp add: lex_string_def lexer_new_def Let_def)
  have "lexer_run ?l = lex_string DQ ?l"
    using step str
    by (subst lexer_run.simps, subst lexer_run.simps) (simp add: lexer_new_def quote_string_def)
  then show ?thesis using str by (simp add: tokenize_def Let_def lexer_new_def)
qed

section \<open>Properties\<close>

text \<open>
  on UTF-8 text every token starts and ends on a character boundary, so slicing the source by
  token spans never splits a character.
\<close>

theorem tokenize_char_boundaries:
  assumes "wf_utf8 s"
  shows "list_all (\<lambda>t. is_char_boundary s (sp_start (tk_span t)) \<and>
                       is_char_boundary s (sp_end (tk_span t))) (fst (tokenize s))"
  by (rule tokenize_boundaries [OF assms])

theorem tokenize_char_boundaries_witness:
  "wf_utf8 [CHR ''a'', CHR 0xC3, CHR 0xA9] \<and>
   list_all (\<lambda>t. is_char_boundary [CHR ''a'', CHR 0xC3, CHR 0xA9] (sp_start (tk_span t)) \<and>
                 is_char_boundary [CHR ''a'', CHR 0xC3, CHR 0xA9] (sp_end (tk_span t)))
     (fst (tokenize [CHR ''a'', CHR 0xC3, CHR 0xA9]))"
proof -
  have "wf_utf8 [CHR ''a'', CHR 0xC3, CHR 0xA9]" by code_simp
  with tokenize_char_boundaries show ?thesis by blast
qed

text \<open>
  C19: quoting round trip.  A value written between double quotes with its special characters escaped
  lexes, without errors, to the one string token that holds the value.
\<close>

theorem tokenize_quoted:
  assumes "wf_utf8 v"
  shows "tokenize (quote_string v) =
           ([\<lparr> tk_kind = TkString v, tk_span = Span_new 0 (length (quote_string v)) \<rparr>], [])"
  by (rule tokenize_quote_string [OF assms])

theorem tokenize_quoted_witness:
  "tokenize (quote_string [CHR ''a'', DQ, NL]) =
     ([\<lparr> tk_kind = TkString [CHR ''a'', DQ, NL], tk_span = Span_new 0 (length (quote_string [CHR ''a'', DQ, NL])) \<rparr>], [])"
proof -
  have "wf_utf8 [CHR ''a'', DQ, NL]" by code_simp
  then show ?thesis by (rule tokenize_quoted)
qed

end
