(* ===== verification/Platform.thy ===== *)
theory Platform
  imports Prelude
begin

text \<open>
  The closed vocabularies of \<open>crates/umf-core/src\<close> that the builder and the projector share: CPU
  architectures and the \<open>--platform\<close> syntax (\<open>architecture.rs\<close>), root filesystems (\<open>boot.rs\<close>), kinds of
  base artifact (\<open>l0.rs\<close>), the label keys (\<open>label.rs\<close>), and the choice of a manifest out of a
  multi-platform index (\<open>crates/umf-builder/src/platform.rs\<close>).  Each vocabulary has a printer and a
  parser; the lemmas relate the two.
\<close>

section \<open>Architectures (\<open>architecture.rs\<close>)\<close>

datatype Architecture = X86_64 | Aarch64

datatype PlatformParseReason =
    MissingSeparator
  | UnsupportedOs string
  | UnsupportedArchitecture string

record PlatformParseError =
  ppe_input :: string
  ppe_reason :: PlatformParseReason

fun from_arch_str :: "string \<Rightarrow> Architecture option" where
  "from_arch_str s =
     (if s = ''amd64'' \<or> s = ''x86_64'' then Some X86_64
      else if s = ''arm64'' \<or> s = ''aarch64'' then Some Aarch64
      else None)"

definition from_platform_str :: "string \<Rightarrow> PlatformParseError + Architecture" where
  "from_platform_str s =
     (case split_once (CHR ''/'') s of
        None \<Rightarrow> Inl \<lparr> ppe_input = s, ppe_reason = MissingSeparator \<rparr>
      | Some (os, arch) \<Rightarrow>
          if os \<noteq> ''linux'' then Inl \<lparr> ppe_input = s, ppe_reason = UnsupportedOs os \<rparr>
          else (case from_arch_str arch of
                  None \<Rightarrow> Inl \<lparr> ppe_input = s, ppe_reason = UnsupportedArchitecture arch \<rparr>
                | Some a \<Rightarrow> Inr a))"

fun qemu_binary_name :: "Architecture \<Rightarrow> string" where
  "qemu_binary_name X86_64 = ''qemu-system-x86_64''"
| "qemu_binary_name Aarch64 = ''qemu-system-aarch64''"

fun uefi_fallback_filename :: "Architecture \<Rightarrow> string" where
  "uefi_fallback_filename X86_64 = ''BOOTX64.EFI''"
| "uefi_fallback_filename Aarch64 = ''BOOTAA64.EFI''"

fun systemd_boot_filename :: "Architecture \<Rightarrow> string" where
  "systemd_boot_filename X86_64 = ''systemd-bootx64.efi''"
| "systemd_boot_filename Aarch64 = ''systemd-bootaa64.efi''"

fun linux_arch_string :: "Architecture \<Rightarrow> string" where
  "linux_arch_string X86_64 = ''x86_64''"
| "linux_arch_string Aarch64 = ''aarch64''"

fun oci_arch_string :: "Architecture \<Rightarrow> string" where
  "oci_arch_string X86_64 = ''amd64''"
| "oci_arch_string Aarch64 = ''arm64''"

fun serial_console :: "Architecture \<Rightarrow> string" where
  "serial_console X86_64 = ''ttyS0''"
| "serial_console Aarch64 = ''ttyAMA0''"


section \<open>Root filesystems (\<open>boot.rs\<close>)\<close>

datatype RootfsFs = Squashfs | Ext4 | Erofs

definition RootfsFs_ALL :: "RootfsFs list" where
  "RootfsFs_ALL = [Squashfs, Ext4, Erofs]"

fun RootfsFs_as_str :: "RootfsFs \<Rightarrow> string" where
  "RootfsFs_as_str Squashfs = ''squashfs''"
| "RootfsFs_as_str Ext4 = ''ext4''"
| "RootfsFs_as_str Erofs = ''erofs''"

definition from_token :: "string \<Rightarrow> RootfsFs option" where
  "from_token tok = find (\<lambda>fs. RootfsFs_as_str fs = tok) RootfsFs_ALL"

fun host_mkfs :: "RootfsFs \<Rightarrow> string option" where
  "host_mkfs Squashfs = None"
| "host_mkfs Ext4 = Some ''mkfs.ext4''"
| "host_mkfs Erofs = Some ''mkfs.erofs''"

fun is_read_only :: "RootfsFs \<Rightarrow> bool" where
  "is_read_only Squashfs = True"
| "is_read_only Ext4 = False"
| "is_read_only Erofs = True"

definition supported_tokens :: string where
  "supported_tokens = join '', '' (map RootfsFs_as_str RootfsFs_ALL)"

datatype UnsupportedRootfsFs = UnsupportedRootfsFs string

definition RootfsFs_from_str :: "string \<Rightarrow> UnsupportedRootfsFs + RootfsFs" where
  "RootfsFs_from_str s =
     (case from_token s of Some fs \<Rightarrow> Inr fs | None \<Rightarrow> Inl (UnsupportedRootfsFs s))"

definition ROOTFS_PARTLABEL :: string where
  "ROOTFS_PARTLABEL = ''ROOTFS''"


section \<open>Kinds of base artifact (\<open>l0.rs\<close>)\<close>

datatype Payload = PayloadKernel | PayloadRootfs | PayloadBootloader | PayloadFirmware

datatype L0Kind =
    L0Scratch
  | L0Container
  | L0Bootable
  | L0KernelBuildEnv
  | L0Payload Payload
  | L0Unknown string

definition from_label :: "string \<Rightarrow> L0Kind" where
  "from_label v =
     (if v = ''container'' then L0Container
      else if v = ''bootable'' then L0Bootable
      else if v = ''kernel-build-env'' then L0KernelBuildEnv
      else if v = ''kernel'' then L0Payload PayloadKernel
      else if v = ''rootfs'' then L0Payload PayloadRootfs
      else if v = ''bootloader'' then L0Payload PayloadBootloader
      else if v = ''firmware'' then L0Payload PayloadFirmware
      else L0Unknown v)"

fun is_payload :: "L0Kind \<Rightarrow> bool" where
  "is_payload (L0Payload _) = True"
| "is_payload _ = False"

fun is_kernel :: "L0Kind \<Rightarrow> bool" where
  "is_kernel (L0Payload PayloadKernel) = True"
| "is_kernel _ = False"

definition is_valid_from :: "L0Kind \<Rightarrow> bool \<Rightarrow> bool" where
  "is_valid_from k bootable_build =
     (if k = L0Bootable then True
      else if bootable_build then is_kernel k
      else k = L0Scratch \<or> k = L0Container \<or> k = L0KernelBuildEnv)"

fun Payload_show :: "Payload \<Rightarrow> string" where
  "Payload_show PayloadKernel = ''kernel''"
| "Payload_show PayloadRootfs = ''rootfs''"
| "Payload_show PayloadBootloader = ''bootloader''"
| "Payload_show PayloadFirmware = ''firmware''"

fun L0Kind_show :: "L0Kind \<Rightarrow> string" where
  "L0Kind_show L0Scratch = ''scratch''"
| "L0Kind_show L0Container = ''container''"
| "L0Kind_show L0Bootable = ''bootable''"
| "L0Kind_show L0KernelBuildEnv = ''kernel-build-env''"
| "L0Kind_show (L0Payload p) = Payload_show p"
| "L0Kind_show (L0Unknown s) = s"


section \<open>Label keys (\<open>label.rs\<close>)\<close>

definition LABEL_TYPE :: string where "LABEL_TYPE = ''org.imagilux.umf.type''"
definition SPEC_VERSION :: string where "SPEC_VERSION = ''org.imagilux.umf.spec''"
definition CURRENT_SPEC_VERSION :: string where "CURRENT_SPEC_VERSION = ''0.0.1''"
definition LABEL_ENTRYPOINT :: string where "LABEL_ENTRYPOINT = ''org.imagilux.umf.entrypoint''"
definition KERNEL_RELEASE :: string where "KERNEL_RELEASE = ''org.imagilux.umf.kernel.release''"
definition KERNEL_VMLINUZ :: string where "KERNEL_VMLINUZ = ''org.imagilux.umf.kernel.vmlinuz''"
definition KERNEL_CMDLINE :: string where "KERNEL_CMDLINE = ''org.imagilux.umf.kernel.cmdline''"
definition INITRAMFS :: string where "INITRAMFS = ''org.imagilux.umf.initramfs''"
definition ROOTFS_FS :: string where "ROOTFS_FS = ''org.imagilux.umf.rootfs.fs''"
definition FLAVOR :: string where "FLAVOR = ''org.imagilux.umf.flavor''"

lemmas label_key_defs =
  LABEL_TYPE_def SPEC_VERSION_def LABEL_ENTRYPOINT_def KERNEL_RELEASE_def KERNEL_VMLINUZ_def
  KERNEL_CMDLINE_def INITRAMFS_def ROOTFS_FS_def FLAVOR_def


section \<open>Selecting a manifest from an index (\<open>umf-builder/src/platform.rs\<close>)\<close>

text \<open>
  The index and its entries are types of the registry library; their architecture and operating
  system are compared for equality only, so the model leaves both types open.
\<close>

record ('arch, 'os) IndexPlatform =
  ip_os :: 'os
  ip_architecture :: 'arch
  ip_variant :: "string option"

record ('arch, 'os) ImageIndexEntry =
  ie_digest :: string
  ie_platform :: "('arch, 'os) IndexPlatform option"

definition platform_matches :: "'os \<Rightarrow> 'arch \<Rightarrow> ('arch, 'os) ImageIndexEntry \<Rightarrow> bool" where
  "platform_matches linux want m =
     (case ie_platform m of
        Some p \<Rightarrow> ip_os p = linux \<and> ip_architecture p = want
      | None \<Rightarrow> False)"

definition without_variant :: "('arch, 'os) ImageIndexEntry \<Rightarrow> bool" where
  "without_variant m =
     (case ie_platform m of
        Some p \<Rightarrow> (case ip_variant p of None \<Rightarrow> True | Some v \<Rightarrow> v = [])
      | None \<Rightarrow> False)"

definition select_for_arch ::
  "'os \<Rightarrow> (string \<Rightarrow> 'arch) \<Rightarrow> ('arch, 'os) ImageIndexEntry list \<Rightarrow> Architecture
   \<Rightarrow> ('arch, 'os) ImageIndexEntry option" where
  "select_for_arch linux arch_from manifests architecture =
     (let want = arch_from (oci_arch_string architecture)
      in case find (\<lambda>m. platform_matches linux want m \<and> without_variant m) manifests of
           Some m \<Rightarrow> Some m
         | None \<Rightarrow> find (platform_matches linux want) manifests)"


section \<open>Laws\<close>

lemma from_arch_str_names [simp]:
  "from_arch_str (oci_arch_string a) = Some a"
  "from_arch_str (linux_arch_string a) = Some a"
  by (cases a; simp)+

lemma from_arch_str_Some:
  "from_arch_str s = Some a \<longleftrightarrow> s = oci_arch_string a \<or> s = linux_arch_string a"
  by (cases a) auto

lemma from_token_as_str [simp]: "from_token (RootfsFs_as_str fs) = Some fs"
  by (cases fs) (simp_all add: from_token_def RootfsFs_ALL_def)

lemma from_token_Some: "from_token tok = Some fs \<longleftrightarrow> tok = RootfsFs_as_str fs"
  by (cases fs) (auto simp: from_token_def RootfsFs_ALL_def)

lemma from_label_show:
  assumes "k \<noteq> L0Scratch" and "\<And>s. k = L0Unknown s \<Longrightarrow> from_label s = k"
  shows "from_label (L0Kind_show k) = k"
proof (cases k)
  case (L0Payload p)
  then show ?thesis by (cases p) (simp_all add: from_label_def)
qed (use assms in \<open>simp_all add: from_label_def\<close>)

lemma show_from_label [simp]: "L0Kind_show (from_label v) = v"
  by (simp add: from_label_def)

lemma from_label_not_scratch [simp]: "from_label v \<noteq> L0Scratch"
  by (simp add: from_label_def)

lemma find_None_mem: "find P xs = None \<longleftrightarrow> (\<forall>x \<in> set xs. \<not> P x)"
  by (induction xs) auto

lemma find_Some_prop: "find P xs = Some x \<Longrightarrow> x \<in> set xs \<and> P x"
  by (induction xs) (auto split: if_splits)

lemma select_for_arch_sound:
  assumes "select_for_arch linux arch_from ms a = Some m"
  shows "m \<in> set ms \<and> platform_matches linux (arch_from (oci_arch_string a)) m"
  using assms by (auto simp: select_for_arch_def Let_def split: option.splits dest: find_Some_prop)

lemma select_for_arch_None:
  "select_for_arch linux arch_from ms a = None \<longleftrightarrow>
     (\<forall>m \<in> set ms. \<not> platform_matches linux (arch_from (oci_arch_string a)) m)"
  by (auto simp: select_for_arch_def Let_def find_None_mem split: option.splits dest!: find_Some_prop)

lemma select_for_arch_prefers:
  assumes "m \<in> set ms" and "platform_matches linux (arch_from (oci_arch_string a)) m" and "without_variant m"
    and "select_for_arch linux arch_from ms a = Some c"
  shows "without_variant c"
  using assms by (auto simp: select_for_arch_def Let_def find_None_mem split: option.splits dest: find_Some_prop)


section \<open>Properties\<close>

text \<open>
  the printers and parsers of the closed vocabularies are inverse to each other.  A platform string
  is accepted exactly when it is \<open>linux/\<close> followed by one of the two names of the architecture it
  denotes; a filesystem token is the name of the filesystem it denotes; a type label is recovered
  verbatim from the kind it is read as, and no label denotes the base \<open>scratch\<close>.
\<close>

theorem vocabulary_round_trips:
  "(from_platform_str s = Inr a \<longleftrightarrow>
      s = ''linux/'' @ oci_arch_string a \<or> s = ''linux/'' @ linux_arch_string a) \<and>
   (RootfsFs_from_str tok = Inr fs \<longleftrightarrow> tok = RootfsFs_as_str fs) \<and>
   L0Kind_show (from_label v) = v \<and> from_label v \<noteq> L0Scratch"
proof -
  have "from_platform_str s = Inr a \<longleftrightarrow>
      (\<exists>arch. split_once (CHR ''/'') s = Some (''linux'', arch) \<and> from_arch_str arch = Some a)"
    by (auto simp: from_platform_str_def simp del: from_arch_str.simps split: option.splits if_splits)
  also have "\<dots> \<longleftrightarrow> (\<exists>arch. s = ''linux/'' @ arch \<and> from_arch_str arch = Some a)"
    by (simp add: split_once_Some del: from_arch_str.simps)
  finally have "from_platform_str s = Inr a \<longleftrightarrow>
      s = ''linux/'' @ oci_arch_string a \<or> s = ''linux/'' @ linux_arch_string a"
    by (auto simp del: from_arch_str.simps simp: from_arch_str_Some)
  moreover have "RootfsFs_from_str tok = Inr fs \<longleftrightarrow> tok = RootfsFs_as_str fs"
    by (simp add: RootfsFs_from_str_def from_token_Some [symmetric] split: option.split)
  ultimately show ?thesis by simp
qed

text \<open>
  C32: from a multi-platform index the builder picks a Linux manifest of the requested architecture
  whenever one is listed and never any other, and it picks one without a variant whenever such a one is
  listed.
\<close>

theorem select_for_arch_correct:
  "(case select_for_arch linux arch_from ms a of
      None \<Rightarrow> list_all (\<lambda>m. \<not> platform_matches linux (arch_from (oci_arch_string a)) m) ms
    | Some c \<Rightarrow>
        c \<in> set ms \<and> platform_matches linux (arch_from (oci_arch_string a)) c \<and>
        (without_variant c \<or>
         list_all (\<lambda>m. \<not> (platform_matches linux (arch_from (oci_arch_string a)) m \<and> without_variant m)) ms))"
  using select_for_arch_prefers [of _ ms linux arch_from a]
  by (auto split: option.split simp: list_all_iff select_for_arch_None dest: select_for_arch_sound)

end
