(* ===== verification/Text_Tools.thy ===== *)
theory Text_Tools
  imports Prelude
begin

text \<open>
  Further pieces of Rust's standard library that the builder, the engine and the networking code
  call: trimming, splitting into lines and words, padded decimal and hexadecimal output, and octets of
  machine words.  \<open>trim\<close> and \<open>split_whitespace\<close> follow the Unicode property \<open>White_Space\<close>, written out as
  the byte sequences that encode its members.
\<close>

unbundle bit_operations_syntax

section \<open>Trimming and splitting\<close>

definition is_whitespace :: "uchar \<Rightarrow> bool" where
  "is_whitespace c =
     (case map byte c of
        [b] \<Rightarrow> (9 \<le> b \<and> b \<le> 13) \<or> b = 32
      | [b, d] \<Rightarrow> b = 194 \<and> (d = 133 \<or> d = 160)
      | [b, d, e] \<Rightarrow>
          (b = 225 \<and> d = 154 \<and> e = 128) \<or>
          (b = 226 \<and> d = 128 \<and> ((128 \<le> e \<and> e \<le> 138) \<or> e = 168 \<or> e = 169 \<or> e = 175)) \<or>
          (b = 226 \<and> d = 129 \<and> e = 159) \<or>
          (b = 227 \<and> d = 128 \<and> e = 128)
      | _ \<Rightarrow> False)"

definition trim_uchars :: "uchar list \<Rightarrow> uchar list" where
  "trim_uchars cs = rev (dropWhile is_whitespace (rev (dropWhile is_whitespace cs)))"

definition trim :: "string \<Rightarrow> string" where
  "trim s = concat (trim_uchars (chars s))"

definition trim_start_matches :: "char \<Rightarrow> string \<Rightarrow> string" where
  "trim_start_matches c s = dropWhile (\<lambda>b. b = c) s"

definition trim_end_matches :: "char \<Rightarrow> string \<Rightarrow> string" where
  "trim_end_matches c s = rev (dropWhile (\<lambda>b. b = c) (rev s))"

definition ends_with :: "string \<Rightarrow> string \<Rightarrow> bool" where
  "ends_with s p \<longleftrightarrow> starts_with (rev s) (rev p)"

text \<open>\<open>str::lines\<close>: split at newlines, no empty last line, one carriage return off the end of each.\<close>

definition strip_cr :: "string \<Rightarrow> string" where
  "strip_cr l = (if ends_with_byte l CR then butlast l else l)"

definition lines :: "string \<Rightarrow> string list" where
  "lines s =
     (let ls = split_on NL s
      in map strip_cr (if last ls = [] then butlast ls else ls))"

fun words_of :: "uchar list \<Rightarrow> uchar list \<Rightarrow> string list" where
  "words_of acc [] = (if acc = [] then [] else [concat acc])"
| "words_of acc (c # cs) =
     (if is_whitespace c then (if acc = [] then [] else [concat acc]) @ words_of [] cs
      else words_of (acc @ [c]) cs)"

definition split_whitespace :: "string \<Rightarrow> string list" where
  "split_whitespace s = words_of [] (chars s)"

text \<open>\<open>str::split\<close> on a set of separator characters.\<close>

fun split_any :: "char list \<Rightarrow> string \<Rightarrow> string list" where
  "split_any seps [] = [[]]"
| "split_any seps (b # bs) =
     (if b \<in> set seps then [] # split_any seps bs
      else (b # hd (split_any seps bs)) # tl (split_any seps bs))"

lemma split_any_not_Nil [simp]: "split_any seps s \<noteq> []"
  by (cases s) auto

lemma split_any_free: "list_all (\<lambda>x. set x \<inter> set seps = {}) (split_any seps s)"
proof (induction s)
  case (Cons b bs)
  then show ?case by (cases "split_any seps bs") auto
qed simp

lemma split_any_none: "set x \<inter> set seps = {} \<Longrightarrow> split_any seps x = [x]"
  by (induction x) auto

lemma split_any_append:
  "set x \<inter> set seps = {} \<Longrightarrow> b \<in> set seps \<Longrightarrow> split_any seps (x @ b # s) = x # split_any seps s"
  by (induction x) auto


section \<open>Padded numbers\<close>

definition pad_left :: "nat \<Rightarrow> char \<Rightarrow> string \<Rightarrow> string" where
  "pad_left w c s = replicate (w - length s) c @ s"

definition hex_digit :: "nat \<Rightarrow> char" where
  "hex_digit n = (if n < 10 then char_of (48 + n) else char_of (55 + n))"

fun hex_digits :: "nat \<Rightarrow> nat \<Rightarrow> string" where
  "hex_digits 0 n = []"
| "hex_digits (Suc w) n = hex_digits w (n div 16) @ [hex_digit (n mod 16)]"

lemma length_hex_digits [simp]: "length (hex_digits w n) = w"
  by (induction w arbitrary: n) auto


section \<open>Octets of words\<close>

definition octet :: "nat \<Rightarrow> 'a::len word \<Rightarrow> u8" where
  "octet k w = ucast (drop_bit k w)"

lemma unat_octet: "unat (octet k w) = unat w div 2 ^ k mod 256"
  by (simp add: octet_def unsigned_ucast_eq unsigned_drop_bit_eq drop_bit_nat_def take_bit_eq_mod)

lemma u8_less [simp]: "unat (x :: u8) < 256"
  using unsigned_less [of x] by simp

lemma u32_less: "unat (x :: u32) < 4294967296"
  using unsigned_less [of x] by simp

lemma and_not_mask_shift: "x AND NOT (mask k) = push_bit k (drop_bit k (x :: 'a::len word))"
  by (rule bit_word_eqI) (auto simp: bit_simps)

lemma unat_and_not_mask: "unat (x AND NOT (mask k) :: u8) = unat x div 2 ^ k * 2 ^ k"
proof -
  have "unat x div 2 ^ k * 2 ^ k < 256"
    by (rule order_le_less_trans [OF div_times_less_eq_dividend]) simp
  then show ?thesis
    unfolding and_not_mask_shift
    by (simp only: unsigned_push_bit_eq unsigned_drop_bit_eq push_bit_nat_def drop_bit_nat_def)
       (simp add: take_bit_eq_mod)
qed

text \<open>Tests of the leading bits of an octet, as the address classifiers make them.\<close>

lemma octet_prefix:
  "x AND 0xc0 = (0x40 :: u8) \<longleftrightarrow> unat x div 64 = 1"
  "x AND 0xc0 = (0x80 :: u8) \<longleftrightarrow> unat x div 64 = 2"
  "x AND 0xfe = (0xfc :: u8) \<longleftrightarrow> unat x div 2 = 126"
proof -
  have 6: "(0xc0 :: u8) = NOT (mask 6)" and 1: "(0xfe :: u8) = NOT (mask 1)"
    by (simp_all add: mask_numeral)
  show "x AND 0xc0 = 0x40 \<longleftrightarrow> unat x div 64 = 1"
    unfolding word_unat_eq_iff 6 unat_and_not_mask by simp
  show "x AND 0xc0 = 0x80 \<longleftrightarrow> unat x div 64 = 2"
    unfolding word_unat_eq_iff 6 unat_and_not_mask by simp
  show "x AND 0xfe = 0xfc \<longleftrightarrow> unat x div 2 = 126"
    unfolding word_unat_eq_iff 1 unat_and_not_mask by simp
qed

end
