(* ===== verification/Ssrf.thy ===== *)
theory Ssrf
  imports Text_Tools
begin

text \<open>
  The egress policy of \<open>crates/umf-networking/src/ssrf.rs\<close>: the classification of addresses into
  host-internal categories, the policy that denies categories, and the parser of the operator's allow
  list.  An IPv4 address is its 32-bit value and an IPv6 address its 128-bit value, in network order;
  \<open>octet\<close> reads the bytes.  The second half reads the CIDR strings the policy hands to the packet filter
  and relates them to the classification.
\<close>

section \<open>Addresses\<close>

datatype IpAddr = V4 u32 | V6 "128 word"

definition to_ipv4_mapped :: "128 word \<Rightarrow> u32 option" where
  "to_ipv4_mapped v6 = (if drop_bit 32 v6 = 0xffff then Some (ucast v6) else None)"


section \<open>Categories\<close>

datatype AddressCategory = Loopback | LinkLocal | Rfc1918 | UniqueLocal | Cgnat

definition AddressCategory_ALL :: "AddressCategory list" where
  "AddressCategory_ALL = [Loopback, LinkLocal, Rfc1918, UniqueLocal, Cgnat]"

fun AddressCategory_as_str :: "AddressCategory \<Rightarrow> string" where
  "AddressCategory_as_str Loopback = ''loopback''"
| "AddressCategory_as_str LinkLocal = ''link-local''"
| "AddressCategory_as_str Rfc1918 = ''rfc1918''"
| "AddressCategory_as_str UniqueLocal = ''ula''"
| "AddressCategory_as_str Cgnat = ''cgnat''"

fun v4_cidrs :: "AddressCategory \<Rightarrow> string list" where
  "v4_cidrs Loopback = [''127.0.0.0/8'']"
| "v4_cidrs LinkLocal = [''169.254.0.0/16'']"
| "v4_cidrs Rfc1918 = [''10.0.0.0/8'', ''172.16.0.0/12'', ''192.168.0.0/16'']"
| "v4_cidrs UniqueLocal = []"
| "v4_cidrs Cgnat = [''100.64.0.0/10'']"

datatype ParseCategoryError = ParseCategoryError (pce_token: string)

definition valid_names :: string where
  "valid_names = join '', '' (map AddressCategory_as_str AddressCategory_ALL)"

definition AddressCategory_from_str :: "string \<Rightarrow> ParseCategoryError + AddressCategory" where
  "AddressCategory_from_str s =
     (let norm = to_ascii_lowercase (trim s)
      in if norm = ''loopback'' then Inr Loopback
         else if norm = ''link-local'' \<or> norm = ''linklocal'' then Inr LinkLocal
         else if norm = ''rfc1918'' \<or> norm = ''rfc-1918'' then Inr Rfc1918
         else if norm = ''ula'' \<or> norm = ''unique-local'' then Inr UniqueLocal
         else if norm = ''cgnat'' then Inr Cgnat
         else Inl (ParseCategoryError norm))"


section \<open>Classification\<close>

definition classify_v4 :: "u32 \<Rightarrow> AddressCategory option" where
  "classify_v4 v4 =
     (let o0 = octet 24 v4; o1 = octet 16 v4
      in if o0 = 127 \<or> v4 = 0 then Some Loopback
         else if o0 = 169 \<and> o1 = 254 then Some LinkLocal
         else if o0 = 100 \<and> o1 AND 0xc0 = 0x40 then Some Cgnat
         else if o0 = 10 \<or> (o0 = 172 \<and> 0x10 \<le> o1 \<and> o1 \<le> 0x1f) \<or> (o0 = 192 \<and> o1 = 168) then Some Rfc1918
         else None)"

definition classify_v6 :: "128 word \<Rightarrow> AddressCategory option" where
  "classify_v6 v6 =
     (if v6 = 1 \<or> v6 = 0 then Some Loopback
      else let o0 = octet 120 v6; o1 = octet 112 v6
           in if o0 = 0xfe \<and> o1 AND 0xc0 = 0x80 then Some LinkLocal
              else if o0 AND 0xfe = 0xfc then Some UniqueLocal
              else None)"

definition classify :: "IpAddr \<Rightarrow> AddressCategory option" where
  "classify ip =
     (case ip of
        V4 v4 \<Rightarrow> classify_v4 v4
      | V6 v6 \<Rightarrow> (case to_ipv4_mapped v6 of Some v4 \<Rightarrow> classify_v4 v4 | None \<Rightarrow> classify_v6 v6))"


section \<open>The policy\<close>

datatype EgressDecision = Allow | Deny AddressCategory

record Denied =
  dn_ip :: IpAddr
  dn_category :: AddressCategory

record EgressPolicy =
  ep_denied :: "AddressCategory set"

definition EgressPolicy_default :: EgressPolicy where
  "EgressPolicy_default = \<lparr> ep_denied = set AddressCategory_ALL \<rparr>"

definition with_allowed :: "AddressCategory list \<Rightarrow> EgressPolicy" where
  "with_allowed allow =
     fold (\<lambda>cat policy. policy \<lparr> ep_denied := ep_denied policy - {cat} \<rparr>) allow EgressPolicy_default"

fun parse_tokens :: "string list \<Rightarrow> ParseCategoryError + AddressCategory list" where
  "parse_tokens [] = Inr []"
| "parse_tokens (tok # toks) =
     (if trim tok = [] then parse_tokens toks
      else case AddressCategory_from_str tok of
             Inl e \<Rightarrow> Inl e
           | Inr cat \<Rightarrow> (case parse_tokens toks of Inl e \<Rightarrow> Inl e | Inr cats \<Rightarrow> Inr (cat # cats)))"

definition from_allow_list :: "string \<Rightarrow> ParseCategoryError + EgressPolicy" where
  "from_allow_list spec =
     (case parse_tokens (split_any [CHR '','', SP, TAB, NL] spec) of
        Inl e \<Rightarrow> Inl e
      | Inr allow \<Rightarrow> Inr (with_allowed allow))"

definition from_env :: "string option \<Rightarrow> ParseCategoryError + EgressPolicy" where
  "from_env var = (case var of Some spec \<Rightarrow> from_allow_list spec | None \<Rightarrow> Inr EgressPolicy_default)"

definition denies :: "EgressPolicy \<Rightarrow> AddressCategory \<Rightarrow> bool" where
  "denies policy cat \<longleftrightarrow> cat \<in> ep_denied policy"

definition denied_v4_cidrs :: "EgressPolicy \<Rightarrow> string list" where
  "denied_v4_cidrs policy =
     concat (map v4_cidrs (filter (\<lambda>cat. cat \<in> ep_denied policy) AddressCategory_ALL))"

definition decision :: "EgressPolicy \<Rightarrow> IpAddr \<Rightarrow> EgressDecision" where
  "decision policy ip =
     (case classify ip of
        Some cat \<Rightarrow> if cat \<in> ep_denied policy then Deny cat else Allow
      | None \<Rightarrow> Allow)"

definition check :: "EgressPolicy \<Rightarrow> IpAddr \<Rightarrow> Denied + unit" where
  "check policy ip =
     (case decision policy ip of
        Allow \<Rightarrow> Inr ()
      | Deny cat \<Rightarrow> Inl \<lparr> dn_ip = ip, dn_category = cat \<rparr>)"

definition filter_resolved :: "EgressPolicy \<Rightarrow> IpAddr list \<Rightarrow> IpAddr list" where
  "filter_resolved policy ips = filter (\<lambda>ip. decision policy ip = Allow) ips"


section \<open>CIDR blocks\<close>

text \<open>
  The reading of a CIDR string: four decimal octets and a prefix length, covering the addresses that
  share the leading bits.
\<close>

definition parse_cidr :: "string \<Rightarrow> (nat list \<times> nat) option" where
  "parse_cidr s =
     (case split_once (CHR ''/'') s of
        None \<Rightarrow> None
      | Some (addr, len) \<Rightarrow>
          (case (those (map (parse_uint 8) (split_on (CHR ''.'') addr)), parse_uint 8 len) of
             (Some os, Some l) \<Rightarrow> if length os = 4 \<and> l \<le> 32 then Some (os, l) else None
           | _ \<Rightarrow> None))"

fun octets_value :: "nat list \<Rightarrow> nat" where
  "octets_value [a, b, c, d] = a * 2 ^ 24 + b * 2 ^ 16 + c * 2 ^ 8 + d"
| "octets_value _ = 0"

definition cidr_covers :: "string \<Rightarrow> u32 \<Rightarrow> bool" where
  "cidr_covers s ip =
     (case parse_cidr s of
        Some (os, l) \<Rightarrow> unat ip div 2 ^ (32 - l) = octets_value os div 2 ^ (32 - l)
      | None \<Rightarrow> False)"


section \<open>Laws\<close>

lemma parse_cidr_blocks:
  "parse_cidr ''127.0.0.0/8'' = Some ([127, 0, 0, 0], 8)"
  "parse_cidr ''169.254.0.0/16'' = Some ([169, 254, 0, 0], 16)"
  "parse_cidr ''10.0.0.0/8'' = Some ([10, 0, 0, 0], 8)"
  "parse_cidr ''172.16.0.0/12'' = Some ([172, 16, 0, 0], 12)"
  "parse_cidr ''192.168.0.0/16'' = Some ([192, 168, 0, 0], 16)"
  "parse_cidr ''100.64.0.0/10'' = Some ([100, 64, 0, 0], 10)"
  by code_simp+

lemma div_65536:
  fixes n :: nat
  shows "n div 16777216 = n div 65536 div 256" and "n div 1048576 = n div 65536 div 16"
    and "n div 4194304 = n div 65536 div 64"
  using div_mult2_eq [of n 65536 256] div_mult2_eq [of n 65536 16] div_mult2_eq [of n 65536 64] by simp_all

lemma cidr_covers_shifts:
  "cidr_covers ''127.0.0.0/8'' ip \<longleftrightarrow> unat ip div 16777216 = 127"
  "cidr_covers ''169.254.0.0/16'' ip \<longleftrightarrow> unat ip div 65536 = 43518"
  "cidr_covers ''10.0.0.0/8'' ip \<longleftrightarrow> unat ip div 16777216 = 10"
  "cidr_covers ''172.16.0.0/12'' ip \<longleftrightarrow> unat ip div 1048576 = 2753"
  "cidr_covers ''192.168.0.0/16'' ip \<longleftrightarrow> unat ip div 65536 = 49320"
  "cidr_covers ''100.64.0.0/10'' ip \<longleftrightarrow> unat ip div 4194304 = 401"
  unfolding cidr_covers_def parse_cidr_blocks option.case prod.case by simp_all

lemmas cidr_covers_blocks = cidr_covers_shifts [unfolded div_65536]

lemma octets_of_prefix:
  fixes ip :: u32
  shows "unat (octet 24 ip) = unat ip div 65536 div 256" and "unat (octet 16 ip) = unat ip div 65536 mod 256"
proof -
  have "unat ip div 16777216 < 256"
    using u32_less [of ip] by (simp add: div_less_iff_less_mult)
  then show "unat (octet 24 ip) = unat ip div 65536 div 256"
    by (simp add: unat_octet div_65536)
  show "unat (octet 16 ip) = unat ip div 65536 mod 256"
    by (simp add: unat_octet)
qed

lemma digit_decomposition: "q < m \<Longrightarrow> m * h + q = n \<longleftrightarrow> h = n div m \<and> q = n mod m" for h q m n :: nat
  by auto

lemma div_byte_pair:
  fixes h l :: nat
  shows "(256 * h + l) div 64 = 4 * h + l div 64" and "(256 * h + l) div 16 = 16 * h + l div 16"
  by (simp_all add: div_add [symmetric] mult.commute flip: div_mult_self1)

lemma prefix_values:
  fixes a :: nat
  shows "a = 43518 \<longleftrightarrow> a div 256 = 169 \<and> a mod 256 = 254"
    and "a div 64 = 401 \<longleftrightarrow> a div 256 = 100 \<and> a mod 256 div 64 = 1"
    and "a div 16 = 2753 \<longleftrightarrow> a div 256 = 172 \<and> 16 \<le> a mod 256 \<and> a mod 256 \<le> 31"
    and "a = 49320 \<longleftrightarrow> a div 256 = 192 \<and> a mod 256 = 168"
proof -
  obtain h l where hl: "h = a div 256" "l = a mod 256" "l < 256" by simp
  then have a: "a = 256 * h + l" by simp
  have d: "a div 64 = 4 * h + l div 64" "a div 16 = 16 * h + l div 16"
    unfolding a by (rule div_byte_pair)+
  have b: "l div 64 < 4" "l div 16 < 16" using hl(3) by simp_all
  have "l div 16 = 1 \<longleftrightarrow> 16 \<le> l \<and> l \<le> 31" by auto
  then have "256 * h + l = 43518 \<longleftrightarrow> h = 169 \<and> l = 254" "4 * h + l div 64 = 401 \<longleftrightarrow> h = 100 \<and> l div 64 = 1"
    "16 * h + l div 16 = 2753 \<longleftrightarrow> h = 172 \<and> 16 \<le> l \<and> l \<le> 31" "256 * h + l = 49320 \<longleftrightarrow> h = 192 \<and> l = 168"
    using hl(3) b by (simp_all add: digit_decomposition)
  then show "a = 43518 \<longleftrightarrow> a div 256 = 169 \<and> a mod 256 = 254"
    and "a div 64 = 401 \<longleftrightarrow> a div 256 = 100 \<and> a mod 256 div 64 = 1"
    and "a div 16 = 2753 \<longleftrightarrow> a div 256 = 172 \<and> 16 \<le> a mod 256 \<and> a mod 256 \<le> 31"
    and "a = 49320 \<longleftrightarrow> a div 256 = 192 \<and> a mod 256 = 168"
    unfolding d by (simp_all only: hl(1,2) a [symmetric, unfolded hl(1,2)] flip: a)
qed

lemma classify_v4_prefix:
  fixes ip :: u32
  defines "a \<equiv> unat ip div 65536"
  shows "classify_v4 ip =
    (if a div 256 = 127 \<or> ip = 0 then Some Loopback
     else if a = 43518 then Some LinkLocal
     else if a div 64 = 401 then Some Cgnat
     else if a div 256 = 10 \<or> a div 16 = 2753 \<or> a = 49320 then Some Rfc1918
     else None)"
proof -
  have o: "unat (octet 24 ip) = a div 256" "unat (octet 16 ip) = a mod 256"
    by (simp_all add: octets_of_prefix a_def)
  show ?thesis
    unfolding classify_v4_def Let_def octet_prefix word_le_nat_alt prefix_values
    by (simp add: word_unat_eq_iff [of "octet _ _"] o)
qed

lemma classify_v4_blocks:
  "classify_v4 ip = Some cat \<longleftrightarrow>
     list_ex (\<lambda>c. cidr_covers c ip) (v4_cidrs cat) \<or> (cat = Loopback \<and> ip = 0)"
proof (cases "ip = 0")
  case True
  then show ?thesis by (cases cat) (simp_all add: classify_v4_prefix cidr_covers_blocks)
next
  case False
  then show ?thesis
    by (cases cat) (auto simp: classify_v4_prefix cidr_covers_blocks prefix_values)
qed

text \<open>IPv6: the embedded IPv4 addresses and the two prefixes.\<close>

definition v4_mapped :: "u32 \<Rightarrow> 128 word" where
  "v4_mapped v4 = push_bit 32 0xffff OR ucast v4"

lemma to_ipv4_mapped_v4_mapped [simp]: "to_ipv4_mapped (v4_mapped v4) = Some v4"
proof -
  have "drop_bit 32 (v4_mapped v4) = 0xffff"
    by (rule bit_word_eqI) (auto simp: v4_mapped_def bit_simps dest: bit_imp_le_length)
  moreover have "ucast (push_bit 32 x OR ucast v4) = v4" for x :: "128 word"
    by (rule bit_word_eqI) (auto simp: bit_simps)
  then have "ucast (v4_mapped v4) = v4" unfolding v4_mapped_def by blast
  ultimately show ?thesis by (simp add: to_ipv4_mapped_def)
qed

lemma classify_v6_prefix:
  fixes v6 :: "128 word"
  shows "classify_v6 v6 =
    (if v6 = 1 \<or> v6 = 0 then Some Loopback
     else if unat v6 div 2 ^ 118 = 0x3fa then Some LinkLocal
     else if unat v6 div 2 ^ 121 = 0x7e then Some UniqueLocal
     else None)"
proof -
  define a where "a = unat v6 div 2 ^ 112"
  have "unat v6 < 2 ^ 128" using unsigned_less [of v6] by simp
  then have "a < 65536" unfolding a_def by (simp add: div_less_iff_less_mult)
  then have lt: "a div 256 < 256" by (simp add: div_less_iff_less_mult)
  have h: "unat v6 div 2 ^ 120 = a div 256" "unat v6 div 2 ^ 118 = a div 64" "unat v6 div 2 ^ 121 = a div 256 div 2"
    unfolding a_def by (simp_all flip: div_mult2_eq)
  have o: "unat (octet 120 v6) = a div 256" "unat (octet 112 v6) = a mod 256"
    using lt unfolding unat_octet h(1) a_def [symmetric] by simp_all
  have d: "a div 64 = 4 * (a div 256) + a mod 256 div 64"
    using div_byte_pair(1) [of "a div 256" "a mod 256"] by simp
  have "a mod 256 div 64 < 4" by simp
  then have "a div 64 = 0x3fa \<longleftrightarrow> a div 256 = 0xfe \<and> a mod 256 div 64 = 2"
    unfolding d by (simp add: digit_decomposition)
  then show ?thesis
    unfolding classify_v6_def Let_def octet_prefix h(2,3)
    by (simp add: word_unat_eq_iff [of "octet _ _"] o)
qed


section \<open>Laws of the policy\<close>

lemma with_allowed_denied [simp]: "ep_denied (with_allowed allow) = UNIV - set allow"
proof -
  have all: "set AddressCategory_ALL = UNIV"
    using AddressCategory.exhaust by (auto simp: AddressCategory_ALL_def)
  have "ep_denied (fold (\<lambda>cat policy. policy \<lparr> ep_denied := ep_denied policy - {cat} \<rparr>) allow p) =
      ep_denied p - set allow" for p :: EgressPolicy
    by (induction allow arbitrary: p) auto
  then show ?thesis by (simp add: with_allowed_def EgressPolicy_default_def all)
qed

lemma default_denies_all [simp]: "ep_denied EgressPolicy_default = UNIV"
  using with_allowed_denied [of "[]"] by (simp add: with_allowed_def)

lemma check_ok: "check policy ip = Inr () \<longleftrightarrow> decision policy ip = Allow"
  by (simp add: check_def split: EgressDecision.split)

lemma decision_Allow: "decision policy ip = Allow \<longleftrightarrow> (\<forall>cat. classify ip = Some cat \<longrightarrow> cat \<notin> ep_denied policy)"
  by (auto simp: decision_def split: option.split)

lemma parse_tokens_set:
  "parse_tokens toks = Inr cats \<Longrightarrow>
     set cats = {c. list_ex (\<lambda>t. trim t \<noteq> [] \<and> AddressCategory_from_str t = Inr c) toks}"
  by (induction toks arbitrary: cats) (auto split: if_splits sum.splits)

lemma denied_v4_cidrs_cover:
  "list_ex (\<lambda>c. cidr_covers c ip) (denied_v4_cidrs policy) \<longleftrightarrow>
     (\<exists>cat. cat \<in> ep_denied policy \<and> list_ex (\<lambda>c. cidr_covers c ip) (v4_cidrs cat))"
proof -
  have "set AddressCategory_ALL = UNIV"
    using AddressCategory.exhaust by (auto simp: AddressCategory_ALL_def)
  then show ?thesis by (auto simp: denied_v4_cidrs_def list_ex_iff)
qed

lemma check_v4_blocks:
  assumes "ip \<noteq> 0"
  shows "check policy (V4 ip) = Inr () \<longleftrightarrow> \<not> list_ex (\<lambda>c. cidr_covers c ip) (denied_v4_cidrs policy)"
  using assms by (auto simp: check_ok decision_Allow classify_def classify_v4_blocks denied_v4_cidrs_cover)


section \<open>Properties\<close>

text \<open>
  C27: an IPv4 address is classified exactly by the published blocks of its category, with the
  unspecified address counted as loopback; an IPv4 address embedded in IPv6 is classified as the IPv4
  address; any other IPv6 address is classified by \<open>::1\<close>, \<open>::\<close>, \<open>fe80::/10\<close> and \<open>fc00::/7\<close>.
\<close>

theorem classify_correct:
  "(classify (V4 ip) = Some cat \<longleftrightarrow>
      list_ex (\<lambda>c. cidr_covers c ip) (v4_cidrs cat) \<or> (cat = Loopback \<and> ip = 0)) \<and>
   classify (V6 (v4_mapped ip)) = classify (V4 ip) \<and>
   (to_ipv4_mapped v6 = None \<longrightarrow>
      classify (V6 v6) =
        (if v6 = 1 \<or> v6 = 0 then Some Loopback
         else if unat v6 div 2 ^ 118 = 0x3fa then Some LinkLocal
         else if unat v6 div 2 ^ 121 = 0x7e then Some UniqueLocal
         else None))"
  by (simp add: classify_def classify_v4_blocks classify_v6_prefix)

theorem classify_correct_witness:
  "classify (V6 0xfe800000000000000000000000000001) = Some LinkLocal"
proof -
  have "to_ipv4_mapped 0xfe800000000000000000000000000001 = None"
    by (simp add: to_ipv4_mapped_def)
  with classify_correct [of 0 Loopback "0xfe800000000000000000000000000001"] show ?thesis by simp
qed

text \<open>
  C14: under a policy read from an allow list a connection is refused exactly when its address is in a
  category the list does not name, resolving keeps exactly the addresses that the connect-time check
  accepts, and the blocks handed to the packet filter drop exactly the IPv4 destinations that the check
  refuses, the unspecified address apart.
\<close>

theorem egress_policy_enforced:
  assumes "from_allow_list spec = Inr policy"
  shows "(check policy ip = Inr () \<longleftrightarrow>
            (case classify ip of
               None \<Rightarrow> True
             | Some cat \<Rightarrow>
                 list_ex (\<lambda>t. trim t \<noteq> [] \<and> AddressCategory_from_str t = Inr cat) (split_any [CHR '','', SP, TAB, NL] spec))) \<and>
         filter_resolved policy ips = filter (\<lambda>i. check policy i = Inr ()) ips \<and>
         (v4 \<noteq> 0 \<longrightarrow> check policy (V4 v4) = Inr () \<longleftrightarrow> \<not> list_ex (\<lambda>c. cidr_covers c v4) (denied_v4_cidrs policy))"
proof -
  let ?toks = "split_any [CHR '','', SP, TAB, NL] spec"
  from assms obtain cats where cats: "parse_tokens ?toks = Inr cats" and p: "policy = with_allowed cats"
    by (auto simp: from_allow_list_def split: sum.splits)
  from parse_tokens_set [OF cats] have "check policy ip = Inr () \<longleftrightarrow>
      (case classify ip of None \<Rightarrow> True
       | Some cat \<Rightarrow> list_ex (\<lambda>t. trim t \<noteq> [] \<and> AddressCategory_from_str t = Inr cat) ?toks)"
    by (auto simp: check_ok decision_Allow p split: option.split)
  moreover have "filter_resolved policy ips = filter (\<lambda>i. check policy i = Inr ()) ips"
    by (simp add: filter_resolved_def check_ok)
  ultimately show ?thesis by (simp add: check_v4_blocks)
qed

theorem egress_policy_enforced_witness:
  "check (with_allowed [Rfc1918]) (V4 0xa9fea9fe) \<noteq> Inr () \<and> check (with_allowed [Rfc1918]) (V4 0x0a000001) = Inr ()"
proof -
  have spec: "from_allow_list ''RFC1918,'' = Inr (with_allowed [Rfc1918])" by code_simp
  have "classify (V4 0xa9fea9fe) = Some LinkLocal" "classify (V4 0x0a000001) = Some Rfc1918" by code_simp+
  moreover have "list_ex (\<lambda>t. trim t \<noteq> [] \<and> AddressCategory_from_str t = Inr Rfc1918) (split_any [CHR '','', SP, TAB, NL] ''RFC1918,'')"
    "\<not> list_ex (\<lambda>t. trim t \<noteq> [] \<and> AddressCategory_from_str t = Inr LinkLocal) (split_any [CHR '','', SP, TAB, NL] ''RFC1918,'')"
    by code_simp+
  ultimately show ?thesis
    using egress_policy_enforced [OF spec, of "V4 0xa9fea9fe"] egress_policy_enforced [OF spec, of "V4 0x0a000001"] by simp
qed

end
