(* ===== verification/Layout.thy ===== *)
theory Layout
  imports Text_Tools
begin

text \<open>
  The on-disk OCI image layout, \<open>crates/umf-oci/src/registry/layout.rs\<close>: the content-addressed blob
  store, the tag index, and the collectors of unreachable blobs and cache files.  A directory is an
  association list from file names to contents, in the order \<open>read_dir\<close> lists it; \<open>index.json\<close> is its
  parsed value; absent files are the only input/output failures.  SHA-256 and the JSON decoders are
  library code and enter as the functions of the record \<open>codec\<close>.
\<close>

section \<open>Library code\<close>

text \<open>The parts of a manifest the layout reads, and the decoders that yield them.\<close>

record OciImageManifest =
  im_config :: string
  im_layers :: "string list"
  im_subject :: "string option"
  im_artifact_type :: "string option"
  im_annotations :: "(string \<rightharpoonup> string) option"

datatype OciManifest = ManImage OciImageManifest | ManIndex "string list"

record codec =
  cd_sha256 :: "string \<Rightarrow> string"
  cd_manifest :: "string \<Rightarrow> OciManifest option"
  cd_image :: "string \<Rightarrow> OciImageManifest option"
  cd_diff_ids :: "string \<Rightarrow> string list option"

text \<open>What the code relies on: a digest is printed as a non-empty string of hexadecimal digits.\<close>

definition codec_hex :: "codec \<Rightarrow> bool" where
  "codec_hex C \<longleftrightarrow> (\<forall>b. cd_sha256 C b \<noteq> [] \<and> list_all is_ascii_hexdigit (cd_sha256 C b))"


section \<open>State\<close>

text \<open>An error whose message is composed carries the values the message shows.\<close>

datatype DigestProblem = NotAlgoHex string | UnsupportedAlgorithm string | VariantNotHex string

datatype RegistryError =
    MalformedDigest DigestProblem
  | DigestMismatch string string
  | IoNotFound
  | InvalidLayout string
  | NotFound string
  | InvalidMediaType string

record IndexEntry =
  ne_media_type :: string
  ne_digest :: string
  ne_size :: nat
  ne_annotations :: "(string \<rightharpoonup> string) option"

record ReferrerDescriptor =
  rd_media_type :: string
  rd_digest :: string
  rd_size :: nat
  rd_artifact_type :: "string option"
  rd_annotations :: "(string \<rightharpoonup> string) option"

datatype fs_tree = FsFile string | FsDir "(string \<times> fs_tree) list"

record layout =
  ly_blobs :: "(string \<times> string) list"
  ly_erofs :: "(string \<times> string) list"
  ly_blocks :: "(string \<times> fs_tree) list"
  ly_index :: "IndexEntry list"

definition REF_NAME_ANNOTATION :: string where
  "REF_NAME_ANNOTATION = ''org.opencontainers.image.ref.name''"

definition OCI_IMAGE_MEDIA_TYPE :: string where
  "OCI_IMAGE_MEDIA_TYPE = ''application/vnd.oci.image.manifest.v1+json''"

definition SHA256_ALGO :: string where
  "SHA256_ALGO = ''sha256''"

definition layout_init :: layout where
  "layout_init = \<lparr> ly_blobs = [], ly_erofs = [], ly_blocks = [], ly_index = [] \<rparr>"


section \<open>Digests and paths\<close>

definition sha256_digest :: "codec \<Rightarrow> string \<Rightarrow> string" where
  "sha256_digest C bytes = SHA256_ALGO @ '':'' @ cd_sha256 C bytes"

definition split_digest :: "string \<Rightarrow> RegistryError + string \<times> string" where
  "split_digest digest =
     (case split_once (CHR '':'') digest of
        Some (algo, hex) \<Rightarrow>
          if algo \<noteq> [] \<and> hex \<noteq> [] \<and> list_all is_ascii_hexdigit hex then
            if algo \<noteq> SHA256_ALGO then Inl (MalformedDigest (UnsupportedAlgorithm algo))
            else Inr (algo, hex)
          else Inl (MalformedDigest (NotAlgoHex digest))
      | None \<Rightarrow> Inl (MalformedDigest (NotAlgoHex digest)))"

text \<open>A path below the layout root, as its components.\<close>

definition blob_path :: "string \<Rightarrow> RegistryError + string list" where
  "blob_path digest =
     (case split_digest digest of Inl e \<Rightarrow> Inl e | Inr (algo, hex) \<Rightarrow> Inr [''blobs'', algo, hex])"

definition erofs_cache_path :: "string \<Rightarrow> RegistryError + string list" where
  "erofs_cache_path layer_digest =
     (case split_digest layer_digest of
        Inl e \<Rightarrow> Inl e
      | Inr (_, hex) \<Rightarrow> Inr [''cache'', ''erofs'', hex @ ''.erofs''])"

definition block_cache_path :: "string \<Rightarrow> string \<Rightarrow> RegistryError + string list" where
  "block_cache_path image_digest variant =
     (case split_digest image_digest of
        Inl e \<Rightarrow> Inl e
      | Inr (_, hex) \<Rightarrow>
          if variant = [] \<or> \<not> list_all is_ascii_hexdigit variant
          then Inl (MalformedDigest (VariantNotHex variant))
          else Inr [''cache'', ''blocks'', hex, variant @ ''.img''])"


section \<open>Blobs\<close>

definition has_blob :: "layout \<Rightarrow> string \<Rightarrow> bool" where
  "has_blob L digest =
     (case split_digest digest of Inl _ \<Rightarrow> False | Inr (_, hex) \<Rightarrow> map_of (ly_blobs L) hex \<noteq> None)"

definition read_blob :: "codec \<Rightarrow> layout \<Rightarrow> string \<Rightarrow> RegistryError + string" where
  "read_blob C L digest =
     (case split_digest digest of
        Inl e \<Rightarrow> Inl e
      | Inr (_, hex) \<Rightarrow>
          (case map_of (ly_blobs L) hex of
             None \<Rightarrow> Inl IoNotFound
           | Some bytes \<Rightarrow>
               if sha256_digest C bytes \<noteq> digest
               then Inl (DigestMismatch digest (sha256_digest C bytes))
               else Inr bytes))"

definition write_blob_with_digest :: "codec \<Rightarrow> string \<Rightarrow> string \<Rightarrow> layout \<Rightarrow> RegistryError + layout" where
  "write_blob_with_digest C bytes expected L =
     (if sha256_digest C bytes \<noteq> expected
      then Inl (DigestMismatch expected (sha256_digest C bytes))
      else case split_digest expected of
             Inl e \<Rightarrow> Inl e
           | Inr (_, hex) \<Rightarrow>
               if map_of (ly_blobs L) hex \<noteq> None then Inr L
               else Inr (L \<lparr> ly_blobs := (hex, bytes) # ly_blobs L \<rparr>))"

definition write_blob :: "codec \<Rightarrow> string \<Rightarrow> layout \<Rightarrow> RegistryError + string \<times> layout" where
  "write_blob C bytes L =
     (let digest = sha256_digest C bytes
      in case write_blob_with_digest C bytes digest L of Inl e \<Rightarrow> Inl e | Inr L' \<Rightarrow> Inr (digest, L'))"


section \<open>The tag index\<close>

definition ref_name_of :: "IndexEntry \<Rightarrow> string option" where
  "ref_name_of e = (case ne_annotations e of None \<Rightarrow> None | Some a \<Rightarrow> a REF_NAME_ANNOTATION)"

definition tagged :: "string \<Rightarrow> IndexEntry \<Rightarrow> IndexEntry" where
  "tagged ref_name e =
     e \<lparr> ne_annotations :=
           Some ((case ne_annotations e of None \<Rightarrow> Map.empty | Some a \<Rightarrow> a)(REF_NAME_ANNOTATION \<mapsto> ref_name)) \<rparr>"

definition upsert_ref :: "string \<Rightarrow> IndexEntry \<Rightarrow> layout \<Rightarrow> layout" where
  "upsert_ref ref_name entry L =
     L \<lparr> ly_index := filter (\<lambda>e. ref_name_of e \<noteq> Some ref_name) (ly_index L) @ [tagged ref_name entry] \<rparr>"

definition lookup_ref :: "layout \<Rightarrow> string \<Rightarrow> IndexEntry option" where
  "lookup_ref L ref_name = find (\<lambda>e. ref_name_of e = Some ref_name) (ly_index L)"

definition list_refs :: "layout \<Rightarrow> (string \<times> IndexEntry) list" where
  "list_refs L = List.map_filter (\<lambda>e. map_option (\<lambda>n. (n, e)) (ref_name_of e)) (ly_index L)"

definition remove_ref :: "string \<Rightarrow> layout \<Rightarrow> bool \<times> layout" where
  "remove_ref ref_name L =
     (let kept = filter (\<lambda>e. ref_name_of e \<noteq> Some ref_name) (ly_index L);
          removed = (length (ly_index L) \<noteq> length kept)
      in (removed, if removed then L \<lparr> ly_index := kept \<rparr> else L))"

definition upsert_untagged :: "IndexEntry \<Rightarrow> layout \<Rightarrow> layout" where
  "upsert_untagged entry L =
     L \<lparr> ly_index := filter (\<lambda>e. \<not> (ref_name_of e = None \<and> ne_digest e = ne_digest entry)) (ly_index L) @ [entry] \<rparr>"

definition referrer_of :: "codec \<Rightarrow> layout \<Rightarrow> string \<Rightarrow> string option \<Rightarrow> IndexEntry \<Rightarrow> ReferrerDescriptor option" where
  "referrer_of C L subject_digest artifact_type entry =
     (if ne_media_type entry \<noteq> OCI_IMAGE_MEDIA_TYPE then None
      else case read_blob C L (ne_digest entry) of
             Inl _ \<Rightarrow> None
           | Inr bytes \<Rightarrow>
               (case cd_image C bytes of
                  None \<Rightarrow> None
                | Some m \<Rightarrow>
                    if im_subject m \<noteq> Some subject_digest then None
                    else if artifact_type \<noteq> None \<and> im_artifact_type m \<noteq> artifact_type then None
                    else Some \<lparr> rd_media_type = ne_media_type entry, rd_digest = ne_digest entry,
                                rd_size = ne_size entry, rd_artifact_type = im_artifact_type m,
                                rd_annotations = im_annotations m \<rparr>))"

definition list_referrers :: "codec \<Rightarrow> layout \<Rightarrow> string \<Rightarrow> string option \<Rightarrow> ReferrerDescriptor list" where
  "list_referrers C L subject_digest artifact_type =
     List.map_filter (referrer_of C L subject_digest artifact_type) (ly_index L)"


section \<open>Reachability\<close>

text \<open>
  \<open>collect_reachable\<close> over a list of digests, so that the walk over the children of an index and the walk
  over the entries of \<open>index.json\<close> are the same function.  It terminates because every descent visits a
  stored blob that was not visited before; that the visited set only grows is shown first, on the domain
  of the recursion.
\<close>

definition unseen :: "layout \<Rightarrow> string set \<Rightarrow> nat" where
  "unseen L seen = card {h \<in> fst ` set (ly_blobs L). SHA256_ALGO @ '':'' @ h \<notin> seen}"

function collect_reachable ::
  "codec \<Rightarrow> layout \<Rightarrow> string list \<Rightarrow> string set \<Rightarrow> RegistryError + string set" where
  "collect_reachable C L [] seen = Inr seen"
| "collect_reachable C L (digest # ds) seen =
     (if digest \<in> seen then collect_reachable C L ds seen
      else case read_blob C L digest of
             Inl IoNotFound \<Rightarrow> collect_reachable C L ds (insert digest seen)
           | Inl e \<Rightarrow> Inl e
           | Inr bytes \<Rightarrow>
               (case cd_manifest C bytes of
                  None \<Rightarrow> collect_reachable C L ds (insert digest seen)
                | Some (ManImage m) \<Rightarrow>
                    collect_reachable C L ds (set (im_layers m) \<union> insert (im_config m) (insert digest seen))
                | Some (ManIndex children) \<Rightarrow>
                    (case collect_reachable C L children (insert digest seen) of
                       Inl e \<Rightarrow> Inl e
                     | Inr seen' \<Rightarrow> collect_reachable C L ds seen')))"
  by pat_completeness auto

lemma split_digest_Inr:
  "split_digest d = Inr (algo, hex) \<longleftrightarrow>
     algo = SHA256_ALGO \<and> d = SHA256_ALGO @ '':'' @ hex \<and> hex \<noteq> [] \<and> list_all is_ascii_hexdigit hex"
proof -
  have colon: "CHR '':'' \<notin> set SHA256_ALGO" by (simp add: SHA256_ALGO_def)
  then have once: "split_once (CHR '':'') (SHA256_ALGO @ '':'' @ hex) = Some (SHA256_ALGO, hex)"
    by (simp add: split_once_Some)
  show ?thesis
  proof
    assume "split_digest d = Inr (algo, hex)"
    then show "algo = SHA256_ALGO \<and> d = SHA256_ALGO @ '':'' @ hex \<and> hex \<noteq> [] \<and> list_all is_ascii_hexdigit hex"
      by (auto simp: split_digest_def split_once_Some split: option.splits if_splits)
  next
    assume "algo = SHA256_ALGO \<and> d = SHA256_ALGO @ '':'' @ hex \<and> hex \<noteq> [] \<and> list_all is_ascii_hexdigit hex"
    then show "split_digest d = Inr (algo, hex)"
      using once by (simp add: split_digest_def SHA256_ALGO_def)
  qed
qed

lemma read_blob_stored:
  "read_blob C L d = Inr bytes \<Longrightarrow>
     \<exists>hex. d = SHA256_ALGO @ '':'' @ hex \<and> map_of (ly_blobs L) hex = Some bytes \<and> sha256_digest C bytes = d"
  by (auto simp: read_blob_def split_digest_Inr split: sum.splits option.splits if_splits)

lemma unseen_mono: "seen \<subseteq> seen' \<Longrightarrow> unseen L seen' \<le> unseen L seen"
  unfolding unseen_def by (rule card_mono) auto

lemma unseen_insert:
  assumes "read_blob C L d = Inr bytes" and "d \<notin> seen" and "insert d seen \<subseteq> seen'"
  shows "unseen L seen' < unseen L seen"
proof -
  obtain hex where hex: "d = SHA256_ALGO @ '':'' @ hex" "map_of (ly_blobs L) hex = Some bytes"
    using read_blob_stored [OF assms(1)] by blast
  then have "hex \<in> fst ` set (ly_blobs L)" by (metis map_of_SomeD fst_conv imageI)
  then show ?thesis unfolding unseen_def using hex assms(2,3) by (intro psubset_card_mono) auto
qed

lemma collect_reachable_grows_dom:
  "collect_reachable_dom (C, L, ds, seen) \<Longrightarrow>
     collect_reachable C L ds seen = Inr seen' \<Longrightarrow> seen \<subseteq> seen'"
proof (induction arbitrary: seen' rule: collect_reachable.pinduct)
  case (1 C L seen)
  then show ?case by (simp add: collect_reachable.psimps)
next
  case (2 C L digest ds seen)
  from "2.prems" show ?case
    by (auto simp: collect_reachable.psimps(2) [OF "2.hyps"]
        split: if_splits sum.splits RegistryError.splits option.splits OciManifest.splits
        dest: "2.IH" dest!: subsetD)
qed

termination collect_reachable
proof (relation "measures [\<lambda>(C, L, ds, seen). unseen L seen, \<lambda>(C, L, ds, seen). length ds]", goal_cases)
  case 1
  then show ?case by simp
qed (auto simp: le_neq_implies_less unseen_mono subset_insertI2 subset_insertI
      intro: unseen_insert dest: collect_reachable_grows_dom)

definition blob_size :: "layout \<Rightarrow> string \<Rightarrow> nat" where
  "blob_size L digest =
     (case split_digest digest of
        Inl _ \<Rightarrow> 0
      | Inr (_, hex) \<Rightarrow> (case map_of (ly_blobs L) hex of None \<Rightarrow> 0 | Some bytes \<Rightarrow> length bytes))"

definition image_disk_size :: "codec \<Rightarrow> layout \<Rightarrow> string \<Rightarrow> RegistryError + nat" where
  "image_disk_size C L digest =
     (case collect_reachable C L [digest] {} of
        Inl e \<Rightarrow> Inl e
      | Inr reachable \<Rightarrow> Inr (sum (blob_size L) reachable))"

text \<open>
  The walk over the diff ids keeps no visited set; a digest that reaches itself would make it run for
  ever, so it is a partial function.  Every failure inside is skipped, so its value is the set.
\<close>

definition config_diff_ids :: "codec \<Rightarrow> layout \<Rightarrow> OciImageManifest \<Rightarrow> string set" where
  "config_diff_ids C L m =
     (case read_blob C L (im_config m) of
        Inl _ \<Rightarrow> {}
      | Inr cfg \<Rightarrow> (case cd_diff_ids C cfg of None \<Rightarrow> {} | Some ids \<Rightarrow> set ids))"

partial_function (option) collect_reachable_diff_ids ::
  "codec \<Rightarrow> layout \<Rightarrow> string list \<Rightarrow> string set \<Rightarrow> string set option" where
  "collect_reachable_diff_ids C L digests out =
     (case digests of
        [] \<Rightarrow> Some out
      | digest # ds \<Rightarrow>
          (case read_blob C L digest of
             Inl _ \<Rightarrow> collect_reachable_diff_ids C L ds out
           | Inr bytes \<Rightarrow>
               (case cd_manifest C bytes of
                  None \<Rightarrow> collect_reachable_diff_ids C L ds out
                | Some man \<Rightarrow>
                    (case man of
                       ManImage m \<Rightarrow> collect_reachable_diff_ids C L ds (out \<union> config_diff_ids C L m)
                     | ManIndex children \<Rightarrow>
                         Option.bind (collect_reachable_diff_ids C L children out)
                           (collect_reachable_diff_ids C L ds)))))"


section \<open>Collectors\<close>

text \<open>
  The two kinds of \<open>prune_dir\<close>.  \<open>removable\<close> says whether the removal of an entry succeeds; an entry
  that cannot be removed stays and is not counted.
\<close>

fun prune_files ::
  "(string \<Rightarrow> bool) \<Rightarrow> (string \<Rightarrow> string option) \<Rightarrow> (string \<Rightarrow> bool) \<Rightarrow>
     (string \<times> string) list \<Rightarrow> (nat \<times> nat) \<times> (string \<times> string) list" where
  "prune_files removable key_of is_live [] = ((0, 0), [])"
| "prune_files removable key_of is_live ((name, bytes) # rest) =
     (let ((removed, freed), kept) = prune_files removable key_of is_live rest
      in case key_of name of
           None \<Rightarrow> ((removed, freed), (name, bytes) # kept)
         | Some key \<Rightarrow>
             if is_live key then ((removed, freed), (name, bytes) # kept)
             else if removable name then ((removed + 1, freed + length bytes), kept)
             else ((removed, freed), (name, bytes) # kept))"

fun dir_size :: "(string \<times> fs_tree) list \<Rightarrow> nat" where
  "dir_size [] = 0"
| "dir_size ((_, FsDir entries) # rest) = dir_size entries + dir_size rest"
| "dir_size ((_, FsFile bytes) # rest) = length bytes + dir_size rest"

fun prune_dirs ::
  "(string \<Rightarrow> bool) \<Rightarrow> (string \<Rightarrow> string option) \<Rightarrow> (string \<Rightarrow> bool) \<Rightarrow>
     (string \<times> fs_tree) list \<Rightarrow> (nat \<times> nat) \<times> (string \<times> fs_tree) list" where
  "prune_dirs removable key_of is_live [] = ((0, 0), [])"
| "prune_dirs removable key_of is_live ((name, node) # rest) =
     (let ((removed, freed), kept) = prune_dirs removable key_of is_live rest
      in case node of
           FsFile _ \<Rightarrow> ((removed, freed), (name, node) # kept)
         | FsDir entries \<Rightarrow>
             (case key_of name of
                None \<Rightarrow> ((removed, freed), (name, node) # kept)
              | Some key \<Rightarrow>
                  if is_live key then ((removed, freed), (name, node) # kept)
                  else if removable name then ((removed + 1, freed + dir_size entries), kept)
                  else ((removed, freed), (name, node) # kept)))"

definition digest_key :: "string \<Rightarrow> string option" where
  "digest_key name = Some (SHA256_ALGO @ '':'' @ name)"

definition erofs_key :: "string \<Rightarrow> string option" where
  "erofs_key name =
     (if ends_with name ''.erofs''
      then Some (SHA256_ALGO @ '':'' @ take (length name - length ''.erofs'') name) else None)"

definition index_digests :: "layout \<Rightarrow> string list" where
  "index_digests L = map ne_digest (ly_index L)"

definition prune_blobs ::
  "codec \<Rightarrow> (string \<Rightarrow> bool) \<Rightarrow> layout \<Rightarrow> RegistryError + (nat \<times> nat) \<times> layout" where
  "prune_blobs C removable L =
     (case collect_reachable C L (index_digests L) {} of
        Inl e \<Rightarrow> Inl e
      | Inr reachable \<Rightarrow>
          (case prune_files removable digest_key (\<lambda>d. d \<in> reachable) (ly_blobs L) of
             (counts, kept) \<Rightarrow> Inr (counts, L \<lparr> ly_blobs := kept \<rparr>)))"

definition prune_erofs_cache ::
  "codec \<Rightarrow> (string \<Rightarrow> bool) \<Rightarrow> layout \<Rightarrow> ((nat \<times> nat) \<times> layout) option" where
  "prune_erofs_cache C removable L =
     (case collect_reachable_diff_ids C L (index_digests L) {} of
        None \<Rightarrow> None
      | Some reachable \<Rightarrow>
          (case prune_files removable erofs_key (\<lambda>d. d \<in> reachable) (ly_erofs L) of
             (counts, kept) \<Rightarrow> Some (counts, L \<lparr> ly_erofs := kept \<rparr>)))"

definition prune_block_cache :: "(string \<Rightarrow> bool) \<Rightarrow> layout \<Rightarrow> (nat \<times> nat) \<times> layout" where
  "prune_block_cache removable L =
     (case prune_dirs removable digest_key (\<lambda>d. d \<in> set (index_digests L)) (ly_blocks L) of
        (counts, kept) \<Rightarrow> (counts, L \<lparr> ly_blocks := kept \<rparr>))"


section \<open>Facts on digests and blobs\<close>

lemma sha256_digest_split:
  "codec_hex C \<Longrightarrow> split_digest (sha256_digest C bytes) = Inr (SHA256_ALGO, cd_sha256 C bytes)"
  by (simp add: split_digest_Inr sha256_digest_def codec_hex_def)

text \<open>Every stored blob carries its own digest; the two writers keep this.\<close>

definition layout_ok :: "codec \<Rightarrow> layout \<Rightarrow> bool" where
  "layout_ok C L \<longleftrightarrow> list_all (\<lambda>(hex, bytes). cd_sha256 C bytes = hex) (ly_blobs L)"

lemma layout_ok_init [simp]: "layout_ok C layout_init"
  by (simp add: layout_ok_def layout_init_def)

lemma layout_ok_lookup: "layout_ok C L \<Longrightarrow> map_of (ly_blobs L) hex = Some bytes \<Longrightarrow> cd_sha256 C bytes = hex"
  by (auto simp: layout_ok_def list_all_iff dest!: map_of_SomeD)

lemma write_blob_with_digest_ok:
  "layout_ok C L \<Longrightarrow> write_blob_with_digest C bytes expected L = Inr L' \<Longrightarrow> layout_ok C L'"
  by (auto simp: write_blob_with_digest_def layout_ok_def sha256_digest_def split_digest_Inr
      split: if_splits sum.splits)

lemma write_blob_Inr:
  assumes "codec_hex C"
  shows "write_blob C bytes L =
     Inr (sha256_digest C bytes,
          if map_of (ly_blobs L) (cd_sha256 C bytes) \<noteq> None then L
          else L \<lparr> ly_blobs := (cd_sha256 C bytes, bytes) # ly_blobs L \<rparr>)"
  using assms by (simp add: write_blob_def write_blob_with_digest_def sha256_digest_split Let_def)

lemma read_blob_digest:
  assumes "codec_hex C"
  shows "read_blob C L (sha256_digest C bytes) =
     (case map_of (ly_blobs L) (cd_sha256 C bytes) of
        None \<Rightarrow> Inl IoNotFound
      | Some b \<Rightarrow> if cd_sha256 C b = cd_sha256 C bytes then Inr b
                  else Inl (DigestMismatch (sha256_digest C bytes) (sha256_digest C b)))"
  using assms by (auto simp: read_blob_def sha256_digest_split split: option.split)
     (simp_all add: sha256_digest_def)

lemma read_blob_kept:
  assumes "\<And>hex. d = SHA256_ALGO @ '':'' @ hex \<Longrightarrow> map_of (ly_blobs L') hex = map_of (ly_blobs L) hex"
  shows "read_blob C L' d = read_blob C L d"
  using assms by (auto simp: read_blob_def split_digest_Inr split: sum.split)

lemma read_blob_cong:
  "map_of (ly_blobs L) (cd_sha256 C b) = map_of (ly_blobs L') (cd_sha256 C b) \<Longrightarrow> codec_hex C \<Longrightarrow>
     read_blob C L (sha256_digest C b) = read_blob C L' (sha256_digest C b)"
  by (simp add: read_blob_digest)

text \<open>
  C29: A blob written to the layout is read back under the digest the write returned, with the very bytes
  that were written, whatever the layout already held and whatever is written afterwards; blobs stored
  earlier are still read as before.  The write never fails.  The hypothesis on the digest function is that
  no other content has the digest of the bytes written.
\<close>

theorem blob_round_trip:
  assumes hex: "codec_hex C" and ok: "layout_ok C L"
    and collision_free: "\<And>b. cd_sha256 C b = cd_sha256 C bytes \<Longrightarrow> b = bytes"
  shows "\<exists>L'. write_blob C bytes L = Inr (sha256_digest C bytes, L') \<and> layout_ok C L' \<and>
           read_blob C L' (sha256_digest C bytes) = Inr bytes \<and>
           (\<forall>d. has_blob L d \<longrightarrow> read_blob C L' d = read_blob C L d) \<and>
           (\<forall>more d L''. write_blob C more L' = Inr (d, L'') \<longrightarrow>
              read_blob C L'' (sha256_digest C bytes) = Inr bytes)"
proof -
  let ?h = "cd_sha256 C bytes"
  define L' where "L' = (if map_of (ly_blobs L) ?h \<noteq> None then L
      else L \<lparr> ly_blobs := (?h, bytes) # ly_blobs L \<rparr>)"
  have w: "write_blob C bytes L = Inr (sha256_digest C bytes, L')"
    using write_blob_Inr [OF hex] by (simp add: L'_def)
  have stored: "map_of (ly_blobs L') ?h = Some bytes"
    using layout_ok_lookup [OF ok] collision_free by (auto simp: L'_def)
  have ok': "layout_ok C L'"
    using ok by (simp add: L'_def layout_ok_def)
  have old: "read_blob C L' d = read_blob C L d" if "has_blob L d" for d
    using that by (auto simp: has_blob_def read_blob_def L'_def split: sum.splits)
  have later: "read_blob C L'' (sha256_digest C bytes) = Inr bytes"
    if "write_blob C more L' = Inr (d, L'')" for more d L''
    using that stored hex by (auto simp: write_blob_Inr read_blob_digest split: if_splits)
  show ?thesis
    using w ok' old later stored hex by (intro exI [of _ L']) (simp add: read_blob_digest)
qed

text \<open>A codec with a three-valued digest, for the examples.\<close>

definition example_codec :: codec where
  "example_codec =
     \<lparr> cd_sha256 = (\<lambda>b. if b = ''M'' then ''aa'' else if b = ''C'' then ''bb'' else ''cc''),
       cd_manifest = (\<lambda>b. if b = ''M''
                          then Some (ManImage \<lparr> im_config = ''sha256:bb'', im_layers = [''sha256:cc''],
                                                im_subject = None, im_artifact_type = None,
                                                im_annotations = None \<rparr>)
                          else None),
       cd_image = Map.empty,
       cd_diff_ids = (\<lambda>b. if b = ''C'' then Some [''sha256:dd''] else None) \<rparr>"

lemma example_codec_hex: "codec_hex example_codec"
  by (simp add: codec_hex_def example_codec_def ascii_defs byte_def)

lemma example_sha256:
  "cd_sha256 example_codec b = (if b = ''M'' then ''aa'' else if b = ''C'' then ''bb'' else ''cc'')"
  by (simp add: example_codec_def)

lemma example_M_collision_free: "cd_sha256 example_codec b = cd_sha256 example_codec ''M'' \<Longrightarrow> b = ''M''"
  by (cases "b = ''M''"; cases "b = ''C''") (simp_all add: example_sha256)

theorem blob_round_trip_witness:
  "\<exists>L'. write_blob example_codec ''M'' layout_init = Inr (sha256_digest example_codec ''M'', L')"
  using blob_round_trip [OF example_codec_hex layout_ok_init example_M_collision_free] by blast

end
