(* ===== verification/Layout_Gc.thy ===== *)
theory Layout_Gc
  imports Layout
begin

text \<open>
  What the collectors of the image layout keep and what they remove.  \<open>walked\<close> and \<open>referenced\<close> say,
  independently of the order of the walk, which digests the tag index reaches; the depth-first walk of
  \<open>collect_reachable\<close> is shown to compute exactly that set.
\<close>

section \<open>Reachability as a relation\<close>

inductive walked :: "codec \<Rightarrow> layout \<Rightarrow> string set \<Rightarrow> string \<Rightarrow> bool" for C L roots where
  root: "d \<in> roots \<Longrightarrow> walked C L roots d"
| child: "walked C L roots d \<Longrightarrow> read_blob C L d = Inr bytes \<Longrightarrow>
     cd_manifest C bytes = Some (ManIndex children) \<Longrightarrow> c \<in> set children \<Longrightarrow> walked C L roots c"

inductive leaf :: "codec \<Rightarrow> layout \<Rightarrow> string set \<Rightarrow> string \<Rightarrow> bool" for C L roots where
  leaf: "walked C L roots d \<Longrightarrow> read_blob C L d = Inr bytes \<Longrightarrow>
     cd_manifest C bytes = Some (ManImage m) \<Longrightarrow> x = im_config m \<or> x \<in> set (im_layers m) \<Longrightarrow>
     leaf C L roots x"

definition referenced :: "codec \<Rightarrow> layout \<Rightarrow> string set \<Rightarrow> string \<Rightarrow> bool" where
  "referenced C L roots d \<longleftrightarrow> walked C L roots d \<or> leaf C L roots d"

inductive_cases walkedE: "walked C L roots d"
inductive_cases leafE: "leaf C L roots d"

text \<open>The digests a visited manifest contributes.\<close>

definition successors :: "codec \<Rightarrow> layout \<Rightarrow> string \<Rightarrow> string set" where
  "successors C L d =
     (case read_blob C L d of
        Inl _ \<Rightarrow> {}
      | Inr bytes \<Rightarrow>
          (case cd_manifest C bytes of
             None \<Rightarrow> {}
           | Some (ManImage m) \<Rightarrow> insert (im_config m) (set (im_layers m))
           | Some (ManIndex children) \<Rightarrow> set children))"

text \<open>
  \<open>closed P seen\<close>: every visited manifest outside the current path \<open>P\<close> has its successors visited too.
\<close>

definition closed :: "codec \<Rightarrow> layout \<Rightarrow> string set \<Rightarrow> string set \<Rightarrow> string set \<Rightarrow> bool" where
  "closed C L roots P seen \<longleftrightarrow> (\<forall>d\<in>seen. walked C L roots d \<longrightarrow> d \<notin> P \<longrightarrow> successors C L d \<subseteq> seen)"

text \<open>The walk as a relation: \<open>visits\<close> has one rule per way a digest is handled.\<close>

inductive visits :: "codec \<Rightarrow> layout \<Rightarrow> string list \<Rightarrow> string set \<Rightarrow> string set \<Rightarrow> bool" for C L where
  visits_Nil: "visits C L [] seen seen"
| visits_seen: "d \<in> seen \<Longrightarrow> visits C L ds seen seen' \<Longrightarrow> visits C L (d # ds) seen seen'"
| visits_blob: "d \<notin> seen \<Longrightarrow> successors C L d = {} \<Longrightarrow> visits C L ds (insert d seen) seen' \<Longrightarrow>
     visits C L (d # ds) seen seen'"
| visits_image: "d \<notin> seen \<Longrightarrow> read_blob C L d = Inr bytes \<Longrightarrow> cd_manifest C bytes = Some (ManImage m) \<Longrightarrow>
     visits C L ds (successors C L d \<union> insert d seen) seen' \<Longrightarrow> visits C L (d # ds) seen seen'"
| visits_index: "d \<notin> seen \<Longrightarrow> read_blob C L d = Inr bytes \<Longrightarrow> cd_manifest C bytes = Some (ManIndex cs) \<Longrightarrow>
     visits C L cs (insert d seen) mid \<Longrightarrow> visits C L ds mid seen' \<Longrightarrow> visits C L (d # ds) seen seen'"

lemma collect_reachable_visits:
  "collect_reachable C L ds seen = Inr seen' \<Longrightarrow> visits C L ds seen seen'"
proof (induction C L ds seen arbitrary: seen' rule: collect_reachable.induct)
  case (1 C L seen)
  then show ?case by (simp add: visits_Nil)
next
  case (2 C L d ds seen)
  show ?case
  proof (cases "d \<in> seen")
    case True
    then show ?thesis using "2.prems" "2.IH"(1) by (simp add: visits_seen)
  next
    case new: False
    show ?thesis
    proof (cases "read_blob C L d")
      case (Inl e)
      then show ?thesis
        using "2.prems" "2.IH"(2) [OF new Inl] new
        by (cases e) (auto simp: successors_def intro: visits_blob)
    next
      case (Inr bytes)
      note IH = "2.IH"(3-) [OF new Inr]
      show ?thesis
      proof (cases "cd_manifest C bytes")
        case None
        then show ?thesis
          using "2.prems" IH(1) new Inr by (auto simp: successors_def intro: visits_blob)
      next
        case (Some man)
        show ?thesis
        proof (cases man)
          case (ManImage m)
          then have "successors C L d \<union> insert d seen = set (im_layers m) \<union> insert (im_config m) (insert d seen)"
            using Inr Some by (auto simp: successors_def)
          then show ?thesis
            using "2.prems" IH(2) [OF Some ManImage] new Inr Some ManImage
            by (auto intro: visits_image)
        next
          case (ManIndex cs)
          then obtain mid where mid: "collect_reachable C L cs (insert d seen) = Inr mid"
              "collect_reachable C L ds mid = Inr seen'"
            using "2.prems" new Inr Some by (auto split: sum.splits)
          then show ?thesis
            using IH(3) [OF Some ManIndex mid(1)] IH(4) [OF Some ManIndex mid] new Inr Some ManIndex
            by (auto intro: visits_index)
        qed
      qed
    qed
  qed
qed

lemma visits_grows: "visits C L ds seen seen' \<Longrightarrow> seen \<subseteq> seen'"
  by (induction rule: visits.induct) auto

lemma visits_covers: "visits C L ds seen seen' \<Longrightarrow> set ds \<subseteq> seen'"
  by (induction rule: visits.induct) (auto dest!: visits_grows)

lemma visits_sound:
  "visits C L ds seen seen' \<Longrightarrow> (\<And>d. d \<in> set ds \<Longrightarrow> walked C L roots d) \<Longrightarrow>
     (\<And>x. x \<in> seen \<Longrightarrow> referenced C L roots x) \<Longrightarrow> x \<in> seen' \<Longrightarrow> referenced C L roots x"
proof (induction arbitrary: x rule: visits.induct)
  case (visits_blob d seen ds seen')
  then show ?case by (auto simp: referenced_def)
next
  case (visits_image d seen bytes m ds seen')
  have "referenced C L roots y" if "y \<in> successors C L d \<union> insert d seen" for y
    using that visits_image by (auto simp: referenced_def successors_def intro: leaf.leaf)
  then show ?case using visits_image by simp
next
  case (visits_index d seen bytes cs mid ds seen')
  have "referenced C L roots y" if "y \<in> mid" for y
  proof (rule visits_index.IH(1) [OF _ _ that])
    show "\<And>c. c \<in> set cs \<Longrightarrow> walked C L roots c"
      using visits_index.prems(1) visits_index.hyps by (auto intro: walked.child)
    show "\<And>x. x \<in> insert d seen \<Longrightarrow> referenced C L roots x"
      using visits_index.prems(1,2) by (auto simp: referenced_def)
  qed
  then show ?case using visits_index by simp
qed auto

text \<open>
  The depth-first argument: no digest is both walked and a leaf, so a digest met as a leaf never hides
  the children of a manifest.
\<close>

lemma visits_closed:
  "visits C L ds seen seen' \<Longrightarrow> (\<And>d. d \<in> set ds \<Longrightarrow> walked C L roots d) \<Longrightarrow>
     (\<And>x. leaf C L roots x \<Longrightarrow> \<not> walked C L roots x) \<Longrightarrow> P \<subseteq> seen \<Longrightarrow> closed C L roots P seen \<Longrightarrow>
     closed C L roots P seen'"
proof (induction arbitrary: P rule: visits.induct)
  case (visits_blob d seen ds seen')
  have "closed C L roots P (insert d seen)"
    using visits_blob.prems(4) visits_blob.hyps(2) by (auto simp: closed_def)
  then show ?case using visits_blob by (simp add: subset_insertI2)
next
  case (visits_image d seen bytes m ds seen')
  have "\<not> walked C L roots x" if "x \<in> successors C L d" for x
    using that visits_image by (auto simp: successors_def intro!: visits_image.prems(2) intro: leaf.leaf)
  then have "closed C L roots P (successors C L d \<union> insert d seen)"
    using visits_image.prems(4) by (auto simp: closed_def)
  then show ?case using visits_image by auto
next
  case (visits_index d seen bytes cs mid ds seen')
  have cs: "successors C L d = set cs" using visits_index.hyps by (simp add: successors_def)
  have step: "closed C L roots (insert d P) mid"
  proof (rule visits_index.IH(1))
    show "\<And>c. c \<in> set cs \<Longrightarrow> walked C L roots c"
      using visits_index.prems(1) visits_index.hyps by (auto intro: walked.child)
    show "closed C L roots (insert d P) (insert d seen)"
      using visits_index.prems(4) by (auto simp: closed_def)
  qed (use visits_index.prems in auto)
  have "set cs \<subseteq> mid" using visits_covers [OF visits_index.hyps(4)] .
  then have "closed C L roots P mid"
    using step cs by (auto simp: closed_def)
  moreover have "P \<subseteq> mid" using visits_grows [OF visits_index.hyps(4)] visits_index.prems(3) by auto
  ultimately show ?case using visits_index by auto
qed auto

lemma closed_complete:
  assumes "closed C L roots {} seen" and "roots \<subseteq> seen"
  shows "referenced C L roots d \<Longrightarrow> d \<in> seen"
proof -
  have w: "d \<in> seen" if "walked C L roots d" for d
    using that
  proof (induction rule: walked.induct)
    case (root d)
    then show ?case using assms(2) by auto
  next
    case (child d bytes children c)
    then show ?case using assms(1) by (force simp: closed_def successors_def)
  qed
  show "referenced C L roots d \<Longrightarrow> d \<in> seen"
    using w assms(1) by (force simp: referenced_def closed_def successors_def elim!: leafE)
qed

theorem collect_reachable_exact:
  assumes "collect_reachable C L ds {} = Inr seen"
    and "\<And>x. leaf C L (set ds) x \<Longrightarrow> \<not> walked C L (set ds) x"
  shows "seen = Collect (referenced C L (set ds))"
proof -
  note v = collect_reachable_visits [OF assms(1)]
  have r: "\<And>d. d \<in> set ds \<Longrightarrow> walked C L (set ds) d" by (rule walked.root)
  have "closed C L (set ds) {} seen"
    using visits_closed [OF v r assms(2), where P = "{}"] by (simp add: closed_def)
  then have "referenced C L (set ds) d \<Longrightarrow> d \<in> seen" for d
    using closed_complete visits_covers [OF v] by blast
  moreover have "d \<in> seen \<Longrightarrow> referenced C L (set ds) d" for d
    using visits_sound [OF v r] by blast
  ultimately show ?thesis by blast
qed

text \<open>The walk succeeds when every manifest it meets is absent or intact.\<close>

definition intact :: "codec \<Rightarrow> layout \<Rightarrow> string set \<Rightarrow> bool" where
  "intact C L roots \<longleftrightarrow> (\<forall>d e. walked C L roots d \<longrightarrow> read_blob C L d = Inl e \<longrightarrow> e = IoNotFound)"

lemma collect_reachable_total:
  "intact C L roots \<Longrightarrow> (\<And>d. d \<in> set ds \<Longrightarrow> walked C L roots d) \<Longrightarrow>
     \<exists>seen'. collect_reachable C L ds seen = Inr seen'"
proof (induction C L ds seen rule: collect_reachable.induct)
  case (2 C L d ds seen)
  have d: "walked C L roots d" and ds: "\<And>d. d \<in> set ds \<Longrightarrow> walked C L roots d" using "2.prems"(2) by auto
  show ?case
  proof (cases "d \<in> seen")
    case True
    then show ?thesis using "2.IH"(1) "2.prems"(1) ds by simp
  next
    case new: False
    show ?thesis
    proof (cases "read_blob C L d")
      case (Inl e)
      then have "e = IoNotFound" using "2.prems"(1) d by (auto simp: intact_def)
      then show ?thesis using "2.IH"(2) [OF new Inl] "2.prems"(1) ds new Inl by simp
    next
      case (Inr bytes)
      note IH = "2.IH"(3-) [OF new Inr]
      show ?thesis
      proof (cases "cd_manifest C bytes")
        case None
        then show ?thesis using IH(1) "2.prems"(1) ds new Inr by simp
      next
        case (Some man)
        show ?thesis
        proof (cases man)
          case (ManImage m)
          then show ?thesis using IH(2) [OF Some ManImage] "2.prems"(1) ds new Inr Some by simp
        next
          case (ManIndex cs)
          have "\<And>c. c \<in> set cs \<Longrightarrow> walked C L roots c"
            using walked.child [OF d Inr] Some ManIndex by auto
          then obtain mid where "collect_reachable C L cs (insert d seen) = Inr mid"
            using IH(3) [OF Some ManIndex] "2.prems"(1) by blast
          then show ?thesis
            using IH(4) [OF Some ManIndex] "2.prems"(1) ds new Inr Some ManIndex by simp
        qed
      qed
    qed
  qed
qed simp


section \<open>The blob collector\<close>

lemma prune_files_lookup:
  "map_of (snd (prune_files removable key_of is_live dir)) name =
     (case key_of name of
        None \<Rightarrow> map_of dir name
      | Some key \<Rightarrow> if \<not> is_live key \<and> removable name then None else map_of dir name)"
  by (induction dir) (auto simp: Let_def split: prod.splits option.splits)

lemma prune_files_counts:
  assumes "prune_files removable key_of is_live dir = ((removed, freed), kept)"
  shows "length dir = removed + length kept"
    and "sum_list (map (length \<circ> snd) dir) = freed + sum_list (map (length \<circ> snd) kept)"
  using assms
  by (induction dir arbitrary: removed freed kept)
     (auto simp: Let_def split: prod.splits option.splits if_splits)

text \<open>
  C3: Collecting the blobs of a layout whose indexed manifests are absent or intact always finishes with a
  result: every digest the tag index reaches - through nested image indexes down to configs and layers -
  reads exactly as before, every unreachable blob that the file system lets go is gone, the tags are
  untouched, and the two counts returned are the number of removed blobs and their total size.  The other
  hypothesis is that no manifest of the walk is at the same time the config or a layer of an image.
\<close>

theorem prune_blobs_exact:
  assumes intact: "intact C L (set (index_digests L))"
    and apart: "\<And>x. leaf C L (set (index_digests L)) x \<Longrightarrow> \<not> walked C L (set (index_digests L)) x"
  shows "\<exists>removed freed L'. prune_blobs C removable L = Inr ((removed, freed), L') \<and>
     ly_index L' = ly_index L \<and>
     (\<forall>d. referenced C L (set (index_digests L)) d \<longrightarrow> read_blob C L' d = read_blob C L d) \<and>
     (\<forall>hex. \<not> referenced C L (set (index_digests L)) (SHA256_ALGO @ '':'' @ hex) \<and> removable hex \<longrightarrow>
        map_of (ly_blobs L') hex = None) \<and>
     removed = length (ly_blobs L) - length (ly_blobs L') \<and>
     sum_list (map (length \<circ> snd) (ly_blobs L)) = freed + sum_list (map (length \<circ> snd) (ly_blobs L'))"
proof -
  let ?R = "referenced C L (set (index_digests L))"
  obtain seen where seen: "collect_reachable C L (index_digests L) {} = Inr seen"
    using collect_reachable_total [OF intact walked.root] by blast
  have exact: "seen = Collect ?R" using collect_reachable_exact [OF seen apart] by blast
  obtain removed freed kept where
    pf: "prune_files removable digest_key (\<lambda>d. d \<in> seen) (ly_blobs L) = ((removed, freed), kept)"
    by (metis surj_pair)
  let ?L' = "L \<lparr> ly_blobs := kept \<rparr>"
  have look: "map_of kept hex =
      (if \<not> ?R (SHA256_ALGO @ '':'' @ hex) \<and> removable hex then None else map_of (ly_blobs L) hex)" for hex
    using prune_files_lookup [of removable digest_key "\<lambda>d. d \<in> seen" "ly_blobs L" hex] pf exact
    by (simp add: digest_key_def)
  have kept: "read_blob C ?L' d = read_blob C L d" if "?R d" for d
    by (rule read_blob_kept) (use that look in auto)
  have gone: "map_of kept hex = None" if "\<not> ?R (SHA256_ALGO @ '':'' @ hex)" "removable hex" for hex
    using that look by simp
  have "prune_blobs C removable L = Inr ((removed, freed), ?L')"
    using seen pf by (simp add: prune_blobs_def)
  then show ?thesis
    using kept gone prune_files_counts [OF pf] by (intro exI [of _ removed] exI [of _ freed] exI [of _ ?L']) simp
qed

definition example_layout :: layout where
  "example_layout =
     \<lparr> ly_blobs = [(''aa'', ''M''), (''bb'', ''C''), (''cc'', ''layer''), (''ee'', ''stale'')],
       ly_erofs = [(''cc.erofs'', ''image'')], ly_blocks = [],
       ly_index = [\<lparr> ne_media_type = OCI_IMAGE_MEDIA_TYPE, ne_digest = ''sha256:aa'', ne_size = 1,
                     ne_annotations = None \<rparr>] \<rparr>"

lemma example_read_M: "read_blob example_codec example_layout ''sha256:aa'' = Inr ''M''"
  by code_simp

lemma example_manifest:
  "cd_manifest example_codec b =
     (if b = ''M'' then Some (ManImage \<lparr> im_config = ''sha256:bb'', im_layers = [''sha256:cc''],
        im_subject = None, im_artifact_type = None, im_annotations = None \<rparr>) else None)"
  by (simp add: example_codec_def)

lemma example_walked: "walked example_codec example_layout {''sha256:aa''} d \<longleftrightarrow> d = ''sha256:aa''"
proof
  show "walked example_codec example_layout {''sha256:aa''} d \<Longrightarrow> d = ''sha256:aa''"
    by (induction rule: walked.induct) (simp_all add: example_read_M example_manifest split: if_splits)
qed (simp add: walked.root)

lemma example_leaf: "leaf example_codec example_layout {''sha256:aa''} d \<Longrightarrow> d \<in> {''sha256:bb'', ''sha256:cc''}"
  by (erule leafE) (auto simp: example_walked example_read_M example_manifest)

theorem prune_blobs_exact_witness:
  "(\<exists>counts L'. prune_blobs example_codec (\<lambda>_. True) example_layout = Inr (counts, L') \<and>
      read_blob example_codec L' ''sha256:aa'' = Inr ''M'') \<and>
   map_sum id (map_prod id ly_blobs) (prune_blobs example_codec (\<lambda>_. True) example_layout) =
     Inr ((1, 5), [(''aa'', ''M''), (''bb'', ''C''), (''cc'', ''layer'')])"
proof
  have ix: "set (index_digests example_layout) = {''sha256:aa''}"
    by (simp add: index_digests_def example_layout_def)
  have "intact example_codec example_layout {''sha256:aa''}"
    by (simp add: intact_def example_walked example_read_M)
  moreover have "\<And>x. leaf example_codec example_layout {''sha256:aa''} x \<Longrightarrow>
      \<not> walked example_codec example_layout {''sha256:aa''} x"
    using example_leaf by (fastforce simp: example_walked)
  moreover have "referenced example_codec example_layout {''sha256:aa''} ''sha256:aa''"
    by (simp add: referenced_def example_walked)
  ultimately show "\<exists>counts L'. prune_blobs example_codec (\<lambda>_. True) example_layout = Inr (counts, L') \<and>
      read_blob example_codec L' ''sha256:aa'' = Inr ''M''"
    using prune_blobs_exact [of example_codec example_layout "\<lambda>_. True"] ix example_read_M by fastforce
  show "map_sum id (map_prod id ly_blobs) (prune_blobs example_codec (\<lambda>_. True) example_layout) =
     Inr ((1, 5), [(''aa'', ''M''), (''bb'', ''C''), (''cc'', ''layer'')])"
    by code_simp
qed


section \<open>The cache collectors\<close>

text \<open>The diff ids of every image the roots reach.\<close>

definition own_ids :: "codec \<Rightarrow> layout \<Rightarrow> string \<Rightarrow> string set" where
  "own_ids C L d =
     (case read_blob C L d of
        Inl _ \<Rightarrow> {}
      | Inr bytes \<Rightarrow>
          (case cd_manifest C bytes of Some (ManImage m) \<Rightarrow> config_diff_ids C L m | _ \<Rightarrow> {}))"

definition reached_ids :: "codec \<Rightarrow> layout \<Rightarrow> string set \<Rightarrow> string set" where
  "reached_ids C L roots = (\<Union>d\<in>Collect (walked C L roots). own_ids C L d)"

lemma walked_mono: "walked C L roots d \<Longrightarrow> roots \<subseteq> roots' \<Longrightarrow> walked C L roots' d"
  by (induction rule: walked.induct) (auto intro: walked.intros)

lemma walked_below:
  assumes "read_blob C L r = Inr bytes" and "cd_manifest C bytes = Some (ManIndex cs)"
  shows "walked C L (set cs) d \<Longrightarrow> walked C L (insert r R) d"
  by (induction rule: walked.induct) (use assms in \<open>auto intro: walked.intros\<close>)

lemma walked_insert_index:
  assumes "read_blob C L r = Inr bytes" and "cd_manifest C bytes = Some (ManIndex cs)"
  shows "walked C L (insert r R) d \<longleftrightarrow> d = r \<or> walked C L (set cs) d \<or> walked C L R d" (is "?l \<longleftrightarrow> ?r")
proof
  show "?l \<Longrightarrow> ?r"
    by (induction rule: walked.induct) (use assms in \<open>auto intro: walked.intros\<close>)
  show "?r \<Longrightarrow> ?l"
    using walked_below [OF assms] by (auto intro: walked_mono [of C L R] walked.root)
qed

lemma walked_insert_other:
  assumes "\<And>bytes cs. read_blob C L r = Inr bytes \<Longrightarrow> cd_manifest C bytes \<noteq> Some (ManIndex cs)"
  shows "walked C L (insert r R) d \<longleftrightarrow> d = r \<or> walked C L R d" (is "?l \<longleftrightarrow> ?r")
proof
  show "?l \<Longrightarrow> ?r"
    by (induction rule: walked.induct) (use assms in \<open>auto intro: walked.intros\<close>)
  show "?r \<Longrightarrow> ?l"
    by (auto intro: walked_mono [of C L R] walked.root)
qed

lemma reached_ids_empty [simp]: "reached_ids C L {} = {}"
proof -
  have "\<not> walked C L {} d" for d
    by (rule notI, erule walked.induct) auto
  then show ?thesis by (simp add: reached_ids_def)
qed

lemma reached_ids_index:
  assumes "read_blob C L r = Inr bytes" and "cd_manifest C bytes = Some (ManIndex cs)"
  shows "reached_ids C L (insert r R) = reached_ids C L (set cs) \<union> reached_ids C L R"
proof -
  have "Collect (walked C L (insert r R)) = insert r (Collect (walked C L (set cs)) \<union> Collect (walked C L R))"
    using walked_insert_index [OF assms] by auto
  then show ?thesis using assms by (auto simp: reached_ids_def own_ids_def)
qed

lemma reached_ids_other:
  assumes "\<And>bytes cs. read_blob C L r = Inr bytes \<Longrightarrow> cd_manifest C bytes \<noteq> Some (ManIndex cs)"
  shows "reached_ids C L (insert r R) = own_ids C L r \<union> reached_ids C L R"
proof -
  have "Collect (walked C L (insert r R)) = insert r (Collect (walked C L R))"
    using walked_insert_other [OF assms] by auto
  then show ?thesis by (simp add: reached_ids_def)
qed

text \<open>Content addressing keeps an index from containing itself; \<open>rank\<close> is any measure that shows it.\<close>

definition descending :: "codec \<Rightarrow> layout \<Rightarrow> (string \<Rightarrow> nat) \<Rightarrow> bool" where
  "descending C L rank \<longleftrightarrow>
     (\<forall>d bytes cs c. read_blob C L d = Inr bytes \<longrightarrow> cd_manifest C bytes = Some (ManIndex cs) \<longrightarrow>
        c \<in> set cs \<longrightarrow> rank c < rank d)"

lemma collect_reachable_diff_ids_Cons:
  "collect_reachable_diff_ids C L (d # ds) out =
     (case read_blob C L d of
        Inr bytes \<Rightarrow>
          (case cd_manifest C bytes of
             Some (ManIndex children) \<Rightarrow>
               Option.bind (collect_reachable_diff_ids C L children out) (collect_reachable_diff_ids C L ds)
           | _ \<Rightarrow> collect_reachable_diff_ids C L ds (out \<union> own_ids C L d))
      | Inl _ \<Rightarrow> collect_reachable_diff_ids C L ds (out \<union> own_ids C L d))"
  by (subst collect_reachable_diff_ids.simps)
     (auto simp: own_ids_def split: sum.split option.split OciManifest.split)

lemma collect_reachable_diff_ids_returns:
  assumes "descending C L rank"
  shows "(\<And>d. d \<in> set ds \<Longrightarrow> rank d < n) \<Longrightarrow>
     collect_reachable_diff_ids C L ds out = Some (out \<union> reached_ids C L (set ds))"
proof (induction n arbitrary: ds out)
  case 0
  then have "ds = []" by (cases ds) auto
  then show ?case by (simp add: collect_reachable_diff_ids.simps)
next
  case (Suc n)
  from Suc.prems show ?case
  proof (induction ds arbitrary: out)
    case Nil
    then show ?case by (simp add: collect_reachable_diff_ids.simps)
  next
    case (Cons d ds)
    have rest: "collect_reachable_diff_ids C L ds out = Some (out \<union> reached_ids C L (set ds))" for out
      using Cons by simp
    show ?case
    proof (cases "\<exists>bytes cs. read_blob C L d = Inr bytes \<and> cd_manifest C bytes = Some (ManIndex cs)")
      case True
      then obtain bytes cs where man: "read_blob C L d = Inr bytes" "cd_manifest C bytes = Some (ManIndex cs)"
        by blast
      have "\<And>c. c \<in> set cs \<Longrightarrow> rank c < n"
        using assms man Cons.prems [of d] by (fastforce simp: descending_def)
      then have "collect_reachable_diff_ids C L cs out = Some (out \<union> reached_ids C L (set cs))"
        by (rule Suc.IH)
      then show ?thesis
        using man rest reached_ids_index [OF man, of "set ds"]
        by (simp add: collect_reachable_diff_ids_Cons Un_assoc)
    next
      case False
      then have "collect_reachable_diff_ids C L (d # ds) out =
          collect_reachable_diff_ids C L ds (out \<union> own_ids C L d)"
        by (auto simp: collect_reachable_diff_ids_Cons split: sum.split option.split OciManifest.split)
      then show ?thesis
        using rest reached_ids_other [of C L d "set ds"] False by (simp add: Un_assoc)
    qed
  qed
qed

lemma erofs_key_suffix [simp]: "erofs_key (hex @ ''.erofs'') = Some (SHA256_ALGO @ '':'' @ hex)"
  by (simp add: erofs_key_def ends_with_def starts_with_def)

text \<open>
  C31: Collecting the erofs cache always finishes, although its walk keeps no visited set, because an index
  never contains itself; and it keeps a cached encoding exactly when the name of its file is the diff id of
  a layer of some indexed image (or the file cannot be removed).  The encoder names those files by the
  digest of the layer blob (\<open>erofs_cache_path\<close>), so for a compressed layer - whose blob digest is not a
  diff id - the encoding of a live layer is removed; the example below is such a layout.
\<close>

theorem prune_erofs_cache_exact:
  assumes "descending C L rank"
  shows "\<exists>counts L'. prune_erofs_cache C removable L = Some (counts, L') \<and>
     ly_blobs L' = ly_blobs L \<and> ly_index L' = ly_index L \<and>
     (\<forall>hex. map_of (ly_erofs L') (hex @ ''.erofs'') =
        (if SHA256_ALGO @ '':'' @ hex \<in> reached_ids C L (set (index_digests L)) \<or> \<not> removable (hex @ ''.erofs'')
         then map_of (ly_erofs L) (hex @ ''.erofs'') else None))"
proof -
  let ?ids = "reached_ids C L (set (index_digests L))"
  have "\<And>d. d \<in> set (index_digests L) \<Longrightarrow> rank d < Suc (Max (rank ` set (index_digests L)))"
    by (simp add: less_Suc_eq_le)
  from collect_reachable_diff_ids_returns [OF assms this]
  have ids: "collect_reachable_diff_ids C L (index_digests L) {} = Some ?ids" by simp
  obtain counts kept where pf: "prune_files removable erofs_key (\<lambda>d. d \<in> ?ids) (ly_erofs L) = (counts, kept)"
    by (metis surj_pair)
  have "map_of kept (hex @ ''.erofs'') =
      (if SHA256_ALGO @ '':'' @ hex \<in> ?ids \<or> \<not> removable (hex @ ''.erofs'')
       then map_of (ly_erofs L) (hex @ ''.erofs'') else None)" for hex
    using prune_files_lookup [of removable erofs_key "\<lambda>d. d \<in> ?ids" "ly_erofs L" "hex @ ''.erofs''"] pf by auto
  moreover have "prune_erofs_cache C removable L = Some (counts, L \<lparr> ly_erofs := kept \<rparr>)"
    using ids pf by (simp add: prune_erofs_cache_def)
  ultimately show ?thesis by (intro exI [of _ counts] exI [of _ "L \<lparr> ly_erofs := kept \<rparr>"]) simp
qed

lemma example_diff_ids:
  "collect_reachable_diff_ids example_codec example_layout (index_digests example_layout) {} = Some {''sha256:dd''}"
proof -
  have "index_digests example_layout = [''sha256:aa'']" by code_simp
  moreover have "read_blob example_codec example_layout ''sha256:bb'' = Inr ''C''" by code_simp
  moreover have "cd_diff_ids example_codec ''C'' = Some [''sha256:dd'']" by code_simp
  ultimately show ?thesis
    by (simp add: collect_reachable_diff_ids.simps [of _ _ "_ # _"] collect_reachable_diff_ids.simps [of _ _ "[]"]
        example_read_M example_manifest config_diff_ids_def)
qed

theorem prune_erofs_cache_exact_witness:
  "(\<exists>counts L'. prune_erofs_cache example_codec (\<lambda>_. True) example_layout = Some (counts, L') \<and>
      ly_blobs L' = ly_blobs example_layout) \<and>
   erofs_cache_path ''sha256:cc'' = Inr [''cache'', ''erofs'', ''cc.erofs''] \<and>
   map_option (map_prod id ly_erofs) (prune_erofs_cache example_codec (\<lambda>_. True) example_layout) = Some ((1, 5), [])"
proof (intro conjI)
  have "descending example_codec example_layout (\<lambda>_. 0)"
    by (simp add: descending_def example_manifest)
  then show "\<exists>counts L'. prune_erofs_cache example_codec (\<lambda>_. True) example_layout = Some (counts, L') \<and>
      ly_blobs L' = ly_blobs example_layout"
    using prune_erofs_cache_exact by blast
  show "erofs_cache_path ''sha256:cc'' = Inr [''cache'', ''erofs'', ''cc.erofs'']" by code_simp
  have "prune_files (\<lambda>_. True) erofs_key (\<lambda>d. d \<in> {''sha256:dd''}) (ly_erofs example_layout) = ((1, 5), [])"
    by code_simp
  then show "map_option (map_prod id ly_erofs) (prune_erofs_cache example_codec (\<lambda>_. True) example_layout) =
      Some ((1, 5), [])"
    by (simp add: prune_erofs_cache_def example_diff_ids)
qed

text \<open>The block cache is keyed by the manifest digest, and only by that.\<close>

lemma prune_dirs_mem:
  "(name, node) \<in> set (snd (prune_dirs removable key_of is_live dir)) \<longleftrightarrow>
     (name, node) \<in> set dir \<and>
     ((\<exists>b. node = FsFile b) \<or> key_of name = None \<or> is_live (the (key_of name)) \<or> \<not> removable name)"
  by (induction dir) (auto simp: Let_def split: prod.splits option.splits fs_tree.splits if_splits)

lemma prune_block_cache_mem:
  "(name, node) \<in> set (ly_blocks (snd (prune_block_cache removable L))) \<longleftrightarrow>
     (name, node) \<in> set (ly_blocks L) \<and>
     ((\<exists>b. node = FsFile b) \<or> SHA256_ALGO @ '':'' @ name \<in> set (index_digests L) \<or> \<not> removable name)"
  using prune_dirs_mem [of name node removable digest_key "\<lambda>d. d \<in> set (index_digests L)" "ly_blocks L"]
  by (auto simp: prune_block_cache_def digest_key_def split: prod.splits)

end
