(* ===== verification/Layout_Refs.thy ===== *)
theory Layout_Refs
  imports Layout "HOL-Library.List_Lexorder" "HOL-Library.Char_ord"
begin

text \<open>
  The names of a registry: the tag index of a layout as a map from references to entries
  (\<open>layout.rs\<close>), the fallback referrers index (\<open>referrers.rs\<close>) and the search registries of an
  unqualified reference (\<open>search.rs\<close>), all under \<open>crates/umf-oci/src/registry/\<close>.
\<close>

section \<open>Referrers\<close>

definition MAX_TAG_LEN :: nat where
  "MAX_TAG_LEN = 127"

type_synonym ReferrersIndex = "ReferrerDescriptor list"

definition referrers_upsert :: "ReferrerDescriptor \<Rightarrow> ReferrersIndex \<Rightarrow> ReferrersIndex" where
  "referrers_upsert descriptor manifests =
     sort_key rd_digest (filter (\<lambda>d. rd_digest d \<noteq> rd_digest descriptor) manifests @ [descriptor])"

definition filtered :: "string option \<Rightarrow> ReferrersIndex \<Rightarrow> ReferrerDescriptor list" where
  "filtered artifact_type manifests =
     (case artifact_type of None \<Rightarrow> manifests
      | Some at \<Rightarrow> filter (\<lambda>d. rd_artifact_type d = Some at) manifests)"

definition fallback_tag :: "string \<Rightarrow> RegistryError + string" where
  "fallback_tag digest =
     (let well_formed =
        (case split_once (CHR '':'') digest of
           None \<Rightarrow> False
         | Some (algo, hex) \<Rightarrow>
             algo \<noteq> [] \<and> hex \<noteq> [] \<and>
             list_all (\<lambda>c. is_ascii_lowercase c \<or> is_ascii_digit c) algo \<and> list_all is_ascii_hexdigit hex)
      in if \<not> well_formed then Inl (MalformedDigest (NotAlgoHex digest))
         else Inr (take MAX_TAG_LEN (map (\<lambda>c. if c = CHR '':'' then CHR ''-'' else c) digest)))"


section \<open>Search registries\<close>

type_synonym SearchRegistries = "string list"

definition registry_host :: "string \<Rightarrow> string" where
  "registry_host registry = trim_end_matches (CHR ''/'') (trim registry)"

definition add_registry :: "string \<Rightarrow> SearchRegistries \<Rightarrow> bool \<times> SearchRegistries" where
  "add_registry registry search =
     (let registry = registry_host registry
      in if registry = [] \<or> registry \<in> set search then (False, search) else (True, search @ [registry]))"

definition remove_registry :: "string \<Rightarrow> SearchRegistries \<Rightarrow> bool \<times> SearchRegistries" where
  "remove_registry registry search =
     (let kept = filter (\<lambda>r. r \<noteq> registry_host registry) search
      in (length kept \<noteq> length search, kept))"

definition is_qualified :: "string \<Rightarrow> bool" where
  "is_qualified reference =
     (case split_once (CHR ''/'') reference of
        Some (host, _) \<Rightarrow> CHR ''.'' \<in> set host \<or> CHR '':'' \<in> set host \<or> host = ''localhost''
      | None \<Rightarrow> False)"

definition resolution_candidates :: "string \<Rightarrow> SearchRegistries \<Rightarrow> string list" where
  "resolution_candidates reference search =
     (if search = [] \<or> is_qualified reference then [reference]
      else map (\<lambda>reg. trim_end_matches (CHR ''/'') reg @ ''/'' @ reference) search @ [reference])"

definition config_path :: "string option \<Rightarrow> string option \<Rightarrow> string list option" where
  "config_path xdg_config_home home =
     (case xdg_config_home of
        Some (c # xdg) \<Rightarrow> Some [c # xdg, ''umf'', ''registries.toml'']
      | _ \<Rightarrow> map_option (\<lambda>home. [home, ''.config'', ''umf'', ''registries.toml'']) home)"


section \<open>The tag index\<close>

text \<open>What a client of named references relies on.\<close>

locale ref_store =
  fixes upsert :: "string \<Rightarrow> 'e \<Rightarrow> 's \<Rightarrow> 's"
    and lookup :: "'s \<Rightarrow> string \<Rightarrow> 'e option"
    and remove :: "string \<Rightarrow> 's \<Rightarrow> bool \<times> 's"
    and stored :: "string \<Rightarrow> 'e \<Rightarrow> 'e"
  assumes lookup_upsert: "lookup (upsert r e s) = (lookup s)(r \<mapsto> stored r e)"
    and lookup_remove: "lookup (snd (remove r s)) = (lookup s)(r := None)"
    and remove_reports: "fst (remove r s) \<longleftrightarrow> lookup s r \<noteq> None"
begin

lemma upsert_all:
  "lookup (fold (\<lambda>(r, e). upsert r e) res s) =
     lookup s ++ map_of (rev (map (\<lambda>(r, e). (r, stored r e)) res))"
  by (induction res arbitrary: s) (auto simp: lookup_upsert map_add_def split: option.splits)

lemma remove_twice: "\<not> fst (remove r (snd (remove r s)))"
  by (simp add: remove_reports lookup_remove)

lemma removed_then_upserted: "lookup (upsert r e (snd (remove r s))) = lookup (upsert r e s)"
  by (simp add: lookup_upsert lookup_remove)

end

lemma ref_name_of_tagged [simp]: "ref_name_of (tagged r e) = Some r"
  by (simp add: ref_name_of_def tagged_def)

lemma find_append: "find P (xs @ ys) = (case find P xs of None \<Rightarrow> find P ys | Some x \<Rightarrow> Some x)"
  by (induction xs) auto

lemma length_filter_eq_iff: "length (filter P xs) = length xs \<longleftrightarrow> list_all P xs"
  using length_filter_less [of _ xs P] by (force simp: list_all_iff)

lemma lookup_kept:
  "find (\<lambda>e. ref_name_of e = Some r') (filter (\<lambda>e. ref_name_of e \<noteq> Some r) xs) =
     (if r' = r then None else find (\<lambda>e. ref_name_of e = Some r') xs)"
  by (induction xs) auto

interpretation tag_index: ref_store upsert_ref lookup_ref remove_ref tagged
proof
  fix r e and L :: layout
  show "lookup_ref (upsert_ref r e L) = (lookup_ref L)(r \<mapsto> tagged r e)"
    by (rule ext) (simp add: lookup_ref_def upsert_ref_def find_append lookup_kept split: option.split)
  have len: "length (filter (\<lambda>e. ref_name_of e \<noteq> Some r) (ly_index L)) = length (ly_index L) \<longleftrightarrow>
      lookup_ref L r = None"
    by (auto simp: lookup_ref_def find_None_iff length_filter_eq_iff list_all_iff)
  show "fst (remove_ref r L) \<longleftrightarrow> lookup_ref L r \<noteq> None"
    using len by (auto simp: remove_ref_def Let_def)
  show "lookup_ref (snd (remove_ref r L)) = (lookup_ref L)(r := None)"
    using len by (auto intro!: ext simp: remove_ref_def Let_def lookup_ref_def lookup_kept)
qed

text \<open>Sequences of changes to the index, and the same changes on a map from references to entries.\<close>

datatype index_op = Tag string IndexEntry | Untag string | Attach IndexEntry

fun apply_op :: "index_op \<Rightarrow> layout \<Rightarrow> layout" where
  "apply_op (Tag r e) L = upsert_ref r e L"
| "apply_op (Untag r) L = snd (remove_ref r L)"
| "apply_op (Attach e) L = upsert_untagged e L"

fun abs_op :: "index_op \<Rightarrow> (string \<rightharpoonup> IndexEntry) \<Rightarrow> (string \<rightharpoonup> IndexEntry)" where
  "abs_op (Tag r e) m = m(r \<mapsto> tagged r e)"
| "abs_op (Untag r) m = m(r := None)"
| "abs_op (Attach e) m = m"

fun attaches_untagged :: "index_op \<Rightarrow> bool" where
  "attaches_untagged (Attach e) \<longleftrightarrow> ref_name_of e = None"
| "attaches_untagged _ \<longleftrightarrow> True"

lemma lookup_untagged:
  "ref_name_of e = None \<Longrightarrow> lookup_ref (upsert_untagged e L) = lookup_ref L"
proof (rule ext)
  fix r
  assume "ref_name_of e = None"
  moreover have "find (\<lambda>x. ref_name_of x = Some r)
      (filter (\<lambda>x. \<not> (ref_name_of x = None \<and> ne_digest x = ne_digest e)) xs) =
      find (\<lambda>x. ref_name_of x = Some r) xs" for xs
    by (induction xs) auto
  ultimately show "lookup_ref (upsert_untagged e L) r = lookup_ref L r"
    by (simp add: lookup_ref_def upsert_untagged_def find_append split: option.split)
qed

lemma apply_op_refines:
  "attaches_untagged op \<Longrightarrow> lookup_ref (apply_op op L) = abs_op op (lookup_ref L)"
  by (cases op) (simp_all add: tag_index.lookup_upsert tag_index.lookup_remove lookup_untagged)

text \<open>Each reference names at most one entry.\<close>

definition unique_refs :: "layout \<Rightarrow> bool" where
  "unique_refs L \<longleftrightarrow> distinct (List.map_filter ref_name_of (ly_index L))"

lemma mem_map_filter: "x \<in> set (List.map_filter f xs) \<longleftrightarrow> (\<exists>y\<in>set xs. f y = Some x)"
  by (force simp: List.map_filter_def)

lemma map_filter_append: "List.map_filter f (xs @ ys) = List.map_filter f xs @ List.map_filter f ys"
  by (simp add: List.map_filter_def)

lemma distinct_map_filter:
  "distinct (List.map_filter f xs) \<Longrightarrow> distinct (List.map_filter f (filter P xs))"
  by (induction xs) (auto simp: mem_map_filter split: option.splits)

lemma unique_refs_op: "attaches_untagged op \<Longrightarrow> unique_refs L \<Longrightarrow> unique_refs (apply_op op L)"
proof (cases op)
  case (Tag r e)
  have "r \<notin> set (List.map_filter ref_name_of (filter (\<lambda>e. ref_name_of e \<noteq> Some r) (ly_index L)))"
    by (auto simp: mem_map_filter)
  then show "unique_refs L \<Longrightarrow> unique_refs (apply_op op L)"
    using Tag by (simp add: unique_refs_def upsert_ref_def map_filter_append distinct_map_filter)
next
  case (Untag r)
  then show "unique_refs L \<Longrightarrow> unique_refs (apply_op op L)"
    by (simp add: unique_refs_def remove_ref_def Let_def distinct_map_filter)
next
  case (Attach e)
  then show "attaches_untagged op \<Longrightarrow> unique_refs L \<Longrightarrow> unique_refs (apply_op op L)"
    by (simp add: unique_refs_def upsert_untagged_def map_filter_append distinct_map_filter)
qed

lemma list_refs_names: "map fst (list_refs L) = List.map_filter ref_name_of (ly_index L)"
proof -
  have "map fst (List.map_filter (\<lambda>e. map_option (\<lambda>n. (n, e)) (ref_name_of e)) xs) = List.map_filter ref_name_of xs" for xs
    by (induction xs) (auto simp: split: option.split)
  then show ?thesis by (simp add: list_refs_def)
qed

lemma list_refs_map: "map_of (list_refs L) = lookup_ref L"
proof -
  have "map_of (List.map_filter (\<lambda>e. map_option (\<lambda>n. (n, e)) (ref_name_of e)) xs) r =
      find (\<lambda>e. ref_name_of e = Some r) xs" for xs r
    by (induction xs) (auto simp: split: option.split)
  then show ?thesis by (auto simp: list_refs_def lookup_ref_def)
qed

text \<open>
  C28: The tag index behaves as a map from references to entries under every sequence of tagging, untagging
  and attaching an untagged manifest: looking a reference up gives the entry it was last tagged with,
  \<open>list_refs\<close> lists exactly that map and no reference twice.
\<close>

theorem tags_refine_map:
  assumes "list_all attaches_untagged ops"
  shows "lookup_ref (fold apply_op ops layout_init) = fold abs_op ops Map.empty \<and>
     map_of (list_refs (fold apply_op ops layout_init)) = fold abs_op ops Map.empty \<and>
     distinct (map fst (list_refs (fold apply_op ops layout_init)))"
proof -
  have "lookup_ref (fold apply_op ops L) = fold abs_op ops (lookup_ref L) \<and>
      (unique_refs L \<longrightarrow> unique_refs (fold apply_op ops L))" for L
    using assms by (induction ops arbitrary: L) (simp_all add: apply_op_refines unique_refs_op)
  moreover have "lookup_ref layout_init = Map.empty" and "unique_refs layout_init"
    by (auto simp: lookup_ref_def layout_init_def unique_refs_def)
  ultimately show ?thesis
    by (simp add: list_refs_map list_refs_names unique_refs_def)
qed

theorem tags_refine_map_witness:
  "lookup_ref (fold apply_op
       [Tag ''app:1'' \<lparr> ne_media_type = ''m'', ne_digest = ''sha256:aa'', ne_size = 1, ne_annotations = None \<rparr>,
        Attach \<lparr> ne_media_type = ''m'', ne_digest = ''sha256:bb'', ne_size = 1, ne_annotations = None \<rparr>,
        Tag ''app:2'' \<lparr> ne_media_type = ''m'', ne_digest = ''sha256:cc'', ne_size = 1, ne_annotations = None \<rparr>,
        Untag ''app:2''] layout_init) =
     [''app:1'' \<mapsto> tagged ''app:1''
        \<lparr> ne_media_type = ''m'', ne_digest = ''sha256:aa'', ne_size = 1, ne_annotations = None \<rparr>]"
proof -
  let ?ops = "[Tag ''app:1'' \<lparr> ne_media_type = ''m'', ne_digest = ''sha256:aa'', ne_size = 1, ne_annotations = None \<rparr>,
        Attach \<lparr> ne_media_type = ''m'', ne_digest = ''sha256:bb'', ne_size = 1, ne_annotations = None \<rparr>,
        Tag ''app:2'' \<lparr> ne_media_type = ''m'', ne_digest = ''sha256:cc'', ne_size = 1, ne_annotations = None \<rparr>,
        Untag ''app:2'']"
  have "list_all attaches_untagged ?ops" by (simp add: ref_name_of_def)
  then have "lookup_ref (fold apply_op ?ops layout_init) = fold abs_op ?ops Map.empty"
    using tags_refine_map by blast
  then show ?thesis by (auto simp: fun_upd_twist)
qed


section \<open>Paths\<close>

definition plain_name :: "string \<Rightarrow> bool" where
  "plain_name n \<longleftrightarrow> n \<noteq> [] \<and> CHR ''/'' \<notin> set n \<and> n \<noteq> ''.'' \<and> n \<noteq> ''..''"

lemma hex_not_special:
  assumes "list_all is_ascii_hexdigit hex" shows "CHR ''/'' \<notin> set hex \<and> CHR ''.'' \<notin> set hex"
  using assms by (auto simp: list_all_iff ascii_defs byte_def)

lemma plain_hex: "list_all is_ascii_hexdigit hex \<Longrightarrow> hex \<noteq> [] \<Longrightarrow> plain_name hex"
  using hex_not_special [of hex] by (auto simp: plain_name_def)

lemma plain_hex_suffix:
  "list_all is_ascii_hexdigit hex \<Longrightarrow> hex \<noteq> [] \<Longrightarrow> s = ''.erofs'' \<or> s = ''.img'' \<Longrightarrow> plain_name (hex @ s)"
  using hex_not_special [of hex] by (auto simp: plain_name_def append_eq_Cons_conv)

text \<open>
  C30: Whatever string is passed as a digest or as a cache variant, a path of the layout that is handed out
  consists of plain file names below the layout root - none is empty, \<open>.\<close> or \<open>..\<close>, or contains a
  separator - and two different digests never share a blob path.
\<close>

theorem layout_paths_contained:
  "(\<forall>d p. blob_path d = Inr p \<longrightarrow> list_all plain_name p) \<and>
   (\<forall>d p. erofs_cache_path d = Inr p \<longrightarrow> list_all plain_name p) \<and>
   (\<forall>d v p. block_cache_path d v = Inr p \<longrightarrow> list_all plain_name p) \<and>
   (\<forall>d d' p. blob_path d = Inr p \<longrightarrow> blob_path d' = Inr p \<longrightarrow> d = d')"
  by (auto simp: blob_path_def erofs_cache_path_def block_cache_path_def split_digest_Inr
      plain_hex plain_hex_suffix split: sum.splits if_splits)
     (simp_all add: plain_name_def SHA256_ALGO_def)

theorem layout_paths_contained_witness:
  "list_all plain_name [''blobs'', ''sha256'', ''ab12''] \<and> blob_path ''sha256:../x'' = Inl (MalformedDigest (NotAlgoHex ''sha256:../x''))"
proof
  have "blob_path ''sha256:ab12'' = Inr [''blobs'', ''sha256'', ''ab12'']" by code_simp
  then show "list_all plain_name [''blobs'', ''sha256'', ''ab12'']" using layout_paths_contained by blast
qed code_simp


section \<open>The fallback referrers index\<close>

definition last_with :: "ReferrerDescriptor list \<Rightarrow> string \<Rightarrow> ReferrerDescriptor option" where
  "last_with ds k = find (\<lambda>d. rd_digest d = k) (rev ds)"

lemma last_with_snoc: "last_with (ds @ [d]) k = (if rd_digest d = k then Some d else last_with ds k)"
  by (simp add: last_with_def)

lemma referrers_upsert_distinct:
  "distinct (map rd_digest I) \<Longrightarrow> distinct (map rd_digest (referrers_upsert d I))"
  by (auto simp: referrers_upsert_def distinct_map inj_on_def)

lemma referrers_index_contents:
  "sorted (map rd_digest (fold referrers_upsert ds [])) \<and> distinct (map rd_digest (fold referrers_upsert ds [])) \<and>
   set (fold referrers_upsert ds []) = {d. last_with ds (rd_digest d) = Some d}"
proof (induction ds rule: rev_induct)
  case Nil
  then show ?case by (simp add: last_with_def)
next
  case (snoc d ds)
  let ?I = "fold referrers_upsert ds []"
  have "distinct (map rd_digest (referrers_upsert d ?I))"
    using snoc referrers_upsert_distinct by blast
  moreover have "set (referrers_upsert d ?I) = insert d {x \<in> set ?I. rd_digest x \<noteq> rd_digest d}"
    by (auto simp: referrers_upsert_def)
  moreover have "sorted (map rd_digest (referrers_upsert d ?I))"
    by (simp add: referrers_upsert_def)
  ultimately show ?case using snoc by (auto simp: last_with_snoc)
qed

text \<open>
  The fallback referrers index is a function of the set of referrers alone: two orders of recording the
  same final descriptors give the same index.  It is sorted by digest, lists no digest twice, and lists for
  every digest the descriptor recorded last.
\<close>

theorem referrers_index_canonical:
  assumes "last_with ds = last_with es"
  shows "fold referrers_upsert ds [] = fold referrers_upsert es [] \<and>
     sorted (map rd_digest (fold referrers_upsert ds [])) \<and>
     distinct (map rd_digest (fold referrers_upsert ds [])) \<and>
     set (fold referrers_upsert ds []) = {d. last_with ds (rd_digest d) = Some d}"
proof -
  have "set (fold referrers_upsert ds []) = set (fold referrers_upsert es [])"
    using referrers_index_contents [of ds] referrers_index_contents [of es] assms by simp
  moreover have "inj_on rd_digest (set (fold referrers_upsert ds []))"
    using referrers_index_contents [of ds] distinct_map by blast
  ultimately have "fold referrers_upsert ds [] = fold referrers_upsert es []"
    using referrers_index_contents [of ds] referrers_index_contents [of es]
    by (intro map_sorted_distinct_set_unique [of rd_digest]) auto
  then show ?thesis using referrers_index_contents [of ds] by simp
qed

definition example_referrer :: "string \<Rightarrow> ReferrerDescriptor" where
  "example_referrer d =
     \<lparr> rd_media_type = ''m'', rd_digest = d, rd_size = 1, rd_artifact_type = Some ''sig'', rd_annotations = None \<rparr>"

theorem referrers_index_canonical_witness:
  "fold referrers_upsert [example_referrer ''b'', example_referrer ''a'', example_referrer ''b''] [] =
   fold referrers_upsert [example_referrer ''a'', example_referrer ''b''] [] \<and>
   map rd_digest (fold referrers_upsert [example_referrer ''b'', example_referrer ''a''] []) = [''a'', ''b'']"
proof
  have "last_with [example_referrer ''b'', example_referrer ''a'', example_referrer ''b''] =
      last_with [example_referrer ''a'', example_referrer ''b'']"
    by (auto simp: last_with_def example_referrer_def)
  then show "fold referrers_upsert [example_referrer ''b'', example_referrer ''a'', example_referrer ''b''] [] =
   fold referrers_upsert [example_referrer ''a'', example_referrer ''b''] []"
    using referrers_index_canonical by blast
  show "map rd_digest (fold referrers_upsert [example_referrer ''b'', example_referrer ''a''] []) = [''a'', ''b'']"
    by (simp add: referrers_upsert_def example_referrer_def less_char_def less_eq_char_def)
qed


section \<open>Candidates\<close>

text \<open>A reference that names its registry is never redirected; every other one ends with itself.\<close>

lemma resolution_candidates_qualified: "is_qualified r \<Longrightarrow> resolution_candidates r search = [r]"
  by (simp add: resolution_candidates_def)

lemma resolution_candidates_last: "last (resolution_candidates r search) = r"
  by (simp add: resolution_candidates_def)

lemma add_registry_distinct: "distinct search \<Longrightarrow> distinct (snd (add_registry r search))"
  by (simp add: add_registry_def Let_def)

lemma add_then_remove:
  "fst (add_registry r search) \<Longrightarrow> remove_registry r (snd (add_registry r search)) = (True, search)"
proof -
  assume "fst (add_registry r search)"
  then have new: "registry_host r \<notin> set search" "snd (add_registry r search) = search @ [registry_host r]"
    by (auto simp: add_registry_def Let_def split: if_splits)
  then have "filter (\<lambda>x. x \<noteq> registry_host r) search = search" by (auto simp: filter_id_conv)
  then show ?thesis using new by (simp add: remove_registry_def)
qed

lemma fallback_tag_length: "fallback_tag d = Inr tag \<Longrightarrow> length tag \<le> 127 \<and> CHR '':'' \<notin> set tag"
  by (auto simp: fallback_tag_def Let_def MAX_TAG_LEN_def split: if_splits dest: in_set_takeD)

end
