(* ===== verification/Images.thy ===== *)
theory Images
  imports Layout_Refs Platform "HOL-Library.Product_Lexorder" "HOL-Library.Multiset"
begin

text \<open>
  Emitting images, indexes and artifacts into a layout, \<open>crates/umf-oci/src/image/\<close>.  The JSON encoders,
  the tar builder and the compressors are library code: \<open>encoder\<close> holds the encoders, and the packer of a
  directory is the parameter \<open>tar\<close> and \<open>compress\<close> of \<open>from_directory_with\<close>.
\<close>

section \<open>Data\<close>

datatype LayerCompression = Gzip | Zstd

definition IMAGE_LAYER_GZIP_MEDIA_TYPE :: string where
  "IMAGE_LAYER_GZIP_MEDIA_TYPE = ''application/vnd.oci.image.layer.v1.tar+gzip''"

definition IMAGE_LAYER_ZSTD_MEDIA_TYPE :: string where
  "IMAGE_LAYER_ZSTD_MEDIA_TYPE = ''application/vnd.oci.image.layer.v1.tar+zstd''"

definition IMAGE_CONFIG_MEDIA_TYPE :: string where
  "IMAGE_CONFIG_MEDIA_TYPE = ''application/vnd.oci.image.config.v1+json''"

definition OCI_IMAGE_INDEX_MEDIA_TYPE :: string where
  "OCI_IMAGE_INDEX_MEDIA_TYPE = ''application/vnd.oci.image.index.v1+json''"

fun media_type :: "LayerCompression \<Rightarrow> string" where
  "media_type Gzip = IMAGE_LAYER_GZIP_MEDIA_TYPE"
| "media_type Zstd = IMAGE_LAYER_ZSTD_MEDIA_TYPE"

record LayerSource =
  ls_data :: string
  ls_media_type :: string
  ls_diff_id :: string

definition from_directory_with ::
  "codec \<Rightarrow> ('dir \<Rightarrow> string) \<Rightarrow> (LayerCompression \<Rightarrow> string \<Rightarrow> string) \<Rightarrow> 'dir \<Rightarrow> LayerCompression \<Rightarrow> LayerSource" where
  "from_directory_with C tar compress root compression =
     \<lparr> ls_data = compress compression (tar root), ls_media_type = media_type compression,
       ls_diff_id = sha256_digest C (tar root) \<rparr>"

definition is_oci_layer_media_type :: "string \<Rightarrow> bool" where
  "is_oci_layer_media_type m \<longleftrightarrow>
     m \<in> {''application/vnd.oci.image.layer.v1.tar'', ''application/vnd.oci.image.layer.v1.tar+gzip'',
          ''application/vnd.oci.image.layer.v1.tar+zstd'', ''application/vnd.docker.image.rootfs.diff.tar.gzip''}"

text \<open>\<open>decode\<close> is the tar stream behind a compressed layer, when it can be decoded.\<close>

definition normalized ::
  "codec \<Rightarrow> (string \<Rightarrow> string option) \<Rightarrow> (LayerCompression \<Rightarrow> string \<Rightarrow> string) \<Rightarrow> LayerCompression \<Rightarrow>
     LayerSource \<Rightarrow> RegistryError + LayerSource" where
  "normalized C decode compress compression l =
     (if is_oci_layer_media_type (ls_media_type l) then Inr l
      else case decode (ls_data l) of
             None \<Rightarrow> Inl (InvalidLayout (''normalising layer '' @ ls_diff_id l))
           | Some tar_bytes \<Rightarrow>
               Inr \<lparr> ls_data = compress compression tar_bytes, ls_media_type = media_type compression,
                     ls_diff_id = sha256_digest C tar_bytes \<rparr>)"

record HistoryEntry =
  he_created :: "string option"
  he_created_by :: "string option"
  he_author :: "string option"
  he_comment :: "string option"
  he_empty_layer :: bool

record ContainerConfig =
  cc_user :: "string option"
  cc_env :: "string list"
  cc_entrypoint :: "string list option"
  cc_cmd :: "string list option"
  cc_working_dir :: "string option"
  cc_exposed_ports :: "string list"
  cc_volumes :: "string list"
  cc_stop_signal :: "string option"
  cc_labels :: "string \<rightharpoonup> string"

definition ContainerConfig_default :: ContainerConfig where
  "ContainerConfig_default =
     \<lparr> cc_user = None, cc_env = [], cc_entrypoint = None, cc_cmd = None, cc_working_dir = None,
       cc_exposed_ports = [], cc_volumes = [], cc_stop_signal = None, cc_labels = Map.empty \<rparr>"

record ImageConfig =
  ic_architecture :: string
  ic_os :: string
  ic_created :: "string option"
  ic_author :: "string option"
  ic_container :: ContainerConfig
  ic_history :: "HistoryEntry list"
  ic_umf_type :: L0Kind
  ic_umf_spec :: "string option"

definition ImageConfig_default :: ImageConfig where
  "ImageConfig_default =
     \<lparr> ic_architecture = ''amd64'', ic_os = ''linux'', ic_created = None, ic_author = None,
       ic_container = ContainerConfig_default, ic_history = [], ic_umf_type = L0Container, ic_umf_spec = None \<rparr>"

text \<open>The serialised documents (\<open>image/serde.rs\<close> and the manifest types of the client library).\<close>

record SerializedHistoryEntry =
  sh_created :: "string option"
  sh_created_by :: "string option"
  sh_author :: "string option"
  sh_comment :: "string option"
  sh_empty_layer :: "bool option"

record OciImageConfigDoc =
  dc_architecture :: string
  dc_os :: string
  dc_created :: "string option"
  dc_author :: "string option"
  dc_user :: "string option"
  dc_env :: "string list"
  dc_entrypoint :: "string list option"
  dc_cmd :: "string list option"
  dc_working_dir :: "string option"
  dc_exposed_ports :: "string set"
  dc_volumes :: "string set"
  dc_stop_signal :: "string option"
  dc_labels :: "string \<rightharpoonup> string"
  dc_diff_ids :: "string list"
  dc_history :: "SerializedHistoryEntry list"

record OciDescriptor =
  ds_media_type :: string
  ds_digest :: string
  ds_size :: nat
  ds_annotations :: "(string \<rightharpoonup> string) option"

record ManifestDoc =
  md_config :: OciDescriptor
  md_layers :: "OciDescriptor list"
  md_subject :: "OciDescriptor option"
  md_artifact_type :: "string option"
  md_annotations :: "(string \<rightharpoonup> string) option"

record PlatformDoc =
  pd_os :: string
  pd_architecture :: string
  pd_variant :: "string option"

record IndexDocEntry =
  xe_digest :: string
  xe_size :: nat
  xe_platform :: "PlatformDoc option"

record encoder =
  en_config :: "OciImageConfigDoc \<Rightarrow> string"
  en_manifest :: "ManifestDoc \<Rightarrow> string"
  en_index :: "IndexDocEntry list \<Rightarrow> string"

definition manifest_view :: "ManifestDoc \<Rightarrow> OciImageManifest" where
  "manifest_view md =
     \<lparr> im_config = ds_digest (md_config md), im_layers = map ds_digest (md_layers md),
       im_subject = map_option ds_digest (md_subject md), im_artifact_type = md_artifact_type md,
       im_annotations = md_annotations md \<rparr>"


section \<open>Images\<close>

fun write_layers :: "codec \<Rightarrow> LayerSource list \<Rightarrow> layout \<Rightarrow> RegistryError + OciDescriptor list \<times> layout" where
  "write_layers C [] L = Inr ([], L)"
| "write_layers C (layer # layers) L =
     (let blob_digest = sha256_digest C (ls_data layer)
      in case write_blob_with_digest C (ls_data layer) blob_digest L of
           Inl e \<Rightarrow> Inl e
         | Inr L' \<Rightarrow>
             (case write_layers C layers L' of
                Inl e \<Rightarrow> Inl e
              | Inr (ds, L'') \<Rightarrow>
                  Inr (\<lparr> ds_media_type = ls_media_type layer, ds_digest = blob_digest,
                         ds_size = length (ls_data layer), ds_annotations = None \<rparr> # ds, L'')))"

definition final_labels :: "ImageConfig \<Rightarrow> (string \<rightharpoonup> string)" where
  "final_labels config =
     (cc_labels (ic_container config))
       (LABEL_TYPE \<mapsto> L0Kind_show (ic_umf_type config),
        SPEC_VERSION \<mapsto> (case ic_umf_spec config of Some v \<Rightarrow> v | None \<Rightarrow> CURRENT_SPEC_VERSION))"

definition serialized_history :: "HistoryEntry \<Rightarrow> SerializedHistoryEntry" where
  "serialized_history h =
     \<lparr> sh_created = he_created h, sh_created_by = he_created_by h, sh_author = he_author h,
       sh_comment = he_comment h, sh_empty_layer = (if he_empty_layer h then Some True else None) \<rparr>"

definition config_doc :: "ImageConfig \<Rightarrow> string list \<Rightarrow> OciImageConfigDoc" where
  "config_doc config diff_ids =
     (let c = ic_container config
      in \<lparr> dc_architecture = ic_architecture config, dc_os = ic_os config, dc_created = ic_created config,
           dc_author = ic_author config, dc_user = cc_user c, dc_env = cc_env c,
           dc_entrypoint = cc_entrypoint c, dc_cmd = cc_cmd c, dc_working_dir = cc_working_dir c,
           dc_exposed_ports = set (cc_exposed_ports c), dc_volumes = set (cc_volumes c),
           dc_stop_signal = cc_stop_signal c, dc_labels = final_labels config, dc_diff_ids = diff_ids,
           dc_history = map serialized_history (ic_history config) \<rparr>)"

definition image_manifest :: "codec \<Rightarrow> OciDescriptor list \<Rightarrow> string \<Rightarrow> ManifestDoc" where
  "image_manifest C layers config_bytes =
     \<lparr> md_config = \<lparr> ds_media_type = IMAGE_CONFIG_MEDIA_TYPE, ds_digest = sha256_digest C config_bytes,
                     ds_size = length config_bytes, ds_annotations = None \<rparr>,
       md_layers = layers, md_subject = None, md_artifact_type = None, md_annotations = None \<rparr>"

definition emit_image ::
  "codec \<Rightarrow> encoder \<Rightarrow> LayerSource list \<Rightarrow> ImageConfig \<Rightarrow> string \<Rightarrow> layout \<Rightarrow> RegistryError + IndexEntry \<times> layout" where
  "emit_image C E layers config ref_name L =
     (case write_layers C layers L of
        Inl e \<Rightarrow> Inl e
      | Inr (descriptors, L1) \<Rightarrow>
          (let config_bytes = en_config E (config_doc config (map ls_diff_id layers))
           in case write_blob C config_bytes L1 of
                Inl e \<Rightarrow> Inl e
              | Inr (_, L2) \<Rightarrow>
                  (let manifest_bytes = en_manifest E (image_manifest C descriptors config_bytes);
                       manifest_digest = sha256_digest C manifest_bytes
                   in case write_blob_with_digest C manifest_bytes manifest_digest L2 of
                        Inl e \<Rightarrow> Inl e
                      | Inr L3 \<Rightarrow>
                          (let entry = \<lparr> ne_media_type = OCI_IMAGE_MEDIA_TYPE, ne_digest = manifest_digest,
                                         ne_size = length manifest_bytes, ne_annotations = None \<rparr>
                           in Inr (entry, upsert_ref ref_name entry L3)))))"


section \<open>Indexes\<close>

record IndexChild =
  ch_platform :: PlatformDoc
  ch_manifest_digest :: string

definition platform_for :: "string \<Rightarrow> string \<Rightarrow> PlatformDoc" where
  "platform_for os arch = \<lparr> pd_os = os, pd_architecture = arch, pd_variant = None \<rparr>"

definition platform_sort_key :: "IndexDocEntry \<Rightarrow> string \<times> string \<times> string \<times> string" where
  "platform_sort_key e =
     (case xe_platform e of
        Some p \<Rightarrow> (pd_os p, pd_architecture p, (case pd_variant p of Some v \<Rightarrow> v | None \<Rightarrow> []), xe_digest e)
      | None \<Rightarrow> ([], [], [], xe_digest e))"

fun index_entries :: "codec \<Rightarrow> layout \<Rightarrow> IndexChild list \<Rightarrow> RegistryError + IndexDocEntry list" where
  "index_entries C L [] = Inr []"
| "index_entries C L (child # children) =
     (case read_blob C L (ch_manifest_digest child) of
        Inl e \<Rightarrow> Inl e
      | Inr bytes \<Rightarrow>
          (case index_entries C L children of
             Inl e \<Rightarrow> Inl e
           | Inr es \<Rightarrow> Inr (\<lparr> xe_digest = ch_manifest_digest child, xe_size = length bytes,
                             xe_platform = Some (ch_platform child) \<rparr> # es)))"

definition emit_index ::
  "codec \<Rightarrow> encoder \<Rightarrow> IndexChild list \<Rightarrow> string \<Rightarrow> layout \<Rightarrow> RegistryError + IndexEntry \<times> layout" where
  "emit_index C E children ref_name L =
     (if children = [] then Inl (InvalidLayout ''cannot emit an image index with no child manifests'')
      else case index_entries C L children of
             Inl e \<Rightarrow> Inl e
           | Inr entries \<Rightarrow>
               (let index_bytes = en_index E (sort_key platform_sort_key entries);
                    index_digest = sha256_digest C index_bytes
                in case write_blob_with_digest C index_bytes index_digest L of
                     Inl e \<Rightarrow> Inl e
                   | Inr L' \<Rightarrow>
                       (let entry = \<lparr> ne_media_type = OCI_IMAGE_INDEX_MEDIA_TYPE, ne_digest = index_digest,
                                      ne_size = length index_bytes, ne_annotations = None \<rparr>
                        in Inr (entry, upsert_ref ref_name entry L'))))"

text \<open>An entry matches when its operating system and architecture do; an entry without a variant wins.\<close>

definition doc_matches :: "string \<Rightarrow> IndexDocEntry \<Rightarrow> bool" where
  "doc_matches arch e =
     (case xe_platform e of None \<Rightarrow> False | Some p \<Rightarrow> pd_os p = ''linux'' \<and> pd_architecture p = arch)"

definition no_variant :: "IndexDocEntry \<Rightarrow> bool" where
  "no_variant e =
     (case xe_platform e of None \<Rightarrow> False
      | Some p \<Rightarrow> (case pd_variant p of None \<Rightarrow> True | Some v \<Rightarrow> v = []))"

definition select_manifest_for_arch :: "IndexDocEntry list \<Rightarrow> string \<Rightarrow> IndexDocEntry option" where
  "select_manifest_for_arch manifests arch =
     (case find (\<lambda>m. doc_matches arch m \<and> no_variant m) manifests of
        Some m \<Rightarrow> Some m
      | None \<Rightarrow> find (doc_matches arch) manifests)"


section \<open>Artifacts\<close>

definition EMPTY_JSON_MEDIA_TYPE :: string where
  "EMPTY_JSON_MEDIA_TYPE = ''application/vnd.oci.empty.v1+json''"

definition EMPTY_JSON_BLOB :: string where
  "EMPTY_JSON_BLOB = ''{}''"

record ArtifactBlob =
  ab_media_type :: string
  ab_data :: string
  ab_annotations :: "(string \<rightharpoonup> string) option"

definition subject_from_entry :: "IndexEntry \<Rightarrow> OciDescriptor" where
  "subject_from_entry e =
     \<lparr> ds_media_type = ne_media_type e, ds_digest = ne_digest e, ds_size = ne_size e, ds_annotations = None \<rparr>"

definition validate_media_type :: "string \<Rightarrow> bool" where
  "validate_media_type m \<longleftrightarrow>
     (case split_once (CHR ''/'') m of
        None \<Rightarrow> False
      | Some (t, s) \<Rightarrow> t \<noteq> [] \<and> s \<noteq> [] \<and> CHR ''/'' \<notin> set s) \<and>
     list_all (\<lambda>c. 33 \<le> byte c \<and> byte c \<le> 126) m"

definition empty_json_descriptor :: "codec \<Rightarrow> layout \<Rightarrow> RegistryError + OciDescriptor \<times> layout" where
  "empty_json_descriptor C L =
     (let digest = sha256_digest C EMPTY_JSON_BLOB
      in case write_blob_with_digest C EMPTY_JSON_BLOB digest L of
           Inl e \<Rightarrow> Inl e
         | Inr L' \<Rightarrow> Inr (\<lparr> ds_media_type = EMPTY_JSON_MEDIA_TYPE, ds_digest = digest,
                           ds_size = length EMPTY_JSON_BLOB, ds_annotations = None \<rparr>, L'))"

fun write_artifact_blobs :: "codec \<Rightarrow> ArtifactBlob list \<Rightarrow> layout \<Rightarrow> RegistryError + OciDescriptor list \<times> layout" where
  "write_artifact_blobs C [] L = Inr ([], L)"
| "write_artifact_blobs C (blob # blobs) L =
     (let digest = sha256_digest C (ab_data blob)
      in case write_blob_with_digest C (ab_data blob) digest L of
           Inl e \<Rightarrow> Inl e
         | Inr L' \<Rightarrow>
             (case write_artifact_blobs C blobs L' of
                Inl e \<Rightarrow> Inl e
              | Inr (ds, L'') \<Rightarrow>
                  Inr (\<lparr> ds_media_type = ab_media_type blob, ds_digest = digest, ds_size = length (ab_data blob),
                         ds_annotations = ab_annotations blob \<rparr> # ds, L'')))"

definition emit_artifact_manifest ::
  "codec \<Rightarrow> encoder \<Rightarrow> string \<Rightarrow> OciDescriptor option \<Rightarrow> ArtifactBlob list \<Rightarrow> (string \<rightharpoonup> string) option \<Rightarrow>
     string option \<Rightarrow> layout \<Rightarrow> RegistryError + IndexEntry \<times> layout" where
  "emit_artifact_manifest C E artifact_type subject blobs annotations ref_name L =
     (case find (\<lambda>m. \<not> validate_media_type m) (artifact_type # map ab_media_type blobs) of
        Some m \<Rightarrow> Inl (InvalidMediaType m)
      | None \<Rightarrow>
          (case empty_json_descriptor C L of
             Inl e \<Rightarrow> Inl e
           | Inr (empty_desc, L1) \<Rightarrow>
               (case (if blobs = [] then Inr ([empty_desc], L1) else write_artifact_blobs C blobs L1) of
                  Inl e \<Rightarrow> Inl e
                | Inr (layers, L2) \<Rightarrow>
                    (let manifest_bytes =
                           en_manifest E \<lparr> md_config = empty_desc, md_layers = layers, md_subject = subject,
                                           md_artifact_type = Some artifact_type, md_annotations = annotations \<rparr>;
                         manifest_digest = sha256_digest C manifest_bytes
                     in case write_blob_with_digest C manifest_bytes manifest_digest L2 of
                          Inl e \<Rightarrow> Inl e
                        | Inr L3 \<Rightarrow>
                            (let entry = \<lparr> ne_media_type = OCI_IMAGE_MEDIA_TYPE, ne_digest = manifest_digest,
                                           ne_size = length manifest_bytes, ne_annotations = None \<rparr>
                             in Inr (entry, case ref_name of
                                              Some name \<Rightarrow> upsert_ref name entry L3
                                            | None \<Rightarrow> upsert_untagged entry L3))))))"


section \<open>What was emitted can be read\<close>

definition add_blob :: "codec \<Rightarrow> string \<Rightarrow> layout \<Rightarrow> layout" where
  "add_blob C bytes L =
     (if map_of (ly_blobs L) (cd_sha256 C bytes) \<noteq> None then L
      else L \<lparr> ly_blobs := (cd_sha256 C bytes, bytes) # ly_blobs L \<rparr>)"

definition stored :: "codec \<Rightarrow> layout \<Rightarrow> string \<Rightarrow> bool" where
  "stored C L bytes \<longleftrightarrow> read_blob C L (sha256_digest C bytes) = Inr bytes"

text \<open>The digest of the codec is hexadecimal and has no collisions.\<close>

definition codec_ideal :: "codec \<Rightarrow> bool" where
  "codec_ideal C \<longleftrightarrow> codec_hex C \<and> inj (cd_sha256 C)"

lemma write_blob_with_digest_add:
  "codec_ideal C \<Longrightarrow> write_blob_with_digest C bytes (sha256_digest C bytes) L = Inr (add_blob C bytes L)"
  by (simp add: write_blob_with_digest_def sha256_digest_split codec_ideal_def add_blob_def)

lemma write_blob_add: "codec_ideal C \<Longrightarrow> write_blob C bytes L = Inr (sha256_digest C bytes, add_blob C bytes L)"
  by (simp add: write_blob_def write_blob_with_digest_add Let_def)

lemma stored_iff:
  "codec_ideal C \<Longrightarrow> layout_ok C L \<Longrightarrow> stored C L bytes \<longleftrightarrow> map_of (ly_blobs L) (cd_sha256 C bytes) = Some bytes"
  by (auto simp: stored_def read_blob_digest codec_ideal_def inj_def split: option.splits if_splits)

lemma layout_ok_add [simp]: "layout_ok C L \<Longrightarrow> layout_ok C (add_blob C bytes L)"
  by (simp add: add_blob_def layout_ok_def)

lemma add_blob_index [simp]: "ly_index (add_blob C bytes L) = ly_index L"
  by (simp add: add_blob_def)

lemma stored_add:
  assumes "codec_ideal C" and "layout_ok C L"
  shows "stored C (add_blob C bytes L) bytes" and "stored C L b \<Longrightarrow> stored C (add_blob C bytes L) b"
proof -
  have "map_of (ly_blobs (add_blob C bytes L)) (cd_sha256 C bytes) = Some bytes"
  proof (cases "map_of (ly_blobs L) (cd_sha256 C bytes)")
    case (Some b)
    then have "b = bytes"
      using layout_ok_lookup [OF assms(2) Some] assms(1) by (simp add: codec_ideal_def inj_eq)
    then show ?thesis using Some by (simp add: add_blob_def)
  qed (simp add: add_blob_def)
  then show "stored C (add_blob C bytes L) bytes" using assms by (simp add: stored_iff)
  show "stored C L b \<Longrightarrow> stored C (add_blob C bytes L) b"
    using assms by (auto simp: stored_iff) (auto simp: add_blob_def)
qed

lemma upsert_ref_blobs [simp]: "ly_blobs (upsert_ref r e L) = ly_blobs L"
  by (simp add: upsert_ref_def)

lemma read_blob_upsert_ref [simp]: "read_blob C (upsert_ref r e L) d = read_blob C L d"
  by (rule read_blob_kept) simp

lemma stored_upsert_ref [simp]: "stored C (upsert_ref r e L) b = stored C L b"
  by (simp add: stored_def)

definition layer_descriptor :: "codec \<Rightarrow> LayerSource \<Rightarrow> OciDescriptor" where
  "layer_descriptor C l =
     \<lparr> ds_media_type = ls_media_type l, ds_digest = sha256_digest C (ls_data l), ds_size = length (ls_data l),
       ds_annotations = None \<rparr>"

lemma write_layers_all:
  assumes "codec_ideal C" and "layout_ok C L"
  shows "\<exists>L'. write_layers C layers L = Inr (map (layer_descriptor C) layers, L') \<and> layout_ok C L' \<and>
     ly_index L' = ly_index L \<and> (\<forall>b. stored C L b \<longrightarrow> stored C L' b) \<and>
     (\<forall>l\<in>set layers. stored C L' (ls_data l))"
  using assms(2)
proof (induction layers arbitrary: L)
  case (Cons l layers)
  obtain L' where "write_layers C layers (add_blob C (ls_data l) L) = Inr (map (layer_descriptor C) layers, L')"
      "layout_ok C L'" "ly_index L' = ly_index L"
      "\<forall>b. stored C (add_blob C (ls_data l) L) b \<longrightarrow> stored C L' b" "\<forall>l\<in>set layers. stored C L' (ls_data l)"
    using Cons.IH [OF layout_ok_add [OF Cons.prems, of "ls_data l"]] by auto
  then show ?case
    using stored_add [OF assms(1) Cons.prems] assms(1)
    by (auto simp: write_blob_with_digest_add layer_descriptor_def Let_def)
qed simp

text \<open>
  C36: An emitted image is complete: emitting never fails, the reference then resolves to the new entry, its
  digest reads a manifest that decodes to the image, whose layers read back - in order - the very data that
  was passed in, and whose config reads back the encoded configuration with one diff id per layer in the
  same order.  Blobs stored before and all other references are untouched.  The decoder is assumed to read
  back the manifest the encoder wrote, and the digest to have no collisions.
\<close>

theorem emit_image_complete:
  assumes ideal: "codec_ideal C" and ok: "layout_ok C L"
    and manifest: "manifest = image_manifest C (map (layer_descriptor C) layers)
                     (en_config E (config_doc config (map ls_diff_id layers)))"
    and decodes: "cd_manifest C (en_manifest E manifest) = Some (ManImage (manifest_view manifest))"
  shows "\<exists>entry L'. emit_image C E layers config ref_name L = Inr (entry, L') \<and> layout_ok C L' \<and>
     lookup_ref L' = (lookup_ref L)(ref_name \<mapsto> tagged ref_name entry) \<and>
     (\<forall>b. stored C L b \<longrightarrow> stored C L' b) \<and>
     (\<exists>bytes m. read_blob C L' (ne_digest entry) = Inr bytes \<and> cd_manifest C bytes = Some (ManImage m) \<and>
        map (read_blob C L') (im_layers m) = map (Inr \<circ> ls_data) layers \<and>
        read_blob C L' (im_config m) = Inr (en_config E (config_doc config (map ls_diff_id layers))) \<and>
        dc_diff_ids (config_doc config (map ls_diff_id layers)) = map ls_diff_id layers)"
proof -
  let ?cfg = "en_config E (config_doc config (map ls_diff_id layers))"
  let ?man = "en_manifest E manifest"
  obtain L1 where L1: "write_layers C layers L = Inr (map (layer_descriptor C) layers, L1)" "layout_ok C L1"
      "ly_index L1 = ly_index L" "\<forall>b. stored C L b \<longrightarrow> stored C L1 b" "\<forall>l\<in>set layers. stored C L1 (ls_data l)"
    using write_layers_all [OF ideal ok] by blast
  let ?L2 = "add_blob C ?cfg L1"
  let ?L3 = "add_blob C ?man ?L2"
  let ?entry = "\<lparr> ne_media_type = OCI_IMAGE_MEDIA_TYPE, ne_digest = sha256_digest C ?man,
                  ne_size = length ?man, ne_annotations = None \<rparr>"
  have emit: "emit_image C E layers config ref_name L = Inr (?entry, upsert_ref ref_name ?entry ?L3)"
    using L1(1) ideal manifest
    by (simp add: emit_image_def write_blob_add write_blob_with_digest_add Let_def)
  have keep: "stored C ?L3 b" if "stored C L1 b" for b
    using stored_add(2) [OF ideal] L1(2) that layout_ok_add by blast
  have cfg: "stored C ?L3 ?cfg" using stored_add [OF ideal] L1(2) layout_ok_add by blast
  have man: "stored C ?L3 ?man" using stored_add(1) [OF ideal] L1(2) layout_ok_add by blast
  have "lookup_ref (upsert_ref ref_name ?entry ?L3) = (lookup_ref L)(ref_name \<mapsto> tagged ref_name ?entry)"
    using L1(3) by (simp add: tag_index.lookup_upsert) (simp add: lookup_ref_def [abs_def])
  moreover have "map (read_blob C (upsert_ref ref_name ?entry ?L3)) (im_layers (manifest_view manifest)) =
      map (Inr \<circ> ls_data) layers"
    using L1(5) keep by (simp add: manifest manifest_view_def image_manifest_def layer_descriptor_def stored_def)
  moreover have "read_blob C (upsert_ref ref_name ?entry ?L3) (im_config (manifest_view manifest)) = Inr ?cfg"
    using cfg by (simp add: manifest manifest_view_def image_manifest_def stored_def)
  moreover have "read_blob C (upsert_ref ref_name ?entry ?L3) (sha256_digest C ?man) = Inr ?man"
    using man by (simp add: stored_def)
  moreover have "layout_ok C (upsert_ref ref_name ?entry ?L3)" using L1(2) by (simp add: layout_ok_def add_blob_def)
  ultimately show ?thesis
    using emit decodes L1(4) keep by (auto simp: config_doc_def Let_def)
qed

text \<open>An injective hexadecimal digest, for the examples.\<close>

fun unary_hex :: "string \<Rightarrow> string" where
  "unary_hex [] = ''c''"
| "unary_hex (x # xs) = replicate (byte x) (CHR ''a'') @ CHR ''b'' # unary_hex xs"

lemma replicate_run: "replicate m a @ b # x = replicate n a @ b # y \<Longrightarrow> a \<noteq> b \<Longrightarrow> m = n \<and> x = y"
proof (induction m arbitrary: n)
  case 0
  then show ?case by (cases n) auto
next
  case (Suc m)
  then show ?case by (cases n) auto
qed

lemma unary_hex_not_c: "unary_hex (x # xs) \<noteq> ''c''"
  by (cases "byte x") auto

lemma unary_hex_inj: "unary_hex xs = unary_hex ys \<Longrightarrow> xs = ys"
proof (induction xs arbitrary: ys)
  case Nil
  then show ?case using unary_hex_not_c by (cases ys) (metis unary_hex.simps(1))+
next
  case (Cons x xs)
  then obtain y ys' where ys: "ys = y # ys'" using unary_hex_not_c by (cases ys) (metis unary_hex.simps(1))+
  from Cons.prems have "byte x = byte y \<and> unary_hex xs = unary_hex ys'"
    unfolding ys unary_hex.simps by (rule replicate_run) simp
  then show ?case using Cons.IH ys by auto
qed

lemma unary_hex_hex: "unary_hex xs \<noteq> [] \<and> list_all is_ascii_hexdigit (unary_hex xs)"
proof (induction xs)
  case (Cons x xs)
  have "is_ascii_hexdigit (CHR ''a'')" "is_ascii_hexdigit (CHR ''b'')" by (simp_all add: ascii_defs byte_def)
  then show ?case using Cons by (auto simp: list_all_iff)
qed (simp add: ascii_defs byte_def)

definition unary_codec :: codec where
  "unary_codec =
     \<lparr> cd_sha256 = unary_hex,
       cd_manifest = (\<lambda>_. Some (ManImage \<lparr> im_config = ''sha256:'' @ unary_hex ''C'', im_layers = [''sha256:'' @ unary_hex ''x''],
                                           im_subject = None, im_artifact_type = None, im_annotations = None \<rparr>)),
       cd_image = Map.empty, cd_diff_ids = Map.empty \<rparr>"

lemma unary_codec_ideal: "codec_ideal unary_codec"
  using unary_hex_hex unary_hex_inj by (simp add: codec_ideal_def codec_hex_def unary_codec_def inj_def)

definition example_encoder :: encoder where
  "example_encoder = \<lparr> en_config = (\<lambda>_. ''C''), en_manifest = (\<lambda>_. ''M''), en_index = (\<lambda>_. ''I'') \<rparr>"

theorem emit_image_complete_witness:
  "\<exists>entry L'. emit_image unary_codec example_encoder
       [\<lparr> ls_data = ''x'', ls_media_type = media_type Gzip, ls_diff_id = ''d'' \<rparr>] ImageConfig_default ''app'' layout_init =
       Inr (entry, L') \<and> lookup_ref L' ''app'' = Some (tagged ''app'' entry)"
proof -
  let ?layers = "[\<lparr> ls_data = ''x'', ls_media_type = media_type Gzip, ls_diff_id = ''d'' \<rparr>]"
  let ?m = "image_manifest unary_codec (map (layer_descriptor unary_codec) ?layers)
              (en_config example_encoder (config_doc ImageConfig_default (map ls_diff_id ?layers)))"
  have "cd_manifest unary_codec (en_manifest example_encoder ?m) = Some (ManImage (manifest_view ?m))"
    by (simp add: unary_codec_def manifest_view_def image_manifest_def layer_descriptor_def sha256_digest_def
        SHA256_ALGO_def example_encoder_def)
  from emit_image_complete [OF unary_codec_ideal layout_ok_init refl this, of "''app''"] show ?thesis
    by (metis fun_upd_same)
qed


section \<open>Indexes do not depend on the order of their children\<close>

definition index_entry :: "codec \<Rightarrow> layout \<Rightarrow> IndexChild \<Rightarrow> IndexDocEntry" where
  "index_entry C L child =
     \<lparr> xe_digest = ch_manifest_digest child,
       xe_size = (case read_blob C L (ch_manifest_digest child) of Inr bytes \<Rightarrow> length bytes | Inl _ \<Rightarrow> 0),
       xe_platform = Some (ch_platform child) \<rparr>"

lemma index_entries_map:
  "(\<And>c. c \<in> set children \<Longrightarrow> \<exists>bytes. read_blob C L (ch_manifest_digest c) = Inr bytes) \<Longrightarrow>
     index_entries C L children = Inr (map (index_entry C L) children)"
proof (induction children)
  case (Cons c children)
  obtain bytes where "read_blob C L (ch_manifest_digest c) = Inr bytes" using Cons.prems by auto
  then show ?case using Cons by (simp add: index_entry_def)
qed simp

lemma emit_index_order_independent:
  assumes "mset children = mset children'"
    and "\<And>c. c \<in> set children \<Longrightarrow> \<exists>bytes. read_blob C L (ch_manifest_digest c) = Inr bytes"
    and "inj_on platform_sort_key (set (map (index_entry C L) children))"
  shows "emit_index C E children ref_name L = emit_index C E children' ref_name L"
proof -
  have set: "set children = set children'" using assms(1) by (rule mset_eq_setD)
  have "sort_key platform_sort_key (map (index_entry C L) children) =
      sort_key platform_sort_key (map (index_entry C L) children')"
    using assms(1,3) by (intro sort_key_inj_key_eq) auto
  moreover have "index_entries C L children' = Inr (map (index_entry C L) children')"
    using assms(2) set by (intro index_entries_map) auto
  moreover have "children = [] \<longleftrightarrow> children' = []" using set by auto
  ultimately show ?thesis using index_entries_map [OF assms(2)] by (simp add: emit_index_def)
qed

end
