(* ===== verification/Host_Fs.thy ===== *)
theory Host_Fs
  imports Text_Tools "HOL-Library.AList" "HOL-Library.Sublist"
begin

text \<open>
  Directory trees and the file-system helpers of the builder, \<open>crates/umf-builder/src/fsutil.rs\<close> and the
  path helpers of \<open>engine_build/add.rs\<close> and \<open>engine_build/run.rs\<close>.  A tree holds directories, files and
  symbolic links; \<open>get\<close> is \<open>lstat\<close> below a root and never follows a link.  Permission bits and times are
  left out, and an operation fails only where the shape of the tree makes the system call fail.
\<close>

section \<open>Paths\<close>

datatype component = RootDir | CurDir | ParentDir | Normal string

text \<open>\<open>Path::components\<close>: repeated separators and inner \<open>.\<close> vanish, a leading \<open>.\<close> stays.\<close>

definition component_of :: "string \<Rightarrow> component option" where
  "component_of part =
     (if part = [] \<or> part = ''.'' then None else if part = ''..'' then Some ParentDir else Some (Normal part))"

definition components :: "string \<Rightarrow> component list" where
  "components s =
     (let parts = split_on (CHR ''/'') s
      in (if starts_with s ''/'' then [RootDir] else if hd parts = ''.'' then [CurDir] else []) @
         List.map_filter component_of parts)"

definition normals :: "component list \<Rightarrow> string list" where
  "normals cs = List.map_filter (\<lambda>c. case c of Normal n \<Rightarrow> Some n | _ \<Rightarrow> None) cs"

definition has_parent_dir :: "string \<Rightarrow> bool" where
  "has_parent_dir s \<longleftrightarrow> ParentDir \<in> set (components s)"

definition file_name :: "string \<Rightarrow> string option" where
  "file_name s = (case rev (components s) of Normal n # _ \<Rightarrow> Some n | _ \<Rightarrow> None)"


section \<open>Trees\<close>

datatype node = File string | Symlink string | Dir "(string \<times> node) list"

datatype io_error = PermissionDenied | AlreadyExists | NotADirectory | IsADirectory | NotFoundIo | InvalidData

fun get :: "node \<Rightarrow> string list \<Rightarrow> node option" where
  "get n [] = Some n"
| "get (Dir es) (c # cs) = (case map_of es c of None \<Rightarrow> None | Some m \<Rightarrow> get m cs)"
| "get (File _) (c # cs) = None"
| "get (Symlink _) (c # cs) = None"

fun put :: "node \<Rightarrow> string list \<Rightarrow> node \<Rightarrow> node" where
  "put n [] m = m"
| "put (Dir es) (c # cs) m =
     Dir (AList.update c (put (case map_of es c of None \<Rightarrow> Dir [] | Some k \<Rightarrow> k) cs m) es)"
| "put n (c # cs) m = n"

fun del :: "node \<Rightarrow> string list \<Rightarrow> node" where
  "del n [] = n"
| "del (Dir es) [c] = Dir (AList.delete c es)"
| "del (Dir es) (c # cs) =
     (case map_of es c of None \<Rightarrow> Dir es | Some k \<Rightarrow> Dir (AList.update c (del k cs) es))"
| "del n (c # cs) = n"

definition is_dir :: "node option \<Rightarrow> bool" where
  "is_dir n \<longleftrightarrow> (\<exists>es. n = Some (Dir es))"

definition is_symlink :: "node option \<Rightarrow> bool" where
  "is_symlink n \<longleftrightarrow> (\<exists>t. n = Some (Symlink t))"

lemma is_dir_code [code, simp]:
  "is_dir None = False" "is_dir (Some (File b)) = False" "is_dir (Some (Symlink t)) = False"
  "is_dir (Some (Dir es)) = True"
  by (simp_all add: is_dir_def)

lemma is_symlink_code [code, simp]:
  "is_symlink None = False" "is_symlink (Some (File b)) = False" "is_symlink (Some (Symlink t)) = True"
  "is_symlink (Some (Dir es)) = False"
  by (simp_all add: is_symlink_def)

text \<open>Every strict prefix of the path is a directory.\<close>

fun dirs_to :: "node \<Rightarrow> string list \<Rightarrow> bool" where
  "dirs_to n [] = True"
| "dirs_to (Dir es) (c # cs) \<longleftrightarrow> cs = [] \<or> (case map_of es c of None \<Rightarrow> False | Some k \<Rightarrow> dirs_to k cs)"
| "dirs_to n (c # cs) \<longleftrightarrow> False"

text \<open>Names are unique in every directory.\<close>

fun wf_node :: "node \<Rightarrow> bool" where
  "wf_node (Dir es) \<longleftrightarrow> distinct (map fst es) \<and> (\<forall>e\<in>set es. wf_node (snd e))"
| "wf_node _ \<longleftrightarrow> True"

section \<open>The operations of \<open>fsutil.rs\<close>\<close>

definition resolve_workdir :: "string \<Rightarrow> string \<Rightarrow> string" where
  "resolve_workdir current requested =
     (if starts_with requested ''/'' then requested
      else trim_end_matches (CHR ''/'') current @ ''/'' @ requested)"

definition remove_existing_symlink :: "node \<Rightarrow> string list \<Rightarrow> node" where
  "remove_existing_symlink t p = (if is_symlink (get t p) then del t p else t)"

fun write_walk :: "node \<Rightarrow> string list \<Rightarrow> string list \<Rightarrow> io_error + node \<times> string list" where
  "write_walk t cur [] = Inr (t, cur)"
| "write_walk t cur [c] = Inr (remove_existing_symlink t (cur @ [c]), cur @ [c])"
| "write_walk t cur (c # d # cs) =
     (case get t (cur @ [c]) of
        Some (Symlink _) \<Rightarrow> Inl PermissionDenied
      | Some (Dir _) \<Rightarrow> write_walk t (cur @ [c]) (d # cs)
      | Some (File _) \<Rightarrow> Inl AlreadyExists
      | None \<Rightarrow> write_walk (put t (cur @ [c]) (Dir [])) (cur @ [c]) (d # cs))"

definition contained_write_path :: "node \<Rightarrow> string \<Rightarrow> io_error + node \<times> string list" where
  "contained_write_path t rel =
     (let cs = components (trim_start_matches (CHR ''/'') rel)
      in if RootDir \<in> set cs \<or> ParentDir \<in> set cs then Inl PermissionDenied
         else write_walk t [] (normals cs))"

definition entries_of :: "node option \<Rightarrow> (string \<times> node) list" where
  "entries_of n = (case n of Some (Dir es) \<Rightarrow> es | _ \<Rightarrow> [])"

fun copy_entries :: "(string \<times> node) list \<Rightarrow> (string \<times> node) list \<Rightarrow> io_error + (string \<times> node) list" where
  "copy_entries [] ds = Inr ds"
| "copy_entries ((n, Dir es) # rest) ds =
     (if is_symlink (map_of ds n) then Inl PermissionDenied
      else if map_of ds n \<noteq> None \<and> \<not> is_dir (map_of ds n) then Inl AlreadyExists
      else case copy_entries es (entries_of (map_of ds n)) of
             Inl e \<Rightarrow> Inl e
           | Inr sub \<Rightarrow> copy_entries rest (AList.update n (Dir sub) ds))"
| "copy_entries ((n, Symlink target) # rest) ds =
     (let ds' = (if is_symlink (map_of ds n) then AList.delete n ds else ds)
      in if map_of ds' n \<noteq> None then Inl AlreadyExists
         else copy_entries rest (AList.update n (Symlink target) ds'))"
| "copy_entries ((n, File bytes) # rest) ds =
     (let ds' = (if is_symlink (map_of ds n) then AList.delete n ds else ds)
      in if is_dir (map_of ds' n) then Inl IsADirectory
         else copy_entries rest (AList.update n (File bytes) ds'))"

definition copy_dir_recursive :: "node \<Rightarrow> node option \<Rightarrow> io_error + node" where
  "copy_dir_recursive src dst =
     (if is_symlink dst then Inl PermissionDenied
      else if dst \<noteq> None \<and> \<not> is_dir dst then Inl AlreadyExists
      else case src of
             Dir es \<Rightarrow> (case copy_entries es (entries_of dst) of Inl e \<Rightarrow> Inl e | Inr ds \<Rightarrow> Inr (Dir ds))
           | _ \<Rightarrow> Inl NotADirectory)"


section \<open>Destinations and placeholders\<close>

definition compute_add_destination :: "string \<Rightarrow> string option \<Rightarrow> bool \<Rightarrow> string" where
  "compute_add_destination dst src_name src_is_dir =
     (if ends_with dst ''/'' then dst @ (case src_name of Some n \<Rightarrow> n | None \<Rightarrow> ''file'')
      else if src_is_dir then dst @ ''/'' else dst)"

definition path_within_upper :: "string \<Rightarrow> string list" where
  "path_within_upper dst_inside = normals (components (trim_start_matches (CHR ''/'') dst_inside))"

text \<open>
  \<open>create_dir_all\<close> on a path that may climb: a position is a path below the temporary directory that holds
  the upper, or \<open>None\<close> once it has left it; directories made out there are not part of any layer.
\<close>

fun mkdir_steps :: "node \<Rightarrow> string list option \<Rightarrow> component list \<Rightarrow> node" where
  "mkdir_steps t cur [] = t"
| "mkdir_steps t cur (Normal n # cs) =
     (case cur of
        None \<Rightarrow> mkdir_steps t None cs
      | Some p \<Rightarrow>
          mkdir_steps (if get t (p @ [n]) = None then put t (p @ [n]) (Dir []) else t) (Some (p @ [n])) cs)"
| "mkdir_steps t cur (ParentDir # cs) =
     mkdir_steps t (case cur of None \<Rightarrow> None | Some p \<Rightarrow> if p = [] then None else Some (butlast p)) cs"
| "mkdir_steps t cur (_ # cs) = mkdir_steps t cur cs"

fun escapes :: "string list option \<Rightarrow> component list \<Rightarrow> bool" where
  "escapes cur [] = (cur = None)"
| "escapes cur (Normal n # cs) = escapes (map_option (\<lambda>p. p @ [n]) cur) cs"
| "escapes cur (ParentDir # cs) =
     escapes (case cur of None \<Rightarrow> None | Some p \<Rightarrow> if p = [] then None else Some (butlast p)) cs"
| "escapes cur (_ # cs) = escapes cur cs"

definition workdir_upper :: "string \<Rightarrow> node" where
  "workdir_upper resolved =
     (case get (mkdir_steps (Dir [(''upper'', Dir [])]) (Some [''upper''])
                  (components (trim_start_matches (CHR ''/'') resolved))) [''upper''] of
        Some n \<Rightarrow> n | None \<Rightarrow> Dir [])"

text \<open>
  \<open>create_dir_all\<close> below a root: missing directories appear, existing ones stay.  It is used on fresh trees,
  which hold no link.
\<close>

fun mkdir_p :: "node \<Rightarrow> string list \<Rightarrow> io_error + node" where
  "mkdir_p (Dir es) [] = Inr (Dir es)"
| "mkdir_p (Dir es) (c # cs) =
     (case mkdir_p (case map_of es c of None \<Rightarrow> Dir [] | Some k \<Rightarrow> k) cs of
        Inl e \<Rightarrow> Inl e
      | Inr k \<Rightarrow> Inr (Dir (AList.update c k es)))"
| "mkdir_p n cs = Inl NotADirectory"

text \<open>
  \<open>scrub_secret_mountpoints\<close> on the captured upper directory, \<open>None\<close> once the upper itself is removed.  A
  target whose path runs through a link of the upper is resolved by the kernel, possibly outside of it;
  such targets are returned as the second component and leave the upper as it is.
\<close>

fun through_link :: "node \<Rightarrow> string list \<Rightarrow> bool" where
  "through_link (Symlink _) (c # cs) = True"
| "through_link (Dir es) (c # cs) = (case map_of es c of None \<Rightarrow> False | Some k \<Rightarrow> through_link k cs)"
| "through_link n cs = False"

fun prune_empty :: "node \<Rightarrow> string list \<Rightarrow> node" where
  "prune_empty t [] = t"
| "prune_empty t (c # up) =
     (if get t (rev (c # up)) = Some (Dir []) then prune_empty (del t (rev (c # up))) up else t)"

definition scrub_one :: "string \<Rightarrow> node \<Rightarrow> node option" where
  "scrub_one target t =
     (let p = normals (components target)
      in if has_parent_dir target then Some t
         else if p = [] then None
         else case get t p of None \<Rightarrow> Some t | Some _ \<Rightarrow> Some (prune_empty (del t p) (tl (rev p))))"

fun scrub_secret_mountpoints :: "string list \<Rightarrow> node option \<Rightarrow> node option \<times> string list" where
  "scrub_secret_mountpoints [] t = (t, [])"
| "scrub_secret_mountpoints (target # targets) t =
     (case t of
        None \<Rightarrow> (None, [])
      | Some n \<Rightarrow>
          if \<not> has_parent_dir target \<and> through_link n (normals (components target))
          then (case scrub_secret_mountpoints targets t of (r, out) \<Rightarrow> (r, target # out))
          else scrub_secret_mountpoints targets (scrub_one target n))"


section \<open>Laws of trees\<close>

lemma map_of_update [simp]: "map_of (AList.update k v es) = (map_of es)(k \<mapsto> v)"
  by (rule ext) (simp add: update_conv')

lemma map_of_delete [simp]: "map_of (AList.delete k es) = (map_of es)(k := None)"
  by (rule ext) (simp add: delete_conv')

lemma get_put_below: "dirs_to t p \<Longrightarrow> get (put t p m) (p @ r) = get m r"
  by (induction t p m rule: put.induct) (auto split: option.splits)

lemma get_put_same: "dirs_to t p \<Longrightarrow> get (put t p m) p = Some m"
  using get_put_below [of t p m "[]"] by simp

lemma get_put_apart: "\<not> prefix p q \<Longrightarrow> \<not> prefix q p \<Longrightarrow> dirs_to t p \<Longrightarrow> get (put t p m) q = get t q"
proof (induction t p m arbitrary: q rule: put.induct)
  case (2 es c cs m)
  then show ?case by (cases q) (auto split: option.splits)
qed auto

lemma is_dir_put: "dirs_to t p \<Longrightarrow> strict_prefix q p \<Longrightarrow> is_dir (get (put t p m) q)"
proof (induction t p m arbitrary: q rule: put.induct)
  case (2 es c cs m)
  then show ?case by (cases q) (auto split: option.splits)
qed (auto simp: is_dir_def)

lemma dirs_to_prefix: "dirs_to t (p @ q) \<Longrightarrow> dirs_to t p"
  by (induction t p rule: dirs_to.induct) (auto split: option.splits)

lemma dirs_to_append: "dirs_to t p \<Longrightarrow> is_dir (get t p) \<Longrightarrow> dirs_to t (p @ [c])"
  by (induction t p rule: dirs_to.induct) (auto simp: is_dir_def split: option.splits elim: dirs_to.elims)

lemma dirs_to_put: "dirs_to t p \<Longrightarrow> dirs_to (put t p m) p"
  by (induction t p m rule: put.induct) (auto split: option.splits)

lemma get_del_below: "p \<noteq> [] \<Longrightarrow> get (del t p) (p @ r) = None"
  by (induction t p rule: del.induct) (auto split: option.splits)

lemma get_del_apart: "\<not> prefix p q \<Longrightarrow> \<not> prefix q p \<Longrightarrow> get (del t p) q = get t q"
proof (induction t p arbitrary: q rule: del.induct)
  case (2 es c)
  then show ?case by (cases q) auto
next
  case (3 es c d cs)
  then show ?case by (cases q) (auto split: option.splits)
qed auto

lemma dirs_to_del: "dirs_to t p \<Longrightarrow> dirs_to (del t p) p"
  by (induction t p rule: del.induct) (auto split: option.splits)

lemma get_append: "get t (p @ q) = (case get t p of None \<Rightarrow> None | Some n \<Rightarrow> get n q)"
  by (induction t p rule: get.induct) (auto split: option.splits)

lemma get_above_none: "get t p = None \<Longrightarrow> prefix p q \<Longrightarrow> get t q = None"
  by (auto simp: prefix_def get_append)

lemma get_put_new:
  assumes "dirs_to t p" and "get t p = None" and "\<not> prefix q p"
  shows "get (put t p (Dir [])) q = get t q"
proof (cases "prefix p q")
  case True
  then obtain r where "q = p @ r" by (auto simp: prefix_def)
  moreover have "r \<noteq> []" using calculation assms(3) by auto
  ultimately show ?thesis
    using assms(1) get_above_none [OF assms(2) True] by (cases r) (simp_all add: get_put_below)
qed (use assms get_put_apart in auto)

lemma get_remove_symlink:
  assumes "\<not> prefix q p" and "p \<noteq> []"
  shows "get (remove_existing_symlink t p) q = get t q"
proof (cases "is_symlink (get t p) \<and> prefix p q")
  case True
  then obtain r target where "q = p @ r" "get t p = Some (Symlink target)"
    by (auto simp: prefix_def is_symlink_def)
  moreover have "r \<noteq> []" using calculation assms(1) by auto
  ultimately show ?thesis
    using assms(2) get_del_below [of p t r] by (cases r) (simp_all add: remove_existing_symlink_def get_append)
qed (use assms get_del_apart in \<open>auto simp: remove_existing_symlink_def\<close>)

lemma remove_existing_symlink_gone: "p \<noteq> [] \<Longrightarrow> \<not> is_symlink (get (remove_existing_symlink t p) p)"
  using get_del_below [of p t "[]"] by (auto simp: remove_existing_symlink_def)

lemma write_walk_safe:
  "write_walk t cur cs = Inr (t', p) \<Longrightarrow> is_dir (get t cur) \<Longrightarrow> dirs_to t cur \<Longrightarrow>
     p = cur @ cs \<and> dirs_to t' p \<and> (cs \<noteq> [] \<longrightarrow> \<not> is_symlink (get t' p)) \<and>
     (\<forall>q. \<not> prefix q p \<longrightarrow> get t' q = get t q)"
proof (induction t cur cs rule: write_walk.induct)
  case (1 t cur)
  then show ?case by simp
next
  case (2 t cur c)
  then have "dirs_to t (cur @ [c])" and "t' = remove_existing_symlink t (cur @ [c])" and "p = cur @ [c]"
    by (auto simp: dirs_to_append)
  then show ?case
    by (simp add: remove_existing_symlink_gone get_remove_symlink)
       (simp add: remove_existing_symlink_def dirs_to_del)
next
  case (3 t cur c d cs)
  let ?p = "cur @ [c]"
  have dirs: "dirs_to t ?p" using 3 by (simp add: dirs_to_append)
  show ?case
  proof (cases "get t ?p")
    case None
    let ?t = "put t ?p (Dir [])"
    have "get ?t ?p = Some (Dir [])" using dirs by (rule get_put_same)
    then have IH: "p = ?p @ d # cs \<and> dirs_to t' p \<and> \<not> is_symlink (get t' p) \<and>
        (\<forall>q. \<not> prefix q p \<longrightarrow> get t' q = get ?t q)"
      using "3.IH"(1) [OF None] "3.prems"(1) None dirs by (auto simp: dirs_to_put)
    moreover have "get ?t q = get t q" if "\<not> prefix q p" for q
    proof -
      have "\<not> prefix q ?p" using that IH prefix_order.trans [of q ?p p] by (auto simp: prefix_def)
      then show ?thesis by (rule get_put_new [OF dirs None])
    qed
    ultimately show ?thesis by auto
  next
    case (Some n)
    then show ?thesis using 3 dirs by (cases n) auto
  qed
qed

text \<open>
  C9: A destination accepted by \<open>contained_write_path\<close> cannot leave its root: the returned path consists of
  the named components of the request and none is a parent reference, every directory above it is a real
  directory of the resulting tree (never a link), the place itself is no link, and nothing of the tree
  outside the returned path and its ancestors has changed.
\<close>

theorem contained_write_path_safe:
  assumes "contained_write_path (Dir es) rel = Inr (t', p)"
  shows "p = normals (components (trim_start_matches (CHR ''/'') rel)) \<and>
     \<not> has_parent_dir (trim_start_matches (CHR ''/'') rel) \<and> dirs_to t' p \<and>
     (p \<noteq> [] \<longrightarrow> \<not> is_symlink (get t' p)) \<and> (\<forall>q. \<not> prefix q p \<longrightarrow> get t' q = get (Dir es) q)"
  using assms write_walk_safe [of "Dir es" "[]" _ t' p]
  by (auto simp: contained_write_path_def Let_def has_parent_dir_def split: if_splits)

theorem contained_write_path_safe_witness:
  "\<exists>t'. contained_write_path (Dir [(''etc'', Dir [(''motd'', Symlink ''/host'')])]) ''/etc/motd'' = Inr (t', [''etc'', ''motd'']) \<and>
     \<not> is_symlink (get t' [''etc'', ''motd'']) \<and>
     contained_write_path (Dir [(''etc'', Symlink ''/host'')]) ''/etc/motd'' = Inl PermissionDenied \<and>
     contained_write_path (Dir []) ''/etc/../../motd'' = Inl PermissionDenied"
proof -
  have r: "contained_write_path (Dir [(''etc'', Dir [(''motd'', Symlink ''/host'')])]) ''/etc/motd'' =
      Inr (Dir [(''etc'', Dir [])], [''etc'', ''motd''])" by code_simp
  moreover have "contained_write_path (Dir [(''etc'', Symlink ''/host'')]) ''/etc/motd'' = Inl PermissionDenied"
    by code_simp
  moreover have "contained_write_path (Dir []) ''/etc/../../motd'' = Inl PermissionDenied" by code_simp
  ultimately show ?thesis using contained_write_path_safe [OF r] by blast
qed

text \<open>What a copy leaves at a path: the source where it has an entry, the destination elsewhere.\<close>

definition overlaid :: "node option \<Rightarrow> node option \<Rightarrow> node option \<Rightarrow> bool" where
  "overlaid src dst res \<longleftrightarrow>
     (case src of None \<Rightarrow> res = dst | Some (Dir _) \<Rightarrow> is_dir res | Some n \<Rightarrow> res = Some n)"

lemma wf_node_entry: "wf_node (Dir es) \<Longrightarrow> map_of es n = Some k \<Longrightarrow> wf_node k"
  by (auto dest!: map_of_SomeD)

lemma copy_entries_other:
  "copy_entries es ds = Inr ds' \<Longrightarrow> n \<notin> fst ` set es \<Longrightarrow> map_of ds' n = map_of ds n"
  by (induction es ds arbitrary: ds' rule: copy_entries.induct)
     (auto simp: Let_def split: sum.splits if_splits)

lemma copy_entries_entry:
  "copy_entries es ds = Inr ds' \<Longrightarrow> distinct (map fst es) \<Longrightarrow> map_of es n = Some k \<Longrightarrow>
     (case k of
        Dir sub \<Rightarrow> \<exists>sub'. copy_entries sub (entries_of (map_of ds n)) = Inr sub' \<and> map_of ds' n = Some (Dir sub') \<and>
          (map_of ds n = None \<or> is_dir (map_of ds n))
      | _ \<Rightarrow> map_of ds' n = Some k \<and> \<not> is_dir (map_of ds n))"
proof (induction es ds arbitrary: ds' rule: copy_entries.induct)
  case (2 m sub rest ds)
  obtain sub' where sub': "copy_entries sub (entries_of (map_of ds m)) = Inr sub'"
      "copy_entries rest (AList.update m (Dir sub') ds) = Inr ds'"
      "map_of ds m = None \<or> is_dir (map_of ds m)" "\<not> is_symlink (map_of ds m)"
    using "2.prems"(1) by (auto split: sum.splits if_splits)
  show ?case
  proof (cases "n = m")
    case True
    then have "n \<notin> fst ` set rest" and "k = Dir sub" using "2.prems"(2,3) by auto
    then show ?thesis using sub' True copy_entries_other [OF sub'(2)] by auto
  next
    case False
    then have "map_of rest n = Some k" "distinct (map fst rest)" using "2.prems" by auto
    then show ?thesis
      using "2.IH"(2) [OF sub'(4) _ sub'(1,2)] sub'(3) False by (auto split: node.splits)
  qed
next
  case (3 m target rest ds)
  define ds1 where "ds1 = (if is_symlink (map_of ds m) then AList.delete m ds else ds)"
  have r: "copy_entries rest (AList.update m (Symlink target) ds1) = Inr ds'" "map_of ds1 m = None"
    using "3.prems"(1) by (simp_all add: Let_def ds1_def split: if_splits)
  show ?case
  proof (cases "n = m")
    case True
    then show ?thesis
      using "3.prems"(2,3) copy_entries_other [OF r(1), of m] r(2)
      by (auto simp: ds1_def is_symlink_def is_dir_def split: if_splits)
  next
    case False
    then show ?thesis
      using "3.IH" [OF ds1_def _ r(1)] "3.prems"(2,3) r(2)
      by (auto simp: ds1_def split: node.splits if_splits)
  qed
next
  case (4 m bytes rest ds)
  define ds1 where "ds1 = (if is_symlink (map_of ds m) then AList.delete m ds else ds)"
  have r: "copy_entries rest (AList.update m (File bytes) ds1) = Inr ds'" "\<not> is_dir (map_of ds1 m)"
    using "4.prems"(1) by (simp_all add: Let_def ds1_def split: if_splits)
  show ?case
  proof (cases "n = m")
    case True
    then show ?thesis
      using "4.prems"(2,3) copy_entries_other [OF r(1), of m] r(2)
      by (auto simp: ds1_def is_symlink_def is_dir_def split: if_splits)
  next
    case False
    then show ?thesis
      using "4.IH" [OF ds1_def r(2) r(1)] "4.prems"(2,3)
      by (auto simp: ds1_def split: node.splits if_splits)
  qed
qed simp

lemma no_children: "\<not> is_dir n \<Longrightarrow> n = Some k \<Longrightarrow> p \<noteq> [] \<Longrightarrow> get k p = None"
  by (cases k; cases p) auto

lemma copy_entries_overlays:
  "copy_entries es ds = Inr ds' \<Longrightarrow> wf_node (Dir es) \<Longrightarrow> overlaid (get (Dir es) p) (get (Dir ds) p) (get (Dir ds') p)"
proof (induction p arbitrary: es ds ds')
  case Nil
  then show ?case by (simp add: overlaid_def)
next
  case (Cons n p)
  show ?case
  proof (cases "map_of es n")
    case None
    then have "n \<notin> fst ` set es" by (simp add: map_of_eq_None_iff)
    then show ?thesis using None copy_entries_other [OF Cons.prems(1)] by (simp add: overlaid_def)
  next
    case (Some k)
    note entry = copy_entries_entry [OF Cons.prems(1) _ Some]
    show ?thesis
    proof (cases k)
      case (Dir sub)
      obtain sub' where sub': "copy_entries sub (entries_of (map_of ds n)) = Inr sub'" "map_of ds' n = Some (Dir sub')"
          "map_of ds n = None \<or> is_dir (map_of ds n)"
        using entry Dir Cons.prems(2) by auto
      have "wf_node (Dir sub)" using wf_node_entry [OF Cons.prems(2) Some] Dir by simp
      from Cons.IH [OF sub'(1) this]
      have "overlaid (get (Dir sub) p) (get (Dir (entries_of (map_of ds n))) p) (get (Dir sub') p)" .
      then show ?thesis
        using Some Dir sub'(2,3)
        by (cases p) (auto simp: entries_of_def overlaid_def is_dir_def split: option.splits)
    next
      case (File b)
      then show ?thesis
        using entry Some Cons.prems(2) no_children [of "map_of ds n" _ p]
        by (cases p) (auto simp: overlaid_def split: option.splits)
    next
      case (Symlink b)
      then show ?thesis
        using entry Some Cons.prems(2) no_children [of "map_of ds n" _ p]
        by (cases p) (auto simp: overlaid_def split: option.splits)
    qed
  qed
qed

text \<open>
  C37: A recursive copy that succeeds overlays the source on the destination: at every path where the source
  has a file or a link the result has that same file or link, where it has a directory the result has a
  directory, and everywhere else the result has what the destination had.  A destination that is a link is
  refused, so the copy never writes through one.
\<close>

theorem copy_dir_recursive_overlays:
  assumes "copy_dir_recursive src dst = Inr res" and "wf_node src"
  shows "\<not> is_symlink dst \<and>
     overlaid (get src p) (case dst of None \<Rightarrow> None | Some d \<Rightarrow> get d p) (get res p)"
proof -
  obtain es ds where src: "src = Dir es" and copy: "copy_entries es (entries_of dst) = Inr ds" and res: "res = Dir ds"
      and ok: "\<not> is_symlink dst" "dst = None \<or> is_dir dst"
    using assms(1) by (auto simp: copy_dir_recursive_def split: if_splits node.splits sum.splits)
  have "overlaid (get src p) (get (Dir (entries_of dst)) p) (get res p)"
    using copy_entries_overlays [OF copy] assms(2) src res by simp
  moreover have "p = [] \<or> get (Dir (entries_of dst)) p = (case dst of None \<Rightarrow> None | Some d \<Rightarrow> get d p)"
    using ok(2) by (cases p) (auto simp: entries_of_def is_dir_def)
  ultimately show ?thesis using ok(1) src by (auto simp: overlaid_def split: option.splits node.splits)
qed

theorem copy_dir_recursive_overlays_witness:
  "copy_dir_recursive (Dir [(''a'', Dir [(''f'', File ''new'')])]) (Some (Dir [(''a'', Dir [(''f'', Symlink ''/etc''), (''g'', File ''old'')])])) =
     Inr (Dir [(''a'', Dir [(''g'', File ''old''), (''f'', File ''new'')])]) \<and>
   overlaid (Some (File ''new'')) (Some (Symlink ''/etc'')) (Some (File ''new''))"
proof -
  have c: "copy_dir_recursive (Dir [(''a'', Dir [(''f'', File ''new'')])]) (Some (Dir [(''a'', Dir [(''f'', Symlink ''/etc''), (''g'', File ''old'')])])) =
     Inr (Dir [(''a'', Dir [(''g'', File ''old''), (''f'', File ''new'')])])" by code_simp
  show ?thesis
    using c copy_dir_recursive_overlays [OF c, of "[''a'', ''f'']"] by simp
qed


section \<open>Scrubbing placeholders\<close>

lemma del_keeps:
  "get (del t p) q = None \<or> get (del t p) q = get t q \<or> (is_dir (get t q) \<and> is_dir (get (del t p) q))"
proof (induction t p arbitrary: q rule: del.induct)
  case (2 es c)
  then show ?case by (cases q) (auto simp: is_dir_def)
next
  case (3 es c d cs)
  then show ?case by (cases q) (auto simp: is_dir_def split: option.splits)
qed auto

lemma del_absent:
  "get t p = None \<Longrightarrow> get (del t p) q = get t q \<or> is_dir (get t q) \<and> is_dir (get (del t p) q)"
proof (induction t p arbitrary: q rule: del.induct)
  case (2 es c)
  then show ?case by (cases q) (auto split: option.splits)
next
  case (3 es c d cs)
  then show ?case by (cases q) (auto split: option.splits)
qed auto

lemma del_empty_keeps:
  assumes "get t p = Some (Dir [])" and "p \<noteq> []"
  shows "get (del t p) q = get t q \<or> is_dir (get t q) \<and> (get (del t p) q = None \<or> is_dir (get (del t p) q))"
proof (cases "prefix p q")
  case True
  then obtain r where "q = p @ r" by (auto simp: prefix_def)
  then show ?thesis using assms get_del_below [of p t r] by (cases r) (auto simp: get_append)
next
  case no: False
  show ?thesis
  proof (cases "prefix q p")
    case True
    then obtain r where r: "p = q @ r" "r \<noteq> []" using no by (auto simp: prefix_def)
    then obtain n where "get t q = Some n" "get n r = Some (Dir [])"
      using assms(1) by (auto simp: get_append split: option.splits)
    then have "is_dir (get t q)" using r(2) no_children [of "get t q" n r] by auto
    then show ?thesis using del_keeps [of t p q] by auto
  qed (use no get_del_apart in auto)
qed

lemma prune_empty_keeps:
  "get (prune_empty t up) q = get t q \<or>
   is_dir (get t q) \<and> (get (prune_empty t up) q = None \<or> is_dir (get (prune_empty t up) q))"
proof (induction t up rule: prune_empty.induct)
  case (2 t c up)
  show ?case
  proof (cases "get t (rev (c # up)) = Some (Dir [])")
    case True
    then show ?thesis using "2.IH" del_empty_keeps [OF True, of q] by (auto simp: is_dir_def)
  next
    case False
    then show ?thesis by simp
  qed
qed simp

lemma scrub_one_effect:
  assumes "scrub_one target t = Some t'" and "p = normals (components target)"
  shows "\<not> has_parent_dir target \<Longrightarrow> get t' p = None"
    and "get t q = None \<Longrightarrow> get t' q = None"
    and "get t q = Some n \<Longrightarrow> \<not> is_dir (Some n) \<Longrightarrow> \<not> prefix p q \<Longrightarrow> get t' q = Some n"
proof -
  consider "t' = t" "has_parent_dir target \<or> get t p = None"
    | "t' = prune_empty (del t p) (tl (rev p))" "p \<noteq> []"
    using assms by (auto simp: scrub_one_def Let_def split: if_splits option.splits)
  note cases = this
  show "\<not> has_parent_dir target \<Longrightarrow> get t' p = None"
    using cases
  proof cases
    case 2
    then show ?thesis using get_del_below [of p t "[]"] prune_empty_keeps [of "del t p" "tl (rev p)" p] by auto
  qed auto
  show "get t q = None \<Longrightarrow> get t' q = None"
    using cases
  proof cases
    case 2
    then show "get t q = None \<Longrightarrow> get t' q = None"
      using del_keeps [of t p q] prune_empty_keeps [of "del t p" "tl (rev p)" q] by auto
  qed auto
  show "get t' q = Some n" if h: "get t q = Some n" "\<not> is_dir (Some n)" "\<not> prefix p q"
  proof -
    have "get (del t p) q = Some n"
    proof (cases "prefix q p")
      case True
      then obtain r where "p = q @ r" "r \<noteq> []" using h(3) by (auto simp: prefix_def)
      then have "get t p = None" using h no_children [of "get t q" n r] by (simp add: get_append)
      then show ?thesis using h del_absent [of t p q] by auto
    qed (use h get_del_apart in auto)
    then show ?thesis using cases h prune_empty_keeps [of "del t p" "tl (rev p)" q] by auto
  qed
qed

lemma scrub_secret_mountpoints_nothing_new:
  "scrub_secret_mountpoints targets (Some t) = (Some t', out) \<Longrightarrow> get t q = None \<Longrightarrow> get t' q = None"
proof (induction targets arbitrary: t out)
  case (Cons target targets)
  show ?case
  proof (cases "\<not> has_parent_dir target \<and> through_link t (normals (components target))")
    case True
    then show ?thesis using Cons by (auto split: prod.splits)
  next
    case False
    then obtain t1 where "scrub_one target t = Some t1" "scrub_secret_mountpoints targets (Some t1) = (Some t', out)"
      using Cons.prems(1) by (cases "scrub_one target t"; cases targets) auto
    then show ?thesis using Cons.IH Cons.prems(2) scrub_one_effect(2) by blast
  qed
qed simp



end
