(* ===== verification/Build_State.thy ===== *)
theory Build_State
  imports Images Host_Fs Ast Subst Ssrf
begin

text \<open>
  The state of a build: errors, the scope of \<open>ARG\<close> values (\<open>crates/umf-builder/src/arg_subst.rs\<close>), the
  image under construction (\<open>engine_build/state.rs\<close>), time stamps (\<open>engine_build/util.rs\<close>) and the step
  cache (\<open>engine_build/cache.rs\<close>).  A captured upper directory is a tree of \<open>Host_Fs\<close>.
\<close>

section \<open>Errors\<close>

text \<open>An error whose message is composed carries the values the message shows.\<close>

datatype EngineError = EngineRuntime string | BuildAborted nat nat

datatype EngineBuildError =
    MultiStageNotSupported
  | BaseImageArchMismatch string string string
  | AddUrlFetchFailed string string
  | AddUrlEgressDenied string string "IpAddr option" "AddressCategory option"
  | AddUrlArchiveUnsupported string string
  | AddUrlExtractFailed string string string
  | AddFromUnknownStage string
  | AddFromForwardReference string
  | AddFromSelf string
  | NestedBootableStage nat string
  | MissingSecret string
  | SecretResolution string string
  | AddSourceNotFound string string
  | CopyRemoteSource string string
  | AddPathTraversal string string
  | RunFailed int string
  | NoManifestForPlatform string
  | BaseImageLayerCountMismatch nat nat
  | Engine EngineError
  | Registry RegistryError
  | InvalidReference string string
  | Staging string
  | Io io_error
  | Json string


section \<open>The scope of ARG values\<close>

type_synonym scope = "string \<rightharpoonup> string"

definition arg_name :: "Arg \<Rightarrow> string" where
  "arg_name arg = env_name_str (sd_value (ag_name arg))"

definition arg_default :: "Arg \<Rightarrow> string option" where
  "arg_default arg = map_option (\<lambda>d. env_value_str (sd_value d)) (ag_default arg)"

definition apply_arg_to_scope :: "scope \<Rightarrow> Arg \<Rightarrow> scope \<Rightarrow> scope" where
  "apply_arg_to_scope build_args arg scp =
     (let name = arg_name arg;
          val = (case build_args name of
                   Some v \<Rightarrow> Some v
                 | None \<Rightarrow> (case arg_default arg of Some d \<Rightarrow> Some d | None \<Rightarrow> scp name))
      in case val of Some v \<Rightarrow> scp(name \<mapsto> v) | None \<Rightarrow> scp)"

definition resolve_global_args :: "scope \<Rightarrow> Ast \<Rightarrow> scope" where
  "resolve_global_args build_args ast = fold (apply_arg_to_scope build_args) (ast_global_args ast) Map.empty"

definition subst_with :: "scope \<Rightarrow> string \<Rightarrow> string" where
  "subst_with scp text = substitute text scp"


section \<open>Time stamps\<close>

definition parse_i64 :: "string \<Rightarrow> int option" where
  "parse_i64 s =
     (case s of
        CHR ''-'' # ds \<Rightarrow>
          if ds \<noteq> [] \<and> list_all is_ascii_digit ds \<and> dec_value ds \<le> 2 ^ 63 then Some (- int (dec_value ds)) else None
      | _ \<Rightarrow> map_option int (parse_uint 63 s))"

definition quot :: "int \<Rightarrow> int \<Rightarrow> int" where
  "quot a b = sgn a * (\<bar>a\<bar> div b)"

definition civil_from_epoch :: "int \<Rightarrow> int \<times> nat \<times> nat \<times> nat \<times> nat \<times> nat" where
  "civil_from_epoch epoch_secs =
     (let days = epoch_secs div 86400;
          day_secs = epoch_secs mod 86400;
          hh = nat (day_secs div 3600);
          mm = nat (day_secs mod 3600 div 60);
          ss = nat (day_secs mod 60);
          z = days + 719468;
          era = quot (if z \<ge> 0 then z else z - 146096) 146097;
          doe = z - era * 146097;
          yoe = (doe - doe div 1460 + doe div 36524 - doe div 146096) div 365;
          y = yoe + era * 400;
          doy = doe - (365 * yoe + yoe div 4 - yoe div 100);
          mp = (5 * doy + 2) div 153;
          d = doy - (153 * mp + 2) div 5 + 1;
          m = (if mp < 10 then mp + 3 else mp - 9)
      in (signed_take_bit 31 (if m \<le> 2 then y + 1 else y), nat m, nat d, hh, mm, ss))"

definition show_padded :: "nat \<Rightarrow> int \<Rightarrow> string" where
  "show_padded w n =
     (if n < 0 then ''-'' @ pad_left (w - 1) (CHR ''0'') (show_nat (nat (- n)))
      else pad_left w (CHR ''0'') (show_nat (nat n)))"

definition now_rfc3339 :: "string option \<Rightarrow> int \<Rightarrow> string" where
  "now_rfc3339 source_date_epoch clock =
     (let epoch_secs = (case Option.bind source_date_epoch parse_i64 of Some n \<Rightarrow> n | None \<Rightarrow> clock)
      in case civil_from_epoch epoch_secs of
           (year, month, day, hh, mm, ss) \<Rightarrow>
             show_padded 4 year @ ''-'' @ show_padded 2 (int month) @ ''-'' @ show_padded 2 (int day) @ ''T'' @
             show_padded 2 (int hh) @ '':'' @ show_padded 2 (int mm) @ '':'' @ show_padded 2 (int ss) @ ''Z'')"


section \<open>The image under construction\<close>

record BaseImage =
  ba_layers :: "LayerSource list"
  ba_config :: ImageConfig

record BuildState =
  bs_image_config :: ImageConfig
  bs_base_layers :: "LayerSource list"
  bs_new_layers :: "LayerSource list"
  bs_upper_guards :: "node list"
  bs_current_shell :: "string list"
  bs_adopted_from_cache :: bool
  bs_compression :: LayerCompression
  bs_arg_scope :: scope

text \<open>What the steps take from the host: the clock, the tar builder, the compressors and the codec.\<close>

record host =
  ho_codec :: codec
  ho_source_date_epoch :: "string option"
  ho_clock :: "nat \<Rightarrow> int"
  ho_tar :: "node \<Rightarrow> string"
  ho_compress :: "LayerCompression \<Rightarrow> string \<Rightarrow> string"

definition BuildState_new :: "BaseImage \<Rightarrow> LayerCompression \<Rightarrow> scope \<Rightarrow> BuildState" where
  "BuildState_new base compression globals =
     \<lparr> bs_image_config = (ba_config base) \<lparr> ic_umf_type := L0Container \<rparr>, bs_base_layers = ba_layers base,
       bs_new_layers = [], bs_upper_guards = [], bs_current_shell = [''/bin/sh'', ''-c''],
       bs_adopted_from_cache = False, bs_compression = compression, bs_arg_scope = globals \<rparr>"

definition bs_subst :: "BuildState \<Rightarrow> string \<Rightarrow> string" where
  "bs_subst st text = substitute text (bs_arg_scope st)"

definition lower_stack :: "BuildState \<Rightarrow> node list \<Rightarrow> node list" where
  "lower_stack st base_lowers = rev (bs_upper_guards st) @ base_lowers"

definition finalise_image_config :: "BuildState \<Rightarrow> ImageConfig" where
  "finalise_image_config st = bs_image_config st"

definition assemble_layer_chain :: "BuildState \<Rightarrow> LayerSource list" where
  "assemble_layer_chain st = bs_base_layers st @ bs_new_layers st"

definition push_history :: "host \<Rightarrow> string \<Rightarrow> bool \<Rightarrow> BuildState \<Rightarrow> BuildState" where
  "push_history H history_line empty_layer st =
     (let cfg = bs_image_config st;
          now = now_rfc3339 (ho_source_date_epoch H) (ho_clock H (length (ic_history cfg)))
      in st \<lparr> bs_image_config :=
                cfg \<lparr> ic_history := ic_history cfg @
                  [\<lparr> he_created = Some now, he_created_by = Some history_line, he_author = Some ''umf-engine'',
                     he_comment = None, he_empty_layer = empty_layer \<rparr>] \<rparr> \<rparr>)"

definition push_new_layer :: "host \<Rightarrow> node \<Rightarrow> string \<Rightarrow> BuildState \<Rightarrow> LayerSource \<times> BuildState" where
  "push_new_layer H upper history_line st =
     (let source = from_directory_with (ho_codec H) (ho_tar H) (ho_compress H) upper (bs_compression st)
      in (source,
          push_history H history_line False
            (st \<lparr> bs_new_layers := bs_new_layers st @ [source], bs_upper_guards := bs_upper_guards st @ [upper] \<rparr>)))"

definition adopt_cached_layer :: "host \<Rightarrow> LayerSource \<Rightarrow> string \<Rightarrow> BuildState \<Rightarrow> BuildState" where
  "adopt_cached_layer H layer history_line st =
     push_history H history_line False
       (st \<lparr> bs_adopted_from_cache := True, bs_new_layers := bs_new_layers st @ [layer] \<rparr>)"

definition push_metadata_history :: "host \<Rightarrow> string \<Rightarrow> BuildState \<Rightarrow> BuildState" where
  "push_metadata_history H history_line st = push_history H history_line True st"


section \<open>The step cache\<close>

record CachedStep =
  cs_blob_digest :: string
  cs_diff_id :: string
  cs_media_type :: string
  cs_history_line :: string

type_synonym StepCache = "string \<rightharpoonup> CachedStep"

text \<open>The bytes fed to the hasher; the key is their digest.\<close>

definition each_line :: "string list \<Rightarrow> string" where
  "each_line xs = concat (map (\<lambda>x. x @ [NL]) xs)"

definition parent_state_hash :: "codec \<Rightarrow> BuildState \<Rightarrow> string" where
  "parent_state_hash C st =
     cd_sha256 C (each_line (map ls_diff_id (bs_base_layers st)) @ ''--'' @ [NL] @
                  each_line (map ls_diff_id (bs_new_layers st)))"

definition or_empty :: "string option \<Rightarrow> string" where
  "or_empty s = (case s of Some t \<Rightarrow> t | None \<Rightarrow> [])"

definition run_key_bytes ::
  "string \<Rightarrow> string \<Rightarrow> string \<Rightarrow> string list \<Rightarrow> string list \<Rightarrow> string option \<Rightarrow> string option \<Rightarrow> string list \<Rightarrow> string" where
  "run_key_bytes arch media parent argv env cwd user secret_ids =
     ''RUN'' @ [NL] @ ''arch:'' @ arch @ [NL] @ ''codec:'' @ media @ [NL] @ parent @ [NL] @
     concat (map (\<lambda>a. a @ [NUL]) argv) @ [NL] @ ''env:'' @ [NL] @ each_line env @
     ''cwd:'' @ or_empty cwd @ [NL] @ ''user:'' @ or_empty user @ [NL] @ ''secrets:'' @ [NL] @
     each_line (sort secret_ids)"

definition run_cache_key ::
  "codec \<Rightarrow> string \<Rightarrow> string \<Rightarrow> string \<Rightarrow> string list \<Rightarrow> string list \<Rightarrow> string option \<Rightarrow> string option \<Rightarrow> string list \<Rightarrow> string" where
  "run_cache_key C arch media parent argv env cwd user secret_ids =
     cd_sha256 C (run_key_bytes arch media parent argv env cwd user secret_ids)"

definition add_cache_key :: "codec \<Rightarrow> string \<Rightarrow> string \<Rightarrow> string \<Rightarrow> string \<Rightarrow> string \<Rightarrow> string" where
  "add_cache_key C arch media parent src_digest dst =
     cd_sha256 C (''ADD'' @ [NL] @ ''arch:'' @ arch @ [NL] @ ''codec:'' @ media @ [NL] @ parent @ [NL] @
                  src_digest @ [NL] @ dst)"

definition url_add_cache_key :: "codec \<Rightarrow> string \<Rightarrow> string \<Rightarrow> string \<Rightarrow> string \<Rightarrow> string" where
  "url_add_cache_key C media parent payload_digest dst =
     cd_sha256 C (''ADD-URL'' @ [NL] @ ''codec:'' @ media @ [NL] @ parent @ [NL] @ payload_digest @ [NL] @ dst)"

definition oci_image_add_cache_key :: "codec \<Rightarrow> string \<Rightarrow> string \<Rightarrow> string \<Rightarrow> string \<Rightarrow> string" where
  "oci_image_add_cache_key C media parent manifest_digest dst =
     cd_sha256 C (''ADD-OCI'' @ [NL] @ ''codec:'' @ media @ [NL] @ parent @ [NL] @ manifest_digest @ [NL] @ dst)"

definition cross_stage_add_cache_key :: "codec \<Rightarrow> string \<Rightarrow> string \<Rightarrow> string \<Rightarrow> string \<Rightarrow> string \<Rightarrow> string" where
  "cross_stage_add_cache_key C media parent producer_manifest_digest src_path dst =
     cd_sha256 C (''ADD-FROM'' @ [NL] @ ''codec:'' @ media @ [NL] @ parent @ [NL] @ producer_manifest_digest @
                  [NL] @ src_path @ [NL] @ dst)"

definition layer_from_cache :: "codec \<Rightarrow> layout \<Rightarrow> CachedStep \<Rightarrow> EngineBuildError + LayerSource option" where
  "layer_from_cache C L entry =
     (if \<not> has_blob L (cs_blob_digest entry) then Inr None
      else case read_blob C L (cs_blob_digest entry) of
             Inl e \<Rightarrow> Inl (Registry e)
           | Inr bytes \<Rightarrow> Inr (Some \<lparr> ls_data = bytes, ls_media_type = cs_media_type entry,
                                      ls_diff_id = cs_diff_id entry \<rparr>))"

definition store_layer_cache :: "codec \<Rightarrow> string \<Rightarrow> LayerSource \<Rightarrow> string \<Rightarrow> StepCache \<Rightarrow> StepCache" where
  "store_layer_cache C key layer history_line cache =
     cache(key \<mapsto> \<lparr> cs_blob_digest = sha256_digest C (ls_data layer), cs_diff_id = ls_diff_id layer,
                    cs_media_type = ls_media_type layer, cs_history_line = history_line \<rparr>)"

text \<open>\<open>cache.lookup\<close> followed by \<open>layer_from_cache\<close>, as every step does it.\<close>

definition cached_layer ::
  "codec \<Rightarrow> layout \<Rightarrow> StepCache \<Rightarrow> bool \<Rightarrow> string \<Rightarrow> EngineBuildError + (LayerSource \<times> string) option" where
  "cached_layer C L cache lookup_cache key =
     (if \<not> lookup_cache then Inr None
      else case cache key of
             None \<Rightarrow> Inr None
           | Some entry \<Rightarrow>
               (case layer_from_cache C L entry of
                  Inl e \<Rightarrow> Inl e
                | Inr None \<Rightarrow> Inr None
                | Inr (Some layer) \<Rightarrow> Inr (Some (layer, cs_history_line entry))))"

end
