(* ===== verification/Fetch.thy ===== *)
theory Fetch
  imports Build_State
begin

text \<open>
  Fetching an \<open>ADD <url>\<close> payload, \<open>crates/umf-builder/src/engine_build/fetch.rs\<close>, and the magic numbers of
  \<open>crates/umf-oci/src/format.rs\<close>.  The URL parser, the resolver and the HTTP client are library code, the
  functions of the record \<open>net\<close>; the client connects only to the address it was pinned to.  The model also
  returns the addresses it connected to, in order.
\<close>

section \<open>Formats\<close>

datatype Format = FmtGzip | FmtZstd | FmtXz | FmtBzip2 | FmtTar | FmtZip | FmtSquashfs | FmtUnknown

fun is_compressed :: "Format \<Rightarrow> bool" where
  "is_compressed f = (f \<in> {FmtGzip, FmtZstd, FmtXz, FmtBzip2})"

fun Format_as_str :: "Format \<Rightarrow> string" where
  "Format_as_str FmtGzip = ''gzip''"
| "Format_as_str FmtZstd = ''zstd''"
| "Format_as_str FmtXz = ''xz''"
| "Format_as_str FmtBzip2 = ''bzip2''"
| "Format_as_str FmtTar = ''tar''"
| "Format_as_str FmtZip = ''zip''"
| "Format_as_str FmtSquashfs = ''squashfs''"
| "Format_as_str FmtUnknown = ''unknown''"

definition is_tar :: "string \<Rightarrow> bool" where
  "is_tar bytes \<longleftrightarrow> length bytes \<ge> 257 + 5 \<and> slice bytes 257 (257 + 5) = ''ustar''"

definition detect :: "string \<Rightarrow> Format" where
  "detect bytes =
     (if starts_with bytes [CHR 0x1F, CHR 0x8B] then FmtGzip
      else if starts_with bytes [CHR 0x28, CHR 0xB5, CHR 0x2F, CHR 0xFD] then FmtZstd
      else if starts_with bytes [CHR 0xFD, CHR ''7'', CHR ''z'', CHR ''X'', CHR ''Z'', CHR 0x00] then FmtXz
      else if starts_with bytes ''BZh'' then FmtBzip2
      else if starts_with bytes (''PK'' @ [CHR 0x03, CHR 0x04]) \<or> starts_with bytes (''PK'' @ [CHR 0x05, CHR 0x06])
        then FmtZip
      else if starts_with bytes ''hsqs'' \<or> starts_with bytes ''sqsh'' then FmtSquashfs
      else if is_tar bytes then FmtTar
      else FmtUnknown)"

text \<open>The classifier reads at most 512 bytes of the payload.\<close>

definition sniff_format :: "string \<Rightarrow> Format" where
  "sniff_format payload = detect (take 512 payload)"


section \<open>Literal addresses\<close>

text \<open>\<open>IpAddr::from_str\<close>: dotted quads without leading zeros, and colon-hexadecimal with one \<open>::\<close>.\<close>

definition parse_octet :: "string \<Rightarrow> nat option" where
  "parse_octet s =
     (if s \<noteq> [] \<and> list_all is_ascii_digit s \<and> length s \<le> 3 \<and> (hd s = CHR ''0'' \<longrightarrow> length s = 1) \<and> dec_value s < 256
      then Some (dec_value s) else None)"

definition parse_ipv4 :: "string \<Rightarrow> u32 option" where
  "parse_ipv4 s =
     (case map parse_octet (split_on (CHR ''.'') s) of
        [Some a, Some b, Some c, Some d] \<Rightarrow> Some (of_nat (a * 2 ^ 24 + b * 2 ^ 16 + c * 2 ^ 8 + d))
      | _ \<Rightarrow> None)"

definition hex_value :: "char \<Rightarrow> nat" where
  "hex_value c =
     (if is_ascii_digit c then byte c - 48 else if is_ascii_lowercase c then byte c - 87 else byte c - 55)"

definition parse_group :: "string \<Rightarrow> nat option" where
  "parse_group s =
     (if s \<noteq> [] \<and> length s \<le> 4 \<and> list_all is_ascii_hexdigit s
      then Some (foldl (\<lambda>n c. 16 * n + hex_value c) 0 s) else None)"

fun parse_groups :: "bool \<Rightarrow> string list \<Rightarrow> nat list option" where
  "parse_groups v4 [] = Some []"
| "parse_groups v4 (g # gs) =
     (case (if v4 \<and> gs = [] then parse_ipv4 g else None) of
        Some a \<Rightarrow> Some [unat a div 2 ^ 16, unat a mod 2 ^ 16]
      | None \<Rightarrow>
          (case (parse_group g, parse_groups v4 gs) of
             (Some n, Some ns) \<Rightarrow> Some (n # ns)
           | _ \<Rightarrow> None))"

fun split_double_colon :: "string \<Rightarrow> string \<Rightarrow> (string \<times> string) option" where
  "split_double_colon acc (a # b # s) =
     (if a = CHR '':'' \<and> b = CHR '':'' then Some (rev acc, s) else split_double_colon (a # acc) (b # s))"
| "split_double_colon acc s = None"

definition side_groups :: "bool \<Rightarrow> string \<Rightarrow> nat list option" where
  "side_groups v4 s = (if s = [] then Some [] else parse_groups v4 (split_on (CHR '':'') s))"

definition groups_value :: "nat list \<Rightarrow> 128 word" where
  "groups_value gs = of_nat (foldl (\<lambda>n g. 2 ^ 16 * n + g) 0 gs)"

definition parse_ipv6 :: "string \<Rightarrow> 128 word option" where
  "parse_ipv6 s =
     (case split_double_colon [] s of
        None \<Rightarrow>
          (case side_groups True s of
             Some gs \<Rightarrow> if length gs = 8 then Some (groups_value gs) else None
           | None \<Rightarrow> None)
      | Some (l, r) \<Rightarrow>
          (case (side_groups False l, side_groups True r) of
             (Some ls, Some rs) \<Rightarrow>
               if length ls + length rs \<le> 7
               then Some (groups_value (ls @ replicate (8 - length ls - length rs) 0 @ rs)) else None
           | _ \<Rightarrow> None))"

definition parse_ip :: "string \<Rightarrow> IpAddr option" where
  "parse_ip s = (case parse_ipv4 s of Some a \<Rightarrow> Some (V4 a) | None \<Rightarrow> map_option V6 (parse_ipv6 s))"


section \<open>Fetching\<close>

definition MAX_REDIRECTS :: nat where
  "MAX_REDIRECTS = 10"

definition MAX_URL_FETCH_BYTES :: nat where
  "MAX_URL_FETCH_BYTES = 8 * 1024 * 1024 * 1024"

record FetchedUrl =
  fu_payload :: string
  fu_digest :: string

text \<open>A response: its status, its \<open>Location\<close> and its chunks, each of which may fail to arrive.\<close>

record response =
  rs_status :: nat
  rs_location :: "string option"
  rs_chunks :: "(string + string) list"

record net =
  nt_parse :: "string \<Rightarrow> string option"
  nt_host :: "string \<Rightarrow> string option"
  nt_join :: "string \<Rightarrow> string \<Rightarrow> string option"
  nt_resolve :: "string \<Rightarrow> IpAddr list option"
  nt_get :: "IpAddr \<Rightarrow> string \<Rightarrow> response option"

definition fetch_failed :: "string \<Rightarrow> string \<Rightarrow> EngineBuildError" where
  "fetch_failed url detail = AddUrlFetchFailed url detail"

definition egress_denied :: "string \<Rightarrow> string \<Rightarrow> Denied option \<Rightarrow> EngineBuildError" where
  "egress_denied url target d = AddUrlEgressDenied url target (map_option dn_ip d) (map_option dn_category d)"

definition resolve_allowed :: "net \<Rightarrow> EgressPolicy \<Rightarrow> string \<Rightarrow> string \<Rightarrow> string \<Rightarrow> EngineBuildError + IpAddr" where
  "resolve_allowed N policy original target host =
     (case parse_ip host of
        Some ip \<Rightarrow> (case check policy ip of Inr _ \<Rightarrow> Inr ip | Inl d \<Rightarrow> Inl (egress_denied original target (Some d)))
      | None \<Rightarrow>
          (case nt_resolve N host of
             None \<Rightarrow> Inl (fetch_failed original (''resolving '' @ host))
           | Some [] \<Rightarrow> Inl (fetch_failed original (host @ '' resolved to no addresses''))
           | Some (ip # ips) \<Rightarrow>
               (case filter_resolved policy (ip # ips) of
                  a # _ \<Rightarrow> Inr a
                | [] \<Rightarrow> (case check policy ip of
                           Inl d \<Rightarrow> Inl (egress_denied original target (Some d))
                         | Inr _ \<Rightarrow> Inl (egress_denied original target None)))))"

definition vetted_client :: "net \<Rightarrow> EgressPolicy \<Rightarrow> string \<Rightarrow> string \<Rightarrow> EngineBuildError + IpAddr" where
  "vetted_client N policy original target =
     (case nt_host N target of
        None \<Rightarrow> Inl (fetch_failed original (target @ '' has no host''))
      | Some host \<Rightarrow> resolve_allowed N policy original target host)"

fun receive :: "codec \<Rightarrow> string \<Rightarrow> (string + string) list \<Rightarrow> string \<Rightarrow> EngineBuildError + FetchedUrl" where
  "receive C url [] got = Inr \<lparr> fu_payload = got, fu_digest = sha256_digest C got \<rparr>"
| "receive C url (Inl e # chunks) got = Inl (fetch_failed url e)"
| "receive C url (Inr chunk # chunks) got =
     (if length got + length chunk > MAX_URL_FETCH_BYTES
      then Inl (fetch_failed url ''payload exceeds the ceiling'')
      else receive C url chunks (got @ chunk))"

text \<open>\<open>left\<close> is the number of redirects that may still be followed; the loop ends because it falls.\<close>

fun fetch_hops ::
  "codec \<Rightarrow> net \<Rightarrow> EgressPolicy \<Rightarrow> string \<Rightarrow> nat \<Rightarrow> string \<Rightarrow> IpAddr list \<times> (EngineBuildError + FetchedUrl)" where
  "fetch_hops C N policy url left target =
     (case vetted_client N policy url target of
        Inl e \<Rightarrow> ([], Inl e)
      | Inr ip \<Rightarrow>
          (case nt_get N ip target of
             None \<Rightarrow> ([ip], Inl (fetch_failed url ''request''))
           | Some r \<Rightarrow>
               if 300 \<le> rs_status r \<and> rs_status r < 400 then
                 (case left of
                    0 \<Rightarrow> ([ip], Inl (fetch_failed url ''exceeded 10 redirects''))
                  | Suc left' \<Rightarrow>
                      (case rs_location r of
                         None \<Rightarrow> ([ip], Inl (fetch_failed url ''redirect without a Location''))
                       | Some location \<Rightarrow>
                           (case nt_join N target location of
                              None \<Rightarrow> ([ip], Inl (fetch_failed url ''bad redirect target''))
                            | Some next \<Rightarrow>
                                (case fetch_hops C N policy url left' next of
                                   (ips, res) \<Rightarrow> (ip # ips, res)))))
               else if \<not> (200 \<le> rs_status r \<and> rs_status r < 300)
                 then ([ip], Inl (fetch_failed url (''HTTP '' @ show_nat (rs_status r))))
               else ([ip], receive C url (rs_chunks r) [])))"

definition fetch_url :: "codec \<Rightarrow> net \<Rightarrow> EgressPolicy \<Rightarrow> string \<Rightarrow> IpAddr list \<times> (EngineBuildError + FetchedUrl)" where
  "fetch_url C N policy url =
     (case nt_parse N url of
        None \<Rightarrow> ([], Inl (fetch_failed url ''invalid URL''))
      | Some target \<Rightarrow> fetch_hops C N policy url MAX_REDIRECTS target)"

fun take_until :: "char \<Rightarrow> string \<Rightarrow> string" where
  "take_until c s = takeWhile (\<lambda>b. b \<noteq> c) s"

fun after_scheme :: "string \<Rightarrow> string option" where
  "after_scheme [] = None"
| "after_scheme (b # s) =
     (case strip_prefix (b # s) ''://'' of Some r \<Rightarrow> Some r | None \<Rightarrow> after_scheme s)"

definition url_leaf :: "string \<Rightarrow> string" where
  "url_leaf url =
     (let no_fragment = take_until (CHR ''#'') url;
          no_query = take_until (CHR ''?'') no_fragment;
          rest = (case after_scheme no_query of Some r \<Rightarrow> r | None \<Rightarrow> no_query);
          leaf = last (split_on (CHR ''/'') rest)
      in if leaf \<noteq> [] \<and> leaf \<noteq> rest then leaf else ''download'')"


section \<open>Every connection is vetted\<close>

lemma check_allow: "check policy ip = Inr u \<longleftrightarrow> decision policy ip = Allow"
  by (simp add: check_def split: EgressDecision.split)

lemma filter_resolved_allow: "filter_resolved policy ips = ip # rest \<Longrightarrow> decision policy ip = Allow"
  by (auto simp: filter_resolved_def dest: filter_eq_ConsD)

lemma resolve_allowed_allow: "resolve_allowed N policy url target host = Inr ip \<Longrightarrow> decision policy ip = Allow"
  by (auto simp: resolve_allowed_def check_allow filter_resolved_allow
      split: option.splits sum.splits list.splits)

lemma vetted_client_allow: "vetted_client N policy url target = Inr ip \<Longrightarrow> decision policy ip = Allow"
  by (auto simp: vetted_client_def resolve_allowed_allow split: option.splits)

lemma receive_bounded:
  "receive C url chunks got = Inr f \<Longrightarrow> length got \<le> MAX_URL_FETCH_BYTES \<Longrightarrow>
     length (fu_payload f) \<le> MAX_URL_FETCH_BYTES \<and> fu_digest f = sha256_digest C (fu_payload f)"
  by (induction C url chunks got rule: receive.induct) (auto split: if_splits)

declare fetch_hops.simps [simp del]

lemma fetch_hops_vetted:
  "fetch_hops C N policy url left target = (ips, res) \<Longrightarrow>
     (\<forall>ip\<in>set ips. decision policy ip = Allow) \<and> length ips \<le> Suc left \<and>
     (\<forall>f. res = Inr f \<longrightarrow> ips \<noteq> [] \<and> length (fu_payload f) \<le> MAX_URL_FETCH_BYTES \<and>
            fu_digest f = sha256_digest C (fu_payload f))"
proof (induction left arbitrary: target ips res)
  case 0
  then show ?case
    by (subst (asm) fetch_hops.simps)
       (auto split: sum.splits option.splits if_splits simp: vetted_client_allow dest: receive_bounded)
next
  case (Suc left)
  show ?case
  proof (cases "vetted_client N policy url target")
    case (Inl e)
    then show ?thesis using Suc.prems by (subst (asm) fetch_hops.simps) auto
  next
    case (Inr ip)
    have ok: "decision policy ip = Allow" using vetted_client_allow [OF Inr] .
    show ?thesis
    proof (cases "\<exists>r location nxt. nt_get N ip target = Some r \<and> 300 \<le> rs_status r \<and> rs_status r < 400 \<and>
        rs_location r = Some location \<and> nt_join N target location = Some nxt")
      case True
      then obtain r location nxt where h: "nt_get N ip target = Some r" "300 \<le> rs_status r" "rs_status r < 400"
        "rs_location r = Some location" "nt_join N target location = Some nxt" by blast
      obtain ips' where "fetch_hops C N policy url left nxt = (ips', res)" "ips = ip # ips'"
        using Suc.prems h Inr by (subst (asm) fetch_hops.simps) (auto split: prod.splits)
      then show ?thesis using Suc.IH ok by auto
    next
      case False
      then show ?thesis
        using Suc.prems Inr ok
        by (subst (asm) fetch_hops.simps)
           (auto split: option.splits if_splits dest: receive_bounded)
    qed
  qed
qed

text \<open>
  C4: Whatever the URL, the resolver and the servers on the way answer, fetching a payload connects only to
  addresses the egress policy allows - on every redirect hop - and at most eleven times; a payload it
  returns is within the size ceiling and carries the digest of its own bytes.
\<close>

theorem fetch_url_confined:
  assumes "fetch_url C N policy url = (ips, res)"
  shows "(\<forall>ip\<in>set ips. decision policy ip = Allow) \<and> length ips \<le> 11 \<and>
     (\<forall>f. res = Inr f \<longrightarrow> ips \<noteq> [] \<and> length (fu_payload f) \<le> MAX_URL_FETCH_BYTES \<and>
            fu_digest f = sha256_digest C (fu_payload f))"
  using assms fetch_hops_vetted [of C N policy url MAX_REDIRECTS _ ips res]
  by (auto simp: fetch_url_def MAX_REDIRECTS_def split: option.splits)

text \<open>A server that redirects to a host-internal address, against the default policy.\<close>

definition example_net :: net where
  "example_net =
     \<lparr> nt_parse = Some, nt_host = Some, nt_join = (\<lambda>_ location. Some location),
       nt_resolve = (\<lambda>h. if h = ''a'' then Some [V4 0x7F000001, V4 0x08080808] else Some [V4 0x7F000001]),
       nt_get = (\<lambda>ip h. Some \<lparr> rs_status = 302, rs_location = Some ''b'', rs_chunks = [] \<rparr>) \<rparr>"

theorem fetch_url_confined_witness:
  "\<exists>res. fetch_url unary_codec example_net EgressPolicy_default ''a'' = ([V4 0x08080808], res) \<and>
     decision EgressPolicy_default (V4 0x08080808) = Allow"
proof -
  have d: "decision EgressPolicy_default (V4 0x7F000001) = Deny Loopback"
    "decision EgressPolicy_default (V4 0x08080808) = Allow" by code_simp+
  have p: "parse_ip ''a'' = None" "parse_ip ''b'' = None" by code_simp+
  have "\<exists>res. fetch_url unary_codec example_net EgressPolicy_default ''a'' = ([V4 0x08080808], res)"
    using d p
    by (simp add: fetch_url_def MAX_REDIRECTS_def fetch_hops.simps vetted_client_def resolve_allowed_def
        example_net_def filter_resolved_def check_def)
  then obtain res where r: "fetch_url unary_codec example_net EgressPolicy_default ''a'' = ([V4 0x08080808], res)" ..
  from r fetch_url_confined [OF r] show ?thesis by simp
qed

end
