(* ===== verification/Build_Steps.thy ===== *)
theory Build_Steps
  imports Fetch
begin

text \<open>
  The steps of a stage, \<open>crates/umf-builder/src/engine_build/\<close>: secrets (\<open>secrets.rs\<close>), the metadata
  directives (\<open>directives.rs\<close>), RUN (\<open>run.rs\<close>) and ADD / COPY (\<open>add.rs\<close>).  The layout and the step cache
  are the mutable \<open>store\<close>; the container runtime, the unpackers, the reference parser of the client library,
  the bundles and the canonical paths of the host are the function fields of \<open>BuildCtx\<close>.
\<close>

section \<open>Secrets\<close>

datatype SecretSource = SecretFile string | SecretEnv string

record SecretInput =
  si_id :: string
  si_source :: SecretSource

record ResolvedSecrets =
  rv_tempfiles :: "(string \<times> string) list"
  rv_by_id :: "string \<rightharpoonup> string"

definition host_path_for :: "ResolvedSecrets \<Rightarrow> string \<Rightarrow> string option" where
  "host_path_for s i = rv_by_id s i"

text \<open>\<open>tmp k\<close> is the path of the \<open>k\<close>-th temporary file the run creates.\<close>

fun resolve_secrets ::
  "(string \<Rightarrow> bool) \<Rightarrow> (string \<Rightarrow> string option) \<Rightarrow> (nat \<Rightarrow> string) \<Rightarrow> SecretInput list \<Rightarrow> ResolvedSecrets \<Rightarrow>
     EngineBuildError + ResolvedSecrets" where
  "resolve_secrets file_exists env tmp [] acc = Inr acc"
| "resolve_secrets file_exists env tmp (i # inputs) acc =
     (case si_source i of
        SecretFile p \<Rightarrow>
          if \<not> file_exists p then Inl (SecretResolution (si_id i) p)
          else resolve_secrets file_exists env tmp inputs (acc \<lparr> rv_by_id := (rv_by_id acc)(si_id i \<mapsto> p) \<rparr>)
      | SecretEnv name \<Rightarrow>
          (case env name of
             None \<Rightarrow> Inl (SecretResolution (si_id i) name)
           | Some val \<Rightarrow>
               let tf = tmp (length (rv_tempfiles acc))
               in resolve_secrets file_exists env tmp inputs
                    (acc \<lparr> rv_by_id := (rv_by_id acc)(si_id i \<mapsto> tf),
                           rv_tempfiles := rv_tempfiles acc @ [(tf, val)] \<rparr>)))"


section \<open>Context\<close>

datatype StepFlow = Continue | RebuildWithoutCache

datatype StepKind = StepRun | StepAdd | StepMetadata

record BindMount =
  bm_host_path :: string
  bm_container_path :: string
  bm_read_only :: bool

record RunSpec =
  rp_id :: string
  rp_argv :: "string list"
  rp_env :: "string list"
  rp_working_dir :: "string option"
  rp_user :: "string option"
  rp_bind_mounts :: "BindMount list"

text \<open>
  A directory of the host that sources are read from: its canonical path, its own name, and for a path
  below it the canonical path and the node found there (links resolved), if it exists.
\<close>

record source_tree =
  sx_root :: "string list"
  sx_name :: "string option"
  sx_resolve :: "string list \<Rightarrow> (string list \<times> node) option"

record store =
  sr_layout :: layout
  sr_cache :: StepCache

record BuildCtx =
  cx_host :: host
  cx_secrets :: ResolvedSecrets
  cx_context_dir :: string
  cx_context :: source_tree
  cx_mode :: "string list \<Rightarrow> nat"
  cx_fetched_urls :: "string \<rightharpoonup> FetchedUrl"
  cx_produced :: "string \<rightharpoonup> string"
  cx_architecture :: Architecture
  cx_compression :: LayerCompression
  cx_globals :: scope
  cx_build_args :: scope
  cx_run :: "node list \<Rightarrow> RunSpec \<Rightarrow> EngineError + int option \<times> node"
  cx_rootfs :: "layout \<Rightarrow> string \<Rightarrow> EngineError + source_tree \<times> node"
  cx_unpack :: "Format \<Rightarrow> string \<Rightarrow> string + node"
  cx_whole :: "string \<Rightarrow> string + string"

abbreviation "cx_codec ctx \<equiv> ho_codec (cx_host ctx)"

definition with_container :: "(ContainerConfig \<Rightarrow> ContainerConfig) \<Rightarrow> BuildState \<Rightarrow> BuildState" where
  "with_container f st =
     st \<lparr> bs_image_config := (bs_image_config st) \<lparr> ic_container := f (ic_container (bs_image_config st)) \<rparr> \<rparr>"

abbreviation "bs_container st \<equiv> ic_container (bs_image_config st)"


section \<open>Progress lines\<close>

fun classify_directive :: "Directive \<Rightarrow> StepKind" where
  "classify_directive (DirRun _) = StepRun"
| "classify_directive (DirAdd _) = StepAdd"
| "classify_directive _ = StepMetadata"

definition truncate_for_prompt :: "string \<Rightarrow> nat \<Rightarrow> string" where
  "truncate_for_prompt s limit =
     (let oneline = map (\<lambda>c. if c = NL then SP else c) s
      in if length (chars oneline) \<le> limit then oneline
         else concat (take (limit - 1) (chars oneline)) @ ELLIPSIS)"

fun describe_directive :: "Directive \<Rightarrow> string" where
  "describe_directive (DirRun r) =
     truncate_for_prompt
       (''RUN '' @ (case rn_command r of RunShell s \<Rightarrow> sd_value s | RunExec ps \<Rightarrow> join '' '' (map sd_value ps))) 80"
| "describe_directive (DirAdd a) =
     truncate_for_prompt
       (''ADD '' @ AddSource_as_str (ad_source a) @ '' '' @ recipe_path_str (sd_value (ad_destination a))) 80"
| "describe_directive (DirLabel _) = ''LABEL''"
| "describe_directive (DirEnv _) = ''ENV''"
| "describe_directive (DirArg _) = ''ARG''"
| "describe_directive (DirUser _) = ''USER''"
| "describe_directive (DirWorkdir _) = ''WORKDIR''"
| "describe_directive (DirEntrypoint _) = ''ENTRYPOINT''"
| "describe_directive (DirExpose _) = ''EXPOSE''"
| "describe_directive (DirShell _) = ''SHELL''"
| "describe_directive (DirCmd _) = ''CMD''"
| "describe_directive (DirVolume _) = ''VOLUME''"
| "describe_directive (DirStopsignal _) = ''STOPSIGNAL''"


section \<open>Metadata directives\<close>

definition apply_workdir :: "host \<Rightarrow> Workdir \<Rightarrow> BuildState \<Rightarrow> BuildState" where
  "apply_workdir H wd st =
     (let original = recipe_path_str (sd_value (wd_path wd));
          requested = bs_subst st original;
          current = (case cc_working_dir (bs_container st) of Some d \<Rightarrow> d | None \<Rightarrow> ''/'');
          resolved = resolve_workdir current requested;
          (_, st') = push_new_layer H (workdir_upper resolved) (''WORKDIR '' @ original) st
      in with_container (\<lambda>c. c \<lparr> cc_working_dir := Some resolved \<rparr>) st')"

definition apply_user :: "host \<Rightarrow> User \<Rightarrow> BuildState \<Rightarrow> BuildState" where
  "apply_user H u st =
     (let original = username_str (sd_value (us_name u));
          st' = push_metadata_history H (''USER '' @ original) st
      in with_container (\<lambda>c. c \<lparr> cc_user := Some (bs_subst st' original) \<rparr>) st')"

definition apply_env :: "host \<Rightarrow> Env \<Rightarrow> BuildState \<Rightarrow> BuildState" where
  "apply_env H e st =
     (let key = env_name_str (sd_value (ev_key e));
          original_value = env_value_str (sd_value (ev_value e));
          entry = key @ ''='' @ bs_subst st original_value;
          pre = key @ ''='';
          st' = with_container
                  (\<lambda>c. c \<lparr> cc_env := filter (\<lambda>x. \<not> starts_with x pre) (cc_env c) @ [entry] \<rparr>) st
      in push_metadata_history H (''ENV '' @ key @ ''='' @ original_value) st')"

definition apply_shell :: "host \<Rightarrow> Shell \<Rightarrow> BuildState \<Rightarrow> BuildState" where
  "apply_shell H s st =
     (let argv = map sd_value (sh_argv s);
          st' = push_metadata_history H (''SHELL '' @ (if argv = [] then ''(none)'' else ''switched'')) st
      in st' \<lparr> bs_current_shell := argv \<rparr>)"

definition apply_label :: "host \<Rightarrow> Label \<Rightarrow> BuildState \<Rightarrow> BuildState" where
  "apply_label H l st =
     (let key = label_key_str (sd_value (lb_key l));
          original_value = label_value_str (sd_value (lb_value l));
          st' = push_metadata_history H (''LABEL '' @ key @ ''='' @ original_value) st
      in with_container (\<lambda>c. c \<lparr> cc_labels := (cc_labels c)(key \<mapsto> bs_subst st' original_value) \<rparr>) st')"

definition apply_arg :: "scope \<Rightarrow> Arg \<Rightarrow> BuildState \<Rightarrow> BuildState" where
  "apply_arg build_args arg st = st \<lparr> bs_arg_scope := apply_arg_to_scope build_args arg (bs_arg_scope st) \<rparr>"

definition shell_argv :: "BuildState \<Rightarrow> string \<Rightarrow> string list" where
  "shell_argv st original =
     (if bs_current_shell st = [] then [''/bin/sh'', ''-c''] else bs_current_shell st) @ [bs_subst st original]"

fun apply_entrypoint :: "host \<Rightarrow> EntrypointInit \<Rightarrow> BuildState \<Rightarrow> BuildState" where
  "apply_entrypoint H (InitPath s) st =
     push_metadata_history H (''ENTRYPOINT '' @ sd_value s)
       (with_container (\<lambda>c. c \<lparr> cc_entrypoint := Some (shell_argv st (sd_value s)) \<rparr>) st)"
| "apply_entrypoint H (InitExec parts) st =
     (let argv = map (\<lambda>p. bs_subst st (sd_value p)) parts;
          st' = push_metadata_history H (''ENTRYPOINT '' @ join '' '' (map sd_value parts)) st
      in with_container (\<lambda>c. c \<lparr> cc_entrypoint := Some argv \<rparr>) st')"
| "apply_entrypoint H InitNone st =
     with_container (\<lambda>c. c \<lparr> cc_entrypoint := None \<rparr>) (push_metadata_history H ''ENTRYPOINT none'' st)"
| "apply_entrypoint H InitSystemd st =
     push_metadata_history H ''ENTRYPOINT systemd''
       (with_container (\<lambda>c. c \<lparr> cc_entrypoint := Some [''/usr/sbin/init''] \<rparr>) st)"
| "apply_entrypoint H InitOpenRc st =
     push_metadata_history H ''ENTRYPOINT openrc''
       (with_container (\<lambda>c. c \<lparr> cc_entrypoint := Some [''/sbin/openrc-init''] \<rparr>) st)"

definition apply_expose :: "host \<Rightarrow> Expose \<Rightarrow> BuildState \<Rightarrow> BuildState" where
  "apply_expose H e st =
     (let proto = (case ex_protocol e of Tcp \<Rightarrow> ''tcp'' | Udp \<Rightarrow> ''udp'');
          entry = show_nat (unat (ex_port e)) @ ''/'' @ proto;
          st' = (if entry \<in> set (cc_exposed_ports (bs_container st)) then st
                 else with_container (\<lambda>c. c \<lparr> cc_exposed_ports := cc_exposed_ports c @ [entry] \<rparr>) st)
      in push_metadata_history H (''EXPOSE '' @ entry) st')"

definition apply_cmd :: "host \<Rightarrow> Cmd \<Rightarrow> BuildState \<Rightarrow> BuildState" where
  "apply_cmd H c st =
     (let (argv, history) =
            (case cm_command c of
               CmdShell s \<Rightarrow> (shell_argv st (sd_value s), sd_value s)
             | CmdExec parts \<Rightarrow> (map (\<lambda>p. bs_subst st (sd_value p)) parts, join '' '' (map sd_value parts)))
      in with_container (\<lambda>c. c \<lparr> cc_cmd := Some argv \<rparr>) (push_metadata_history H (''CMD '' @ history) st))"

fun add_volumes :: "BuildState \<Rightarrow> string list \<Rightarrow> BuildState" where
  "add_volumes st [] = st"
| "add_volumes st (path # paths) =
     (let p = bs_subst st path
      in add_volumes
           (if p \<in> set (cc_volumes (bs_container st)) then st
            else with_container (\<lambda>c. c \<lparr> cc_volumes := cc_volumes c @ [p] \<rparr>) st) paths)"

definition apply_volume :: "host \<Rightarrow> Volume \<Rightarrow> BuildState \<Rightarrow> BuildState" where
  "apply_volume H v st =
     push_metadata_history H (''VOLUME '' @ join '' '' (map sd_value (vo_paths v)))
       (add_volumes st (map sd_value (vo_paths v)))"

definition apply_stopsignal :: "host \<Rightarrow> Stopsignal \<Rightarrow> BuildState \<Rightarrow> BuildState" where
  "apply_stopsignal H s st =
     (let sig = sd_value (ss_signal s)
      in with_container (\<lambda>c. c \<lparr> cc_stop_signal := Some sig \<rparr>) (push_metadata_history H (''STOPSIGNAL '' @ sig) st))"


section \<open>RUN\<close>

fun secret_mounts ::
  "ResolvedSecrets \<Rightarrow> RunMount list \<Rightarrow> EngineBuildError + (string list \<times> BindMount list)" where
  "secret_mounts secrets [] = Inr ([], [])"
| "secret_mounts secrets (mount # mounts) =
     (case rm_kind mount of
        MountSecret i target \<Rightarrow>
          (let id_str = secret_id_str (sd_value i)
           in case host_path_for secrets id_str of
                None \<Rightarrow> Inl (MissingSecret id_str)
              | Some host_path \<Rightarrow>
                  (case secret_mounts secrets mounts of
                     Inl e \<Rightarrow> Inl e
                   | Inr (ids, binds) \<Rightarrow>
                       Inr (id_str # ids,
                            \<lparr> bm_host_path = host_path,
                              bm_container_path = (case target of Some t \<Rightarrow> recipe_path_str (sd_value t)
                                                   | None \<Rightarrow> ''/run/secrets/'' @ id_str),
                              bm_read_only = True \<rparr> # binds))))"

definition run_argv :: "BuildState \<Rightarrow> RunCommand \<Rightarrow> string list" where
  "run_argv st command =
     (case command of
        RunShell s \<Rightarrow> bs_current_shell st @ [bs_subst st (sd_value s)]
      | RunExec parts \<Rightarrow> map (\<lambda>p. bs_subst st (sd_value p)) parts)"

definition run_summary :: "RunCommand \<Rightarrow> string" where
  "run_summary command =
     ''RUN '' @ (case command of RunShell s \<Rightarrow> sd_value s | RunExec parts \<Rightarrow> join '' '' (map sd_value parts))"

definition apply_run ::
  "BuildCtx \<Rightarrow> node list \<Rightarrow> Run \<Rightarrow> nat \<Rightarrow> bool \<Rightarrow> store \<Rightarrow> BuildState \<Rightarrow>
     EngineBuildError + StepFlow \<times> store \<times> BuildState" where
  "apply_run ctx base_lowers run step_n lookup_cache S st =
     (let C = cx_codec ctx;
          argv = run_argv st (rn_command run);
          history_summary = run_summary (rn_command run);
          c = bs_container st
      in case secret_mounts (cx_secrets ctx) (rn_mounts run) of
           Inl e \<Rightarrow> Inl e
         | Inr (ids, binds) \<Rightarrow>
             (let key = run_cache_key C (oci_arch_string (cx_architecture ctx)) (media_type (bs_compression st))
                          (parent_state_hash C st) argv (cc_env c) (cc_working_dir c) (cc_user c) ids
              in case cached_layer C (sr_layout S) (sr_cache S) lookup_cache key of
                   Inl e \<Rightarrow> Inl e
                 | Inr (Some (layer, history_line)) \<Rightarrow>
                     Inr (Continue, S, adopt_cached_layer (cx_host ctx) layer history_line st)
                 | Inr None \<Rightarrow>
                     if bs_adopted_from_cache st then Inr (RebuildWithoutCache, S, st)
                     else
                       (case cx_run ctx (lower_stack st base_lowers)
                               \<lparr> rp_id = ''umf-build-step-'' @ show_nat step_n, rp_argv = argv, rp_env = cc_env c,
                                 rp_working_dir = cc_working_dir c, rp_user = cc_user c,
                                 rp_bind_mounts = binds \<rparr> of
                          Inl e \<Rightarrow> Inl (Engine e)
                        | Inr (exit_code, upper) \<Rightarrow>
                            if exit_code \<noteq> Some 0
                            then Inl (RunFailed (case exit_code of Some code \<Rightarrow> code | None \<Rightarrow> -1) history_summary)
                            else
                              (case fst (scrub_secret_mountpoints (map bm_container_path binds) (Some upper)) of
                                 None \<Rightarrow> Inl (Registry IoNotFound)
                               | Some upper' \<Rightarrow>
                                   (let (layer, st') = push_new_layer (cx_host ctx) upper' history_summary st
                                    in Inr (Continue,
                                            S \<lparr> sr_cache := store_layer_cache C key layer history_summary (sr_cache S) \<rparr>,
                                            st'))))))"


section \<open>ADD and COPY\<close>

fun plain_copy_rejected_kind :: "AddSource \<Rightarrow> string option" where
  "plain_copy_rejected_kind (AddUrl _) = Some ''a URL''"
| "plain_copy_rejected_kind (AddOci _) = Some ''an OCI image reference''"
| "plain_copy_rejected_kind (AddPath _) = None"

definition reject_traversal :: "string \<Rightarrow> string \<Rightarrow> EngineBuildError option" where
  "reject_traversal kind raw = (if has_parent_dir raw then Some (AddPathTraversal kind raw) else None)"

definition ensure_source_contained :: "source_tree \<Rightarrow> string list \<Rightarrow> bool" where
  "ensure_source_contained T canonical \<longleftrightarrow> prefix (sx_root T) canonical"

fun show_oct :: "nat \<Rightarrow> string" where
  "show_oct n = (if n < 8 then [digit_char n] else show_oct (n div 8) @ [digit_char (n mod 8)])"

declare show_oct.simps [simp del]

fun walk_entries :: "string list \<Rightarrow> (string \<times> node) list \<Rightarrow> (string list \<times> node) list" where
  "walk_entries pre [] = []"
| "walk_entries pre ((n, Dir es) # rest) =
     (pre @ [n], Dir es) # walk_entries (pre @ [n]) es @ walk_entries pre rest"
| "walk_entries pre ((n, k) # rest) = (pre @ [n], k) # walk_entries pre rest"

definition entry_bytes :: "(string list \<Rightarrow> nat) \<Rightarrow> string list \<Rightarrow> string list \<times> node \<Rightarrow> string" where
  "entry_bytes mode src e =
     (case e of (rel, n) \<Rightarrow>
        join ''/'' rel @ [NL] @ ''mode:'' @ show_oct (mode (src @ rel) mod 8 ^ 4) @ [NL] @
        (case n of File bytes \<Rightarrow> bytes | Symlink target \<Rightarrow> ''->'' @ target | Dir _ \<Rightarrow> []) @ [NL])"

definition add_source_digest ::
  "codec \<Rightarrow> (string list \<Rightarrow> nat) \<Rightarrow> string list \<Rightarrow> string option \<Rightarrow> node \<Rightarrow> string" where
  "add_source_digest C mode src name n =
     (case n of
        File bytes \<Rightarrow>
          cd_sha256 C (''file:'' @ or_empty name @ [NL] @ ''mode:'' @ show_oct (mode src mod 8 ^ 4) @ [NL] @ bytes)
      | Dir es \<Rightarrow>
          cd_sha256 C (concat (map (entry_bytes mode src) (sort_key fst (([], Dir es) # walk_entries [] es))))
      | Symlink _ \<Rightarrow> cd_sha256 C [])"

text \<open>Placing the source below a fresh upper directory.\<close>

definition place_copy :: "node \<Rightarrow> string list \<Rightarrow> io_error + node" where
  "place_copy src p =
     (case mkdir_p (Dir []) (butlast p) of
        Inl e \<Rightarrow> Inl e
      | Inr t \<Rightarrow>
          if p = [] then (case src of Dir _ \<Rightarrow> copy_dir_recursive src (Some t) | _ \<Rightarrow> Inl IsADirectory)
          else (case src of
                  Dir _ \<Rightarrow> (case copy_dir_recursive src (get t p) of Inl e \<Rightarrow> Inl e | Inr d \<Rightarrow> Inr (put t p d))
                | _ \<Rightarrow> Inr (put t p src)))"

definition package_and_cache_upper ::
  "BuildCtx \<Rightarrow> string \<Rightarrow> node \<Rightarrow> string \<Rightarrow> store \<Rightarrow> BuildState \<Rightarrow> store \<times> BuildState" where
  "package_and_cache_upper ctx key upper history_line S st =
     (let (layer, st') = push_new_layer (cx_host ctx) upper history_line st
      in (S \<lparr> sr_cache := store_layer_cache (cx_codec ctx) key layer history_line (sr_cache S) \<rparr>, st'))"

definition stage_copy_layer ::
  "BuildCtx \<Rightarrow> string \<Rightarrow> string option \<Rightarrow> node \<Rightarrow> string \<Rightarrow> string \<Rightarrow> store \<Rightarrow> BuildState \<Rightarrow>
     EngineBuildError + store \<times> BuildState" where
  "stage_copy_layer ctx key src_name src dst history_line S st =
     (let dst_inside = compute_add_destination dst src_name (is_dir (Some src))
      in case place_copy src (path_within_upper dst_inside) of
           Inl e \<Rightarrow> Inl (Io e)
         | Inr upper \<Rightarrow> Inr (package_and_cache_upper ctx key upper history_line S st))"

text \<open>Adopting a cached layer, or producing a new one.\<close>

definition or_adopt ::
  "BuildCtx \<Rightarrow> bool \<Rightarrow> string \<Rightarrow> store \<Rightarrow> BuildState \<Rightarrow> (EngineBuildError + store \<times> BuildState) \<Rightarrow>
     EngineBuildError + store \<times> BuildState" where
  "or_adopt ctx lookup_cache key S st produce =
     (case cached_layer (cx_codec ctx) (sr_layout S) (sr_cache S) lookup_cache key of
        Inl e \<Rightarrow> Inl e
      | Inr (Some (layer, history_line)) \<Rightarrow> Inr (S, adopt_cached_layer (cx_host ctx) layer history_line st)
      | Inr None \<Rightarrow> produce)"

text \<open>A source below \<open>T\<close>: it must exist and stay inside after links are resolved.\<close>

definition source_at :: "source_tree \<Rightarrow> string \<Rightarrow> string \<Rightarrow> EngineBuildError + string list \<times> string option \<times> node" where
  "source_at T shown src_path_str =
     (let p = path_within_upper src_path_str
      in case sx_resolve T p of
           None \<Rightarrow> Inl (AddSourceNotFound src_path_str shown)
         | Some (canonical, n) \<Rightarrow>
             if \<not> ensure_source_contained T canonical then Inl (Io PermissionDenied)
             else Inr (canonical, (if p = [] then sx_name T else Some (last p)), n))"

definition apply_add_local ::
  "BuildCtx \<Rightarrow> string \<Rightarrow> string \<Rightarrow> bool \<Rightarrow> string \<Rightarrow> store \<Rightarrow> BuildState \<Rightarrow> EngineBuildError + store \<times> BuildState" where
  "apply_add_local ctx src_path_str dst lookup_cache history_line S st =
     (case source_at (cx_context ctx) (cx_context_dir ctx) src_path_str of
        Inl e \<Rightarrow> Inl e
      | Inr (canonical, name, n) \<Rightarrow>
          (let C = cx_codec ctx;
               key = add_cache_key C (oci_arch_string (cx_architecture ctx)) (media_type (bs_compression st))
                       (parent_state_hash C st) (add_source_digest C (cx_mode ctx) canonical name n) dst
           in or_adopt ctx lookup_cache key S st (stage_copy_layer ctx key name n dst history_line S st)))"

definition apply_add_from_stage ::
  "BuildCtx \<Rightarrow> string \<Rightarrow> string \<Rightarrow> string \<Rightarrow> bool \<Rightarrow> string \<Rightarrow> store \<Rightarrow> BuildState \<Rightarrow>
     EngineBuildError + store \<times> BuildState" where
  "apply_add_from_stage ctx src_path_str dst from_stage lookup_cache history_line S st =
     (case cx_produced ctx from_stage of
        None \<Rightarrow> Inl (AddFromUnknownStage from_stage)
      | Some producer_ref \<Rightarrow>
          (case lookup_ref (sr_layout S) producer_ref of
             None \<Rightarrow> Inl (Registry (NotFound producer_ref))
           | Some producer \<Rightarrow>
               (let C = cx_codec ctx;
                    key = cross_stage_add_cache_key C (media_type (bs_compression st)) (parent_state_hash C st)
                            (ne_digest producer) src_path_str dst
                in or_adopt ctx lookup_cache key S st
                     (case cx_rootfs ctx (sr_layout S) producer_ref of
                        Inl e \<Rightarrow> Inl (Engine e)
                      | Inr (rootfs, _) \<Rightarrow>
                          (case source_at rootfs (''stage `'' @ from_stage @ ''` rootfs'') src_path_str of
                             Inl e \<Rightarrow> Inl e
                           | Inr (_, name, n) \<Rightarrow> stage_copy_layer ctx key name n dst history_line S st)))))"

definition apply_add_url ::
  "BuildCtx \<Rightarrow> string \<Rightarrow> string \<Rightarrow> bool \<Rightarrow> store \<Rightarrow> BuildState \<Rightarrow> EngineBuildError + store \<times> BuildState" where
  "apply_add_url ctx raw_url dst_raw lookup_cache S st =
     (let history_line = ''ADD '' @ raw_url @ '' '' @ dst_raw;
          url = bs_subst st raw_url;
          dst = bs_subst st dst_raw
      in case reject_traversal ''destination'' dst of
           Some e \<Rightarrow> Inl e
         | None \<Rightarrow>
             (case cx_fetched_urls ctx url of
                None \<Rightarrow> Inl (AddUrlFetchFailed url ''payload was not staged by the fetch phase'')
              | Some fetched \<Rightarrow>
                  (let C = cx_codec ctx;
                       key = url_add_cache_key C (media_type (bs_compression st)) (parent_state_hash C st)
                               (fu_digest fetched) dst;
                       format = sniff_format (fu_payload fetched)
                   in or_adopt ctx lookup_cache key S st
                        (if format = FmtSquashfs then Inl (AddUrlArchiveUnsupported url (Format_as_str format))
                         else if format = FmtUnknown then
                           (let dst_inside = (if ends_with dst ''/'' then dst @ url_leaf url else dst)
                            in case reject_traversal ''destination'' dst_inside of
                                 Some e \<Rightarrow> Inl e
                               | None \<Rightarrow>
                                   (case place_copy (File (fu_payload fetched)) (path_within_upper dst_inside) of
                                      Inl e \<Rightarrow> Inl (Io e)
                                    | Inr upper \<Rightarrow> Inr (package_and_cache_upper ctx key upper history_line S st)))
                         else
                           (case cx_unpack ctx format (fu_payload fetched) of
                              Inl detail \<Rightarrow> Inl (AddUrlExtractFailed url (Format_as_str format) detail)
                            | Inr tree \<Rightarrow>
                                (case mkdir_p (Dir []) (path_within_upper dst) of
                                   Inl e \<Rightarrow> Inl (Io e)
                                 | Inr t \<Rightarrow>
                                     (case copy_dir_recursive tree (get t (path_within_upper dst)) of
                                        Inl e \<Rightarrow> Inl (Io e)
                                      | Inr d \<Rightarrow>
                                          Inr (package_and_cache_upper ctx key (put t (path_within_upper dst) d)
                                                 history_line S st))))))))"

definition apply_add_oci_image ::
  "BuildCtx \<Rightarrow> string \<Rightarrow> string \<Rightarrow> bool \<Rightarrow> store \<Rightarrow> BuildState \<Rightarrow> EngineBuildError + store \<times> BuildState" where
  "apply_add_oci_image ctx image_ref_raw dst_raw lookup_cache S st =
     (let history_line = ''ADD '' @ image_ref_raw @ '' '' @ dst_raw;
          image_ref = bs_subst st image_ref_raw;
          dst = bs_subst st dst_raw
      in case reject_traversal ''destination'' dst of
           Some e \<Rightarrow> Inl e
         | None \<Rightarrow>
             (case cx_whole ctx image_ref of
                Inl detail \<Rightarrow> Inl (InvalidReference image_ref detail)
              | Inr canonical \<Rightarrow>
                  (case lookup_ref (sr_layout S) canonical of
                     None \<Rightarrow> Inl (Registry (NotFound canonical))
                   | Some entry \<Rightarrow>
                       (let C = cx_codec ctx;
                            key = oci_image_add_cache_key C (media_type (bs_compression st)) (parent_state_hash C st)
                                    (ne_digest entry) dst
                        in or_adopt ctx lookup_cache key S st
                             (case cx_rootfs ctx (sr_layout S) canonical of
                                Inl e \<Rightarrow> Inl (Engine e)
                              | Inr (_, tree) \<Rightarrow>
                                  (case contained_write_path (Dir []) dst of
                                     Inl e \<Rightarrow> Inl (Io e)
                                   | Inr (t, p) \<Rightarrow>
                                       (case copy_dir_recursive tree (get t p) of
                                          Inl e \<Rightarrow> Inl (Io e)
                                        | Inr d \<Rightarrow>
                                            Inr (package_and_cache_upper ctx key (put t p d) history_line S st))))))))"

definition apply_add ::
  "BuildCtx \<Rightarrow> Add \<Rightarrow> bool \<Rightarrow> store \<Rightarrow> BuildState \<Rightarrow> EngineBuildError + store \<times> BuildState" where
  "apply_add ctx add lookup_cache S st =
     (let raw_dst = recipe_path_str (sd_value (ad_destination add))
      in case (if ad_plain_copy add then plain_copy_rejected_kind (ad_source add) else None) of
           Some kind \<Rightarrow> Inl (CopyRemoteSource (AddSource_as_str (ad_source add)) kind)
         | None \<Rightarrow>
             (case ad_source add of
                AddUrl s \<Rightarrow> apply_add_url ctx (url_raw (sd_value s)) raw_dst lookup_cache S st
              | AddOci s \<Rightarrow> apply_add_oci_image ctx (oci_ref_str (sd_value s)) raw_dst lookup_cache S st
              | AddPath s \<Rightarrow>
                  (let raw_src = sd_value s;
                       src_path_str = bs_subst st raw_src;
                       dst = bs_subst st raw_dst;
                       verb = (if ad_plain_copy add then ''COPY'' else ''ADD'')
                   in case reject_traversal ''source'' src_path_str of
                        Some e \<Rightarrow> Inl e
                      | None \<Rightarrow>
                          (case reject_traversal ''destination'' dst of
                             Some e \<Rightarrow> Inl e
                           | None \<Rightarrow>
                               (case ad_from add of
                                  Some from \<Rightarrow>
                                    (let stage = stage_name_str (sd_value from)
                                     in apply_add_from_stage ctx src_path_str dst stage lookup_cache
                                          (verb @ '' --from='' @ stage @ '' '' @ raw_src @ '' '' @ raw_dst) S st)
                                | None \<Rightarrow>
                                    apply_add_local ctx src_path_str dst lookup_cache
                                      (verb @ '' '' @ raw_src @ '' '' @ raw_dst) S st)))))"


section \<open>One directive\<close>

definition continue_with :: "store \<Rightarrow> BuildState \<Rightarrow> EngineBuildError + StepFlow \<times> store \<times> BuildState" where
  "continue_with S st = Inr (Continue, S, st)"

fun apply_directive ::
  "BuildCtx \<Rightarrow> node list \<Rightarrow> Directive \<Rightarrow> nat \<Rightarrow> bool \<Rightarrow> store \<Rightarrow> BuildState \<Rightarrow>
     EngineBuildError + StepFlow \<times> store \<times> BuildState" where
  "apply_directive ctx lowers (DirRun run) step_n lookup_cache S st =
     apply_run ctx lowers run step_n lookup_cache S st"
| "apply_directive ctx lowers (DirAdd add) step_n lookup_cache S st =
     (case apply_add ctx add lookup_cache S st of Inl e \<Rightarrow> Inl e | Inr (S', st') \<Rightarrow> continue_with S' st')"
| "apply_directive ctx lowers (DirWorkdir wd) step_n lookup_cache S st =
     continue_with S (apply_workdir (cx_host ctx) wd st)"
| "apply_directive ctx lowers (DirUser u) step_n lookup_cache S st =
     continue_with S (apply_user (cx_host ctx) u st)"
| "apply_directive ctx lowers (DirEnv e) step_n lookup_cache S st =
     continue_with S (apply_env (cx_host ctx) e st)"
| "apply_directive ctx lowers (DirArg arg) step_n lookup_cache S st =
     continue_with S (apply_arg (cx_build_args ctx) arg st)"
| "apply_directive ctx lowers (DirShell s) step_n lookup_cache S st =
     continue_with S (apply_shell (cx_host ctx) s st)"
| "apply_directive ctx lowers (DirLabel l) step_n lookup_cache S st =
     continue_with S (apply_label (cx_host ctx) l st)"
| "apply_directive ctx lowers (DirEntrypoint ep) step_n lookup_cache S st =
     continue_with S (apply_entrypoint (cx_host ctx) (ep_init ep) st)"
| "apply_directive ctx lowers (DirExpose e) step_n lookup_cache S st =
     continue_with S (apply_expose (cx_host ctx) e st)"
| "apply_directive ctx lowers (DirCmd c) step_n lookup_cache S st =
     continue_with S (apply_cmd (cx_host ctx) c st)"
| "apply_directive ctx lowers (DirVolume v) step_n lookup_cache S st =
     continue_with S (apply_volume (cx_host ctx) v st)"
| "apply_directive ctx lowers (DirStopsignal s) step_n lookup_cache S st =
     continue_with S (apply_stopsignal (cx_host ctx) s st)"

end
