(* ===== verification/Build_Stage.thy ===== *)
theory Build_Stage
  imports Build_Steps
begin

text \<open>
  Building stages and whole recipes, \<open>crates/umf-builder/src/engine_build/mod.rs\<close> and \<open>base_image.rs\<close>: the
  pre-flight check of cross-stage references, the prefetch of URL payloads, the base image, the directive
  walk with its at most one rebuild, and the stage loop.  The registry client, the bundles and the hook are
  the function fields of \<open>engine\<close>; a JSON document is a value of \<open>json\<close>, the decoder a parameter.
\<close>

section \<open>Cross-stage references\<close>

definition stage_name_of :: "Stage \<Rightarrow> string option" where
  "stage_name_of s = map_option (\<lambda>n. stage_name_str (sd_value n)) (st_name s)"

fun add_from :: "Directive \<Rightarrow> string option" where
  "add_from (DirAdd add) = map_option (\<lambda>n. stage_name_str (sd_value n)) (ad_from add)"
| "add_from _ = None"

fun check_directives ::
  "string set \<Rightarrow> string option \<Rightarrow> string option list \<Rightarrow> Directive list \<Rightarrow> EngineBuildError option" where
  "check_directives seen self later [] = None"
| "check_directives seen self later (d # ds) =
     (case add_from d of
        None \<Rightarrow> check_directives seen self later ds
      | Some target \<Rightarrow>
          if target \<in> seen then check_directives seen self later ds
          else Some (if self = Some target then AddFromSelf target
                     else if Some target \<in> set later then AddFromForwardReference target
                     else AddFromUnknownStage target))"

fun check_stages :: "string set \<Rightarrow> Stage list \<Rightarrow> EngineBuildError option" where
  "check_stages seen [] = None"
| "check_stages seen (s # stages) =
     (case check_directives seen (stage_name_of s) (map stage_name_of stages) (st_directives s) of
        Some e \<Rightarrow> Some e
      | None \<Rightarrow> check_stages (case stage_name_of s of Some n \<Rightarrow> insert n seen | None \<Rightarrow> seen) stages)"

definition check_cross_stage_refs :: "Ast \<Rightarrow> EngineBuildError option" where
  "check_cross_stage_refs ast = check_stages {} (ast_stages ast)"


section \<open>Prefetching URL payloads\<close>

text \<open>\<open>fetch\<close> is \<open>fetch_url\<close> under the policy and the network of the host.\<close>

type_synonym fetcher = "string \<Rightarrow> EngineBuildError + FetchedUrl"

fun prefetch_stage ::
  "fetcher \<Rightarrow> scope \<Rightarrow> Directive list \<Rightarrow> scope \<Rightarrow> (string \<rightharpoonup> FetchedUrl) \<Rightarrow> EngineBuildError + (string \<rightharpoonup> FetchedUrl)" where
  "prefetch_stage fetch build_args [] stage_args fetched = Inr fetched"
| "prefetch_stage fetch build_args (DirArg arg # ds) stage_args fetched =
     prefetch_stage fetch build_args ds (apply_arg_to_scope build_args arg stage_args) fetched"
| "prefetch_stage fetch build_args (DirAdd add # ds) stage_args fetched =
     (case (ad_plain_copy add, ad_source add) of
        (False, AddUrl s) \<Rightarrow>
          (let url = subst_with stage_args (url_raw (sd_value s))
           in if fetched url \<noteq> None then prefetch_stage fetch build_args ds stage_args fetched
              else case fetch url of
                     Inl e \<Rightarrow> Inl e
                   | Inr f \<Rightarrow> prefetch_stage fetch build_args ds stage_args (fetched(url \<mapsto> f)))
      | _ \<Rightarrow> prefetch_stage fetch build_args ds stage_args fetched)"
| "prefetch_stage fetch build_args (d # ds) stage_args fetched =
     prefetch_stage fetch build_args ds stage_args fetched"

fun prefetch ::
  "fetcher \<Rightarrow> scope \<Rightarrow> scope \<Rightarrow> Stage list \<Rightarrow> (string \<rightharpoonup> FetchedUrl) \<Rightarrow> EngineBuildError + (string \<rightharpoonup> FetchedUrl)" where
  "prefetch fetch build_args globals [] fetched = Inr fetched"
| "prefetch fetch build_args globals (s # stages) fetched =
     (case prefetch_stage fetch build_args (st_directives s) globals fetched of
        Inl e \<Rightarrow> Inl e
      | Inr fetched' \<Rightarrow> prefetch fetch build_args globals stages fetched')"


section \<open>Base images\<close>

datatype json = JNull | JBool bool | JNum int | JStr string | JArr "json list" | JObj "(string \<times> json) list"

definition jget :: "string \<Rightarrow> json \<Rightarrow> json option" where
  "jget k j = (case j of JObj kvs \<Rightarrow> map_of kvs k | _ \<Rightarrow> None)"

definition as_str :: "json \<Rightarrow> string option" where
  "as_str j = (case j of JStr s \<Rightarrow> Some s | _ \<Rightarrow> None)"

definition as_array :: "json \<Rightarrow> json list option" where
  "as_array j = (case j of JArr xs \<Rightarrow> Some xs | _ \<Rightarrow> None)"

definition as_object :: "json \<Rightarrow> (string \<times> json) list option" where
  "as_object j = (case j of JObj kvs \<Rightarrow> Some kvs | _ \<Rightarrow> None)"

definition jstrings :: "string \<Rightarrow> json \<Rightarrow> string list option" where
  "jstrings k j = map_option (List.map_filter as_str) (Option.bind (jget k j) as_array)"

definition jnonempty :: "string \<Rightarrow> json \<Rightarrow> string option" where
  "jnonempty k j = (case Option.bind (jget k j) as_str of Some (c # s) \<Rightarrow> Some (c # s) | _ \<Rightarrow> None)"

definition jargv :: "string \<Rightarrow> json \<Rightarrow> string list option" where
  "jargv k j = (case jstrings k j of Some (a # argv) \<Rightarrow> Some (a # argv) | _ \<Rightarrow> None)"

definition jlabels :: "json \<Rightarrow> (string \<rightharpoonup> string)" where
  "jlabels j =
     (case Option.bind (jget ''Labels'' j) as_object of
        None \<Rightarrow> Map.empty
      | Some kvs \<Rightarrow> fold (\<lambda>(k, v) out. case as_str v of Some s \<Rightarrow> out(k \<mapsto> s) | None \<Rightarrow> out) kvs Map.empty)"

definition image_config_from_raw :: "json \<Rightarrow> Architecture \<Rightarrow> ImageConfig" where
  "image_config_from_raw raw architecture =
     \<lparr> ic_architecture = oci_arch_string architecture,
       ic_os = (case Option.bind (jget ''os'' raw) as_str of Some s \<Rightarrow> s | None \<Rightarrow> ''linux''),
       ic_created = None, ic_author = None,
       ic_container =
         (case jget ''config'' raw of
            None \<Rightarrow> ContainerConfig_default
          | Some cfg \<Rightarrow>
              ContainerConfig_default
                \<lparr> cc_env := (case jstrings ''Env'' cfg of Some env \<Rightarrow> env | None \<Rightarrow> []),
                  cc_entrypoint := jargv ''Entrypoint'' cfg,
                  cc_cmd := jargv ''Cmd'' cfg,
                  cc_working_dir := jnonempty ''WorkingDir'' cfg,
                  cc_user := jnonempty ''User'' cfg,
                  cc_labels := jlabels cfg \<rparr>),
       ic_history = [], ic_umf_type = L0Container, ic_umf_spec = None \<rparr>"

definition extract_diff_ids :: "json \<Rightarrow> string list" where
  "extract_diff_ids raw =
     (case Option.bind (jget ''rootfs'' raw) (jstrings ''diff_ids'') of Some ids \<Rightarrow> ids | None \<Rightarrow> [])"

definition scratch_base_image :: "Architecture \<Rightarrow> BaseImage" where
  "scratch_base_image architecture =
     \<lparr> ba_layers = [], ba_config = ImageConfig_default \<lparr> ic_architecture := oci_arch_string architecture \<rparr> \<rparr>"

text \<open>The documents a base image is read from, as the library decodes them.\<close>

record LayerRef =
  lr_media_type :: string
  lr_digest :: string

record BaseManifest =
  bm_config :: string
  bm_layers :: "LayerRef list"

datatype BaseDoc = BaseImageDoc BaseManifest | BaseIndexDoc "(string, string) ImageIndexEntry list"

record engine =
  eg_doc :: "string \<Rightarrow> BaseDoc option"
  eg_manifest :: "string \<Rightarrow> BaseManifest option"
  eg_json :: "string \<Rightarrow> json option"
  eg_decode :: "string \<Rightarrow> string option"
  eg_pull :: "string \<Rightarrow> layout \<Rightarrow> RegistryError option \<times> layout"
  eg_search :: SearchRegistries
  eg_bundle :: "layout \<Rightarrow> string \<Rightarrow> EngineError + node list"
  eg_scratch :: "EngineError + node list"
  eg_encoder :: encoder
  eg_linux :: string
  eg_arch_from :: "string \<Rightarrow> string"
  eg_runtime :: "EngineBuildError option"
  eg_file_exists :: "string \<Rightarrow> bool"
  eg_env :: "string \<Rightarrow> string option"
  eg_tmp :: "nat \<Rightarrow> string"
  eg_net :: net
  eg_policy :: EgressPolicy

fun base_layers ::
  "codec \<Rightarrow> (string \<Rightarrow> string option) \<Rightarrow> (LayerCompression \<Rightarrow> string \<Rightarrow> string) \<Rightarrow> LayerCompression \<Rightarrow> layout \<Rightarrow>
     (LayerRef \<times> string) list \<Rightarrow> EngineBuildError + LayerSource list" where
  "base_layers C decode compress compression L [] = Inr []"
| "base_layers C decode compress compression L ((descriptor, diff_id) # rest) =
     (case read_blob C L (lr_digest descriptor) of
        Inl e \<Rightarrow> Inl (Registry e)
      | Inr blob \<Rightarrow>
          (case normalized C decode compress compression
                  \<lparr> ls_data = blob, ls_media_type = lr_media_type descriptor, ls_diff_id = diff_id \<rparr> of
             Inl e \<Rightarrow> Inl (Registry e)
           | Inr layer \<Rightarrow>
               (case base_layers C decode compress compression L rest of
                  Inl e \<Rightarrow> Inl e
                | Inr layers \<Rightarrow> Inr (layer # layers))))"

text \<open>The manifest of a reference for an architecture, and whether its architecture is still unverified.\<close>

definition base_manifest ::
  "codec \<Rightarrow> engine \<Rightarrow> layout \<Rightarrow> string \<Rightarrow> Architecture \<Rightarrow> EngineBuildError + BaseManifest \<times> bool" where
  "base_manifest C G L ref_name architecture =
     (case lookup_ref L ref_name of
        None \<Rightarrow> Inl (Registry (NotFound ref_name))
      | Some entry \<Rightarrow>
          (case read_blob C L (ne_digest entry) of
             Inl e \<Rightarrow> Inl (Registry e)
           | Inr bytes \<Rightarrow>
               (case eg_doc G bytes of
                  None \<Rightarrow> Inl (Json ref_name)
                | Some (BaseImageDoc m) \<Rightarrow> Inr (m, True)
                | Some (BaseIndexDoc manifests) \<Rightarrow>
                    (case select_for_arch (eg_linux G) (eg_arch_from G) manifests architecture of
                       None \<Rightarrow> Inl (NoManifestForPlatform (oci_arch_string architecture))
                     | Some chosen \<Rightarrow>
                         (case read_blob C L (ie_digest chosen) of
                            Inl e \<Rightarrow> Inl (Registry e)
                          | Inr child \<Rightarrow>
                              (case eg_manifest G child of
                                 None \<Rightarrow> Inl (Json ref_name)
                               | Some m \<Rightarrow> Inr (m, False)))))))"

definition resolve_base_image ::
  "host \<Rightarrow> engine \<Rightarrow> layout \<Rightarrow> string \<Rightarrow> Architecture \<Rightarrow> LayerCompression \<Rightarrow> EngineBuildError + BaseImage" where
  "resolve_base_image H G L ref_name architecture compression =
     (case base_manifest (ho_codec H) G L ref_name architecture of
        Inl e \<Rightarrow> Inl e
      | Inr (manifest, arch_unverified) \<Rightarrow>
          (case read_blob (ho_codec H) L (bm_config manifest) of
             Inl e \<Rightarrow> Inl (Registry e)
           | Inr config_bytes \<Rightarrow>
               (case eg_json G config_bytes of
                  None \<Rightarrow> Inl (Json ref_name)
                | Some raw \<Rightarrow>
                    (let found = Option.bind (jget ''architecture'' raw) as_str;
                         want = oci_arch_string architecture;
                         diff_ids = extract_diff_ids raw
                     in if arch_unverified \<and> found \<noteq> None \<and> found \<noteq> Some want
                        then Inl (BaseImageArchMismatch ref_name want (the found))
                        else if length diff_ids \<noteq> length (bm_layers manifest)
                        then Inl (BaseImageLayerCountMismatch (length (bm_layers manifest)) (length diff_ids))
                        else case base_layers (ho_codec H) (eg_decode G) (ho_compress H) compression L
                                    (zip (bm_layers manifest) diff_ids) of
                               Inl e \<Rightarrow> Inl e
                             | Inr layers \<Rightarrow>
                                 Inr \<lparr> ba_layers = layers, ba_config = image_config_from_raw raw architecture \<rparr>))))"

fun pull_candidates ::
  "BuildCtx \<Rightarrow> engine \<Rightarrow> string \<Rightarrow> string list \<Rightarrow> EngineBuildError option \<Rightarrow> layout \<Rightarrow>
     EngineBuildError + string \<times> layout" where
  "pull_candidates ctx G ref_name [] last_err L =
     Inl (case last_err of Some e \<Rightarrow> e | None \<Rightarrow> InvalidReference ref_name ''no resolvable candidate'')"
| "pull_candidates ctx G ref_name (candidate # candidates) last_err L =
     (case cx_whole ctx candidate of
        Inl _ \<Rightarrow> pull_candidates ctx G ref_name candidates last_err L
      | Inr canonical \<Rightarrow>
          if lookup_ref L canonical \<noteq> None then Inr (canonical, L)
          else (case eg_pull G canonical L of
                  (None, L') \<Rightarrow> Inr (canonical, L')
                | (Some e, L') \<Rightarrow> pull_candidates ctx G ref_name candidates (Some (Registry e)) L'))"

definition pull_into_layout :: "BuildCtx \<Rightarrow> engine \<Rightarrow> string \<Rightarrow> layout \<Rightarrow> EngineBuildError + string \<times> layout" where
  "pull_into_layout ctx G ref_name L =
     (case cx_whole ctx ref_name of
        Inl detail \<Rightarrow> Inl (InvalidReference ref_name detail)
      | Inr _ \<Rightarrow> pull_candidates ctx G ref_name (resolution_candidates ref_name (eg_search G)) None L)"

fun prepull :: "BuildCtx \<Rightarrow> engine \<Rightarrow> Directive list \<Rightarrow> scope \<Rightarrow> layout \<Rightarrow> EngineBuildError + layout" where
  "prepull ctx G [] args L = Inr L"
| "prepull ctx G (DirArg arg # ds) args L =
     prepull ctx G ds (apply_arg_to_scope (cx_build_args ctx) arg args) L"
| "prepull ctx G (DirAdd add # ds) args L =
     (case (ad_plain_copy add, ad_source add) of
        (False, AddOci s) \<Rightarrow>
          (case pull_into_layout ctx G (subst_with args (oci_ref_str (sd_value s))) L of
             Inl e \<Rightarrow> Inl e
           | Inr (_, L') \<Rightarrow> prepull ctx G ds args L')
      | _ \<Rightarrow> prepull ctx G ds args L)"
| "prepull ctx G (d # ds) args L = prepull ctx G ds args L"


section \<open>One stage\<close>

record StepInfo =
  sf_stage_index :: nat
  sf_stage_total :: nat
  sf_step_index :: nat
  sf_step_total :: nat
  sf_kind :: StepKind
  sf_description :: string

text \<open>The hook's answer, \<open>True\<close> for abort, may differ between the two attempts at a stage.\<close>

type_synonym hook = "bool \<Rightarrow> StepInfo \<Rightarrow> bool"

definition step_info :: "nat \<Rightarrow> nat \<Rightarrow> nat \<Rightarrow> nat \<Rightarrow> Directive \<Rightarrow> StepInfo" where
  "step_info stage_index stage_total step_n step_total d =
     \<lparr> sf_stage_index = stage_index, sf_stage_total = stage_total, sf_step_index = step_n,
       sf_step_total = step_total, sf_kind = classify_directive d, sf_description = describe_directive d \<rparr>"

fun walk_directives ::
  "BuildCtx \<Rightarrow> node list \<Rightarrow> hook option \<Rightarrow> nat \<Rightarrow> nat \<Rightarrow> nat \<Rightarrow> bool \<Rightarrow> nat \<Rightarrow> Directive list \<Rightarrow> store \<Rightarrow> BuildState \<Rightarrow>
     EngineBuildError + StepFlow \<times> store \<times> BuildState" where
  "walk_directives ctx lowers hk si stot tot lookup_cache step_n [] S st = Inr (Continue, S, st)"
| "walk_directives ctx lowers hk si stot tot lookup_cache step_n (d # ds) S st =
     (if (case hk of Some h \<Rightarrow> h lookup_cache (step_info si stot (step_n + 1) tot d) | None \<Rightarrow> False)
      then Inl (Engine (BuildAborted si (step_n + 1)))
      else case apply_directive ctx lowers d (step_n + 1) lookup_cache S st of
             Inl e \<Rightarrow> Inl e
           | Inr (RebuildWithoutCache, S', st') \<Rightarrow> Inr (RebuildWithoutCache, S', st')
           | Inr (Continue, S', st') \<Rightarrow>
               walk_directives ctx lowers hk si stot tot lookup_cache (step_n + 1) ds S' st')"

definition stage_base ::
  "BuildCtx \<Rightarrow> engine \<Rightarrow> bool \<Rightarrow> string \<Rightarrow> layout \<Rightarrow> EngineBuildError + BaseImage \<times> node list" where
  "stage_base ctx G scratch canonical_from L =
     (if scratch
      then (case eg_scratch G of
              Inl e \<Rightarrow> Inl (Engine e)
            | Inr lowers \<Rightarrow> Inr (scratch_base_image (cx_architecture ctx), lowers))
      else (case resolve_base_image (cx_host ctx) G L canonical_from (cx_architecture ctx) (cx_compression ctx) of
              Inl e \<Rightarrow> Inl e
            | Inr base \<Rightarrow>
                (case eg_bundle G L canonical_from of
                   Inl e \<Rightarrow> Inl (Engine e)
                 | Inr lowers \<Rightarrow> Inr (base, lowers))))"

partial_function (option) stage_attempts ::
  "BuildCtx \<Rightarrow> engine \<Rightarrow> hook option \<Rightarrow> nat \<Rightarrow> nat \<Rightarrow> bool \<Rightarrow> string \<Rightarrow> Directive list \<Rightarrow> bool \<Rightarrow> store \<Rightarrow>
     (EngineBuildError + store \<times> BuildState) option" where
  "stage_attempts ctx G hk si stot scratch canonical_from directives lookup_cache S =
     (case stage_base ctx G scratch canonical_from (sr_layout S) of
        Inl e \<Rightarrow> Some (Inl e)
      | Inr base_lowers \<Rightarrow>
          (case walk_directives ctx (snd base_lowers) hk si stot (min (length directives) (2 ^ 32 - 1)) lookup_cache 0
                  directives S (BuildState_new (fst base_lowers) (cx_compression ctx) (cx_globals ctx)) of
             Inl e \<Rightarrow> Some (Inl e)
           | Inr r \<Rightarrow>
               if fst r = RebuildWithoutCache
               then stage_attempts ctx G hk si stot scratch canonical_from directives False (fst (snd r))
               else Some (Inr (fst (snd r), snd (snd r)))))"

definition from_reference :: "BuildCtx \<Rightarrow> Stage \<Rightarrow> string" where
  "from_reference ctx stage =
     (case fr_source (st_from stage) of
        Scratch \<Rightarrow> ''scratch''
      | Reference s \<Rightarrow> substitute (oci_ref_str (sd_value s)) (cx_globals ctx))"

definition is_scratch :: "Stage \<Rightarrow> bool" where
  "is_scratch stage = (case fr_source (st_from stage) of Scratch \<Rightarrow> True | Reference _ \<Rightarrow> False)"

definition build_one_stage ::
  "BuildCtx \<Rightarrow> engine \<Rightarrow> hook option \<Rightarrow> Stage \<Rightarrow> string \<Rightarrow> nat \<Rightarrow> nat \<Rightarrow> store \<Rightarrow>
     (EngineBuildError + IndexEntry \<times> store) option" where
  "build_one_stage ctx G hk stage stage_ref stage_index stage_total S =
     (case (if is_scratch stage then Inr (''scratch'', sr_layout S)
            else pull_into_layout ctx G (from_reference ctx stage) (sr_layout S)) of
        Inl e \<Rightarrow> Some (Inl e)
      | Inr (canonical_from, L1) \<Rightarrow>
          (case prepull ctx G (st_directives stage) (cx_globals ctx) L1 of
             Inl e \<Rightarrow> Some (Inl e)
           | Inr L2 \<Rightarrow>
               (case stage_attempts ctx G hk stage_index stage_total (is_scratch stage) canonical_from
                       (st_directives stage) True (S \<lparr> sr_layout := L2 \<rparr>) of
                  None \<Rightarrow> None
                | Some (Inl e) \<Rightarrow> Some (Inl e)
                | Some (Inr (S', st)) \<Rightarrow>
                    (case emit_image (cx_codec ctx) (eg_encoder G) (assemble_layer_chain st) (finalise_image_config st)
                            stage_ref (sr_layout S') of
                       Inl e \<Rightarrow> Some (Inl (Registry e))
                     | Inr (entry, L3) \<Rightarrow> Some (Inr (entry, S' \<lparr> sr_layout := L3 \<rparr>))))))"


section \<open>All stages\<close>

definition internal_ref :: "nat \<Rightarrow> string" where
  "internal_ref i = ''umf-build/stage-'' @ show_nat i @ '':internal''"

definition remember :: "Stage \<Rightarrow> string \<Rightarrow> (string \<rightharpoonup> string) \<Rightarrow> (string \<rightharpoonup> string)" where
  "remember stage stage_ref produced =
     (case stage_name_of stage of Some n \<Rightarrow> produced(n \<mapsto> stage_ref) | None \<Rightarrow> produced)"

fun build_stages ::
  "BuildCtx \<Rightarrow> engine \<Rightarrow> hook option \<Rightarrow> (nat \<Rightarrow> string) \<Rightarrow> nat \<Rightarrow> nat \<Rightarrow> Stage list \<Rightarrow> (string \<rightharpoonup> string) \<Rightarrow>
     IndexEntry option \<Rightarrow> store \<Rightarrow> (EngineBuildError + (string \<rightharpoonup> string) \<times> IndexEntry option \<times> store) option" where
  "build_stages ctx G hk ref_of stage_total i [] produced last_entry S = Some (Inr (produced, last_entry, S))"
| "build_stages ctx G hk ref_of stage_total i (stage # stages) produced last_entry S =
     (case build_one_stage (ctx \<lparr> cx_produced := produced \<rparr>) G hk stage (ref_of i) (i + 1) stage_total S of
        None \<Rightarrow> None
      | Some (Inl e) \<Rightarrow> Some (Inl e)
      | Some (Inr (entry, S')) \<Rightarrow>
          build_stages ctx G hk ref_of stage_total (i + 1) stages (remember stage (ref_of i) produced) (Some entry) S')"

text \<open>
  \<open>prepare_staged_build\<close>: the pre-flight check, the runtime (\<open>eg_runtime\<close> is its failure, if it cannot be
  created), the secrets, and the prefetch.
\<close>

definition prepare_staged_build ::
  "BuildCtx \<Rightarrow> engine \<Rightarrow> SecretInput list \<Rightarrow> Ast \<Rightarrow> Stage list \<Rightarrow>
     EngineBuildError + ResolvedSecrets \<times> (string \<rightharpoonup> FetchedUrl)" where
  "prepare_staged_build ctx G inputs ast fetch_stages =
     (case check_cross_stage_refs ast of
        Some e \<Rightarrow> Inl e
      | None \<Rightarrow>
          (case eg_runtime G of
             Some e \<Rightarrow> Inl e
           | None \<Rightarrow>
               (case resolve_secrets (eg_file_exists G) (eg_env G) (eg_tmp G) inputs
                       \<lparr> rv_tempfiles = [], rv_by_id = Map.empty \<rparr> of
                  Inl e \<Rightarrow> Inl e
                | Inr secrets \<Rightarrow>
                    (case prefetch (\<lambda>url. snd (fetch_url (cx_codec ctx) (eg_net G) (eg_policy G) url))
                            (cx_build_args ctx) (resolve_global_args (cx_build_args ctx) ast) fetch_stages
                            Map.empty of
                       Inl e \<Rightarrow> Inl e
                     | Inr fetched \<Rightarrow> Inr (secrets, fetched)))))"

definition ctx_for :: "BuildCtx \<Rightarrow> Ast \<Rightarrow> ResolvedSecrets \<Rightarrow> (string \<rightharpoonup> FetchedUrl) \<Rightarrow> BuildCtx" where
  "ctx_for ctx ast sec fetched =
     ctx \<lparr> cx_secrets := sec, cx_fetched_urls := fetched, cx_produced := Map.empty,
           cx_globals := resolve_global_args (cx_build_args ctx) ast \<rparr>"

definition build ::
  "BuildCtx \<Rightarrow> engine \<Rightarrow> SecretInput list \<Rightarrow> hook option \<Rightarrow> Ast \<Rightarrow> string \<Rightarrow> store \<Rightarrow>
     (EngineBuildError + IndexEntry \<times> store) option" where
  "build ctx G inputs hk ast final_ref S =
     (if ast_stages ast = [] then Some (Inl (Engine (EngineRuntime ''AST has no stages'')))
      else case prepare_staged_build ctx G inputs ast (ast_stages ast) of
             Inl e \<Rightarrow> Some (Inl e)
           | Inr (sec, fetched) \<Rightarrow>
               (let stage_total = length (ast_stages ast)
                in case build_stages (ctx_for ctx ast sec fetched) G hk
                          (\<lambda>i. if i + 1 = stage_total then final_ref else internal_ref i) stage_total 0 (ast_stages ast)
                          Map.empty None S of
                     None \<Rightarrow> None
                   | Some (Inl e) \<Rightarrow> Some (Inl e)
                   | Some (Inr (_, Some entry, S')) \<Rightarrow> Some (Inr (entry, S'))
                   | Some (Inr (_, None, S')) \<Rightarrow> Some (Inl (Engine (EngineRuntime ''no stages built'')))))"

definition build_single_stage ::
  "BuildCtx \<Rightarrow> engine \<Rightarrow> SecretInput list \<Rightarrow> hook option \<Rightarrow> Ast \<Rightarrow> string \<Rightarrow> store \<Rightarrow>
     (EngineBuildError + IndexEntry \<times> store) option" where
  "build_single_stage ctx G inputs hk ast final_ref S =
     (if length (ast_stages ast) > 1 then Some (Inl MultiStageNotSupported)
      else build ctx G inputs hk ast final_ref S)"

text \<open>The guard of \<open>build_container_stages\<close>: pull and inspect every non-final base, as written in the recipe.\<close>

fun nested_bootable_guard ::
  "BuildCtx \<Rightarrow> engine \<Rightarrow> (layout \<Rightarrow> string \<Rightarrow> bool) \<Rightarrow> nat \<Rightarrow> Stage list \<Rightarrow> layout \<Rightarrow> EngineBuildError + layout" where
  "nested_bootable_guard ctx G is_kernel_ref i [] L = Inr L"
| "nested_bootable_guard ctx G is_kernel_ref i (stage # stages) L =
     (case fr_source (st_from stage) of
        Scratch \<Rightarrow> nested_bootable_guard ctx G is_kernel_ref (i + 1) stages L
      | Reference s \<Rightarrow>
          (case pull_into_layout ctx G (oci_ref_str (sd_value s)) L of
             Inl e \<Rightarrow> Inl e
           | Inr (canonical, L') \<Rightarrow>
               if is_kernel_ref L' canonical then Inl (NestedBootableStage i (oci_ref_str (sd_value s)))
               else nested_bootable_guard ctx G is_kernel_ref (i + 1) stages L'))"

definition build_container_stages ::
  "BuildCtx \<Rightarrow> engine \<Rightarrow> (layout \<Rightarrow> string \<Rightarrow> bool) \<Rightarrow> SecretInput list \<Rightarrow> hook option \<Rightarrow>
     Ast \<Rightarrow> store \<Rightarrow> (EngineBuildError + (string \<rightharpoonup> string) \<times> store) option" where
  "build_container_stages ctx G is_kernel_ref inputs hk ast S =
     (let stage_total = length (ast_stages ast); container_stages = butlast (ast_stages ast)
      in if stage_total \<le> 1 then Some (Inr (Map.empty, S))
         else case nested_bootable_guard ctx G is_kernel_ref 0 container_stages (sr_layout S) of
                Inl e \<Rightarrow> Some (Inl e)
              | Inr L \<Rightarrow>
                  (case prepare_staged_build ctx G inputs ast container_stages of
                     Inl e \<Rightarrow> Some (Inl e)
                   | Inr (sec, fetched) \<Rightarrow>
                       (case build_stages (ctx_for ctx ast sec fetched) G hk internal_ref stage_total 0 container_stages
                               Map.empty None (S \<lparr> sr_layout := L \<rparr>) of
                          None \<Rightarrow> None
                        | Some (Inl e) \<Rightarrow> Some (Inl e)
                        | Some (Inr (produced, _, S')) \<Rightarrow> Some (Inr (produced, S')))))"

end
