(* ===== verification/Build_Laws.thy ===== *)
theory Build_Laws
  imports Build_Stage
begin

text \<open>
  Laws of the build: how one directive changes the state of a stage, what holds of every state a stage
  reaches, which value an \<open>ARG\<close> has, that the pre-flight checks decide what they are meant to, and that a
  build always returns.
\<close>

named_theorems step_simps \<open>how the operations of a step change the fields of the state\<close>

section \<open>Fields of the state\<close>

abbreviation "bs_history st \<equiv> ic_history (bs_image_config st)"

definition pack :: "host \<Rightarrow> LayerCompression \<Rightarrow> node \<Rightarrow> LayerSource" where
  "pack H z u = from_directory_with (ho_codec H) (ho_tar H) (ho_compress H) u z"

lemma with_container_fields [step_simps]:
  "bs_history (with_container f st) = bs_history st"
  "bs_base_layers (with_container f st) = bs_base_layers st"
  "bs_new_layers (with_container f st) = bs_new_layers st"
  "bs_upper_guards (with_container f st) = bs_upper_guards st"
  "bs_adopted_from_cache (with_container f st) = bs_adopted_from_cache st"
  "bs_compression (with_container f st) = bs_compression st"
  "bs_arg_scope (with_container f st) = bs_arg_scope st"
  by (simp_all add: with_container_def)

lemma push_history_fields [step_simps]:
  "bs_base_layers (push_history H h e st) = bs_base_layers st"
  "bs_new_layers (push_history H h e st) = bs_new_layers st"
  "bs_upper_guards (push_history H h e st) = bs_upper_guards st"
  "bs_adopted_from_cache (push_history H h e st) = bs_adopted_from_cache st"
  "bs_compression (push_history H h e st) = bs_compression st"
  "bs_arg_scope (push_history H h e st) = bs_arg_scope st"
  by (simp_all add: push_history_def Let_def)

lemma push_history_appends [step_simps]:
  "map he_created_by (bs_history (push_history H h e st)) = map he_created_by (bs_history st) @ [Some h]"
  "map he_empty_layer (bs_history (push_history H h e st)) = map he_empty_layer (bs_history st) @ [e]"
  by (simp_all add: push_history_def Let_def)

lemma add_volumes_fields [step_simps]:
  "bs_history (add_volumes st ps) = bs_history st"
  "bs_base_layers (add_volumes st ps) = bs_base_layers st"
  "bs_new_layers (add_volumes st ps) = bs_new_layers st"
  "bs_upper_guards (add_volumes st ps) = bs_upper_guards st"
  "bs_adopted_from_cache (add_volumes st ps) = bs_adopted_from_cache st"
  "bs_compression (add_volumes st ps) = bs_compression st"
  "bs_arg_scope (add_volumes st ps) = bs_arg_scope st"
  by (induction st ps rule: add_volumes.induct) (simp_all add: Let_def step_simps)


section \<open>What a step does to the layers\<close>

text \<open>
  A step keeps the layers, captures one upper directory, or adopts one cached layer; the history line it
  records is \<open>line\<close>, if any.
\<close>

definition same_frame :: "BuildState \<Rightarrow> BuildState \<Rightarrow> bool" where
  "same_frame st st' \<longleftrightarrow>
     bs_base_layers st' = bs_base_layers st \<and> bs_compression st' = bs_compression st"

definition records :: "string list \<Rightarrow> bool \<Rightarrow> BuildState \<Rightarrow> BuildState \<Rightarrow> bool" where
  "records ls e st st' \<longleftrightarrow>
     map he_created_by (bs_history st') = map he_created_by (bs_history st) @ map Some ls \<and>
     map he_empty_layer (bs_history st') = map he_empty_layer (bs_history st) @ map (\<lambda>_. e) ls"

inductive layer_step :: "host \<Rightarrow> string list \<Rightarrow> BuildState \<Rightarrow> BuildState \<Rightarrow> bool" for H ls st st' where
  kept: "layer_step H ls st st'"
    if "same_frame st st'" and "records ls True st st'" and "bs_new_layers st' = bs_new_layers st"
      and "bs_upper_guards st' = bs_upper_guards st" and "bs_adopted_from_cache st' = bs_adopted_from_cache st"
| captured: "layer_step H ls st st'"
    if "same_frame st st'" and "records ls False st st'" and "length ls = 1"
      and "bs_new_layers st' = bs_new_layers st @ [pack H (bs_compression st) u]"
      and "bs_upper_guards st' = bs_upper_guards st @ [u]"
      and "bs_adopted_from_cache st' = bs_adopted_from_cache st"
| adopted: "layer_step H ls st st'"
    if "same_frame st st'" and "records [h] False st st'"
      and "bs_new_layers st' = bs_new_layers st @ [l]"
      and "bs_upper_guards st' = bs_upper_guards st" and "bs_adopted_from_cache st'"

lemma layer_step_meta:
  assumes "bs_base_layers st' = bs_base_layers st" and "bs_compression st' = bs_compression st"
    and "map he_created_by (bs_history st') = map he_created_by (bs_history st) @ map Some ls"
    and "map he_empty_layer (bs_history st') = map he_empty_layer (bs_history st) @ map (\<lambda>_. True) ls"
    and "bs_new_layers st' = bs_new_layers st" and "bs_upper_guards st' = bs_upper_guards st"
    and "bs_adopted_from_cache st' = bs_adopted_from_cache st"
  shows "layer_step H ls st st'"
  using assms by (intro layer_step.kept) (simp_all add: same_frame_def records_def)

lemma push_new_layer_step:
  assumes "push_new_layer H u h st = (l, st')"
  shows "layer_step H [h] st st'" and "bs_arg_scope st' = bs_arg_scope st" and "l = pack H (bs_compression st) u"
  using assms
  by (auto simp: push_new_layer_def pack_def Let_def same_frame_def records_def step_simps
      intro!: layer_step.captured [where u = u])

lemma adopt_cached_layer_step:
  "layer_step H ls st (adopt_cached_layer H l h st)"
  "bs_arg_scope (adopt_cached_layer H l h st) = bs_arg_scope st"
  by (auto simp: adopt_cached_layer_def same_frame_def records_def step_simps
      intro!: layer_step.adopted [where h = h and l = l])

lemma layer_step_with_container [intro]:
  assumes "layer_step H ls st st'"
  shows "layer_step H ls st (with_container f st')"
  using assms
  by cases (auto simp: same_frame_def records_def step_simps
      intro: layer_step.kept layer_step.captured layer_step.adopted)

lemma cached_layer_off [simp]: "cached_layer C L cache False key = Inr None"
  by (simp add: cached_layer_def)

text \<open>
  The effect of a step that records \<open>ls\<close>: one of the three forms, the last only with lookups on, and the
  scope of the \<open>ARG\<close> values kept.
\<close>

definition step_effect :: "host \<Rightarrow> bool \<Rightarrow> string list \<Rightarrow> BuildState \<Rightarrow> BuildState \<Rightarrow> bool" where
  "step_effect H lookup_cache ls st st' \<longleftrightarrow>
     layer_step H ls st st' \<and> (\<not> lookup_cache \<longrightarrow>
       bs_adopted_from_cache st' = bs_adopted_from_cache st \<and>
       map he_created_by (bs_history st') = map he_created_by (bs_history st) @ map Some ls)"

lemma push_new_layer_effect:
  assumes "push_new_layer H u h st = (l, st')"
  shows "step_effect H lk [h] st st'"
  using assms push_new_layer_step [OF assms]
  by (auto simp: step_effect_def push_new_layer_def Let_def step_simps)

lemma package_effect:
  assumes "package_and_cache_upper ctx key u h S st = (S', st')"
  shows "step_effect (cx_host ctx) lk [h] st st' \<and> bs_arg_scope st' = bs_arg_scope st"
  using assms push_new_layer_effect [of "cx_host ctx" u h st] push_new_layer_step(2) [of "cx_host ctx" u h st]
  by (auto simp: package_and_cache_upper_def Let_def split: prod.splits)

lemma stage_copy_layer_effect:
  assumes "stage_copy_layer ctx key name n dst h S st = Inr (S', st')"
  shows "step_effect (cx_host ctx) lk [h] st st' \<and> bs_arg_scope st' = bs_arg_scope st"
  using assms by (auto simp: stage_copy_layer_def Let_def split: sum.splits dest: package_effect [where lk = lk])

lemma or_adopt_effect:
  assumes "or_adopt ctx lk key S st produce = Inr (S', st')"
    and "produce = Inr (S', st') \<Longrightarrow> step_effect (cx_host ctx) lk ls st st' \<and> bs_arg_scope st' = bs_arg_scope st"
  shows "step_effect (cx_host ctx) lk ls st st' \<and> bs_arg_scope st' = bs_arg_scope st"
  using assms adopt_cached_layer_step [of "cx_host ctx"]
  by (cases lk) (auto simp: or_adopt_def step_effect_def split: sum.splits option.splits)


section \<open>The line a directive records\<close>

text \<open>The history line of a directive, from the text of the recipe alone.\<close>

fun add_line :: "Add \<Rightarrow> string" where
  "add_line add =
     (let dst = recipe_path_str (sd_value (ad_destination add));
          verb = (if ad_plain_copy add then ''COPY'' else ''ADD'')
      in case ad_source add of
           AddUrl s \<Rightarrow> ''ADD '' @ url_raw (sd_value s) @ '' '' @ dst
         | AddOci s \<Rightarrow> ''ADD '' @ oci_ref_str (sd_value s) @ '' '' @ dst
         | AddPath s \<Rightarrow>
             (case ad_from add of
                Some from \<Rightarrow> verb @ '' --from='' @ stage_name_str (sd_value from) @ '' '' @ sd_value s @ '' '' @ dst
              | None \<Rightarrow> verb @ '' '' @ sd_value s @ '' '' @ dst))"

fun entrypoint_line :: "EntrypointInit \<Rightarrow> string" where
  "entrypoint_line (InitPath s) = ''ENTRYPOINT '' @ sd_value s"
| "entrypoint_line (InitExec parts) = ''ENTRYPOINT '' @ join '' '' (map sd_value parts)"
| "entrypoint_line InitNone = ''ENTRYPOINT none''"
| "entrypoint_line InitSystemd = ''ENTRYPOINT systemd''"
| "entrypoint_line InitOpenRc = ''ENTRYPOINT openrc''"

fun recipe_lines :: "Directive \<Rightarrow> string list" where
  "recipe_lines (DirRun run) = [run_summary (rn_command run)]"
| "recipe_lines (DirAdd add) = [add_line add]"
| "recipe_lines (DirWorkdir wd) = [''WORKDIR '' @ recipe_path_str (sd_value (wd_path wd))]"
| "recipe_lines (DirUser u) = [''USER '' @ username_str (sd_value (us_name u))]"
| "recipe_lines (DirEnv e) =
     [''ENV '' @ env_name_str (sd_value (ev_key e)) @ ''='' @ env_value_str (sd_value (ev_value e))]"
| "recipe_lines (DirArg _) = []"
| "recipe_lines (DirShell s) = [''SHELL '' @ (if sh_argv s = [] then ''(none)'' else ''switched'')]"
| "recipe_lines (DirLabel l) =
     [''LABEL '' @ label_key_str (sd_value (lb_key l)) @ ''='' @ label_value_str (sd_value (lb_value l))]"
| "recipe_lines (DirEntrypoint ep) = [entrypoint_line (ep_init ep)]"
| "recipe_lines (DirExpose e) =
     [''EXPOSE '' @ show_nat (unat (ex_port e)) @ ''/'' @ (case ex_protocol e of Tcp \<Rightarrow> ''tcp'' | Udp \<Rightarrow> ''udp'')]"
| "recipe_lines (DirCmd c) =
     [''CMD '' @ (case cm_command c of CmdShell s \<Rightarrow> sd_value s | CmdExec ps \<Rightarrow> join '' '' (map sd_value ps))]"
| "recipe_lines (DirVolume v) = [''VOLUME '' @ join '' '' (map sd_value (vo_paths v))]"
| "recipe_lines (DirStopsignal s) = [''STOPSIGNAL '' @ sd_value (ss_signal s)]"

text \<open>The scope after a directive.\<close>

fun scope_step :: "scope \<Rightarrow> Directive \<Rightarrow> scope \<Rightarrow> scope" where
  "scope_step build_args (DirArg arg) scp = apply_arg_to_scope build_args arg scp"
| "scope_step build_args _ scp = scp"


section \<open>Effects of the directives\<close>

lemma apply_add_url_effect:
  assumes "apply_add_url ctx raw dst lk S st = Inr (S', st')"
  shows "step_effect (cx_host ctx) lk [''ADD '' @ raw @ '' '' @ dst] st st' \<and> bs_arg_scope st' = bs_arg_scope st"
  using assms unfolding apply_add_url_def Let_def
  by (auto split: option.splits sum.splits if_splits elim!: or_adopt_effect dest: package_effect [where lk = lk])

lemma apply_add_oci_image_effect:
  assumes "apply_add_oci_image ctx raw dst lk S st = Inr (S', st')"
  shows "step_effect (cx_host ctx) lk [''ADD '' @ raw @ '' '' @ dst] st st' \<and> bs_arg_scope st' = bs_arg_scope st"
  using assms unfolding apply_add_oci_image_def Let_def
  by (auto split: option.splits sum.splits prod.splits elim!: or_adopt_effect dest: package_effect [where lk = lk])

lemma apply_add_from_stage_effect:
  assumes "apply_add_from_stage ctx src dst stage lk h S st = Inr (S', st')"
  shows "step_effect (cx_host ctx) lk [h] st st' \<and> bs_arg_scope st' = bs_arg_scope st"
  using assms unfolding apply_add_from_stage_def Let_def
  by (auto split: option.splits sum.splits prod.splits elim!: or_adopt_effect
      dest: stage_copy_layer_effect [where lk = lk])

lemma apply_add_local_effect:
  assumes "apply_add_local ctx src dst lk h S st = Inr (S', st')"
  shows "step_effect (cx_host ctx) lk [h] st st' \<and> bs_arg_scope st' = bs_arg_scope st"
  using assms unfolding apply_add_local_def Let_def
  by (auto split: sum.splits prod.splits elim!: or_adopt_effect dest: stage_copy_layer_effect [where lk = lk])

lemma apply_add_effect:
  assumes "apply_add ctx add lk S st = Inr (S', st')"
  shows "step_effect (cx_host ctx) lk [add_line add] st st' \<and> bs_arg_scope st' = bs_arg_scope st"
proof (cases "ad_source add")
  case (AddUrl s)
  then show ?thesis
    using assms apply_add_url_effect [of ctx "url_raw (sd_value s)" _ lk S st S' st']
    by (auto simp: apply_add_def Let_def split: option.splits if_splits)
next
  case (AddOci s)
  then show ?thesis
    using assms apply_add_oci_image_effect [of ctx "oci_ref_str (sd_value s)" _ lk S st S' st']
    by (auto simp: apply_add_def Let_def split: option.splits if_splits)
next
  case (AddPath s)
  then show ?thesis
    using assms apply_add_from_stage_effect [of ctx _ _ _ lk _ S st S' st']
      apply_add_local_effect [of ctx _ _ lk _ S st S' st']
    by (auto simp: apply_add_def Let_def split: option.splits if_splits)
qed

lemma apply_run_effect:
  assumes "apply_run ctx lowers run n lk S st = Inr (Continue, S', st')"
  shows "step_effect (cx_host ctx) lk [run_summary (rn_command run)] st st' \<and> bs_arg_scope st' = bs_arg_scope st"
  using assms adopt_cached_layer_step [where H = "cx_host ctx" and st = st]
  unfolding apply_run_def Let_def
  by (cases lk)
    (auto split: sum.splits prod.splits option.splits if_splits
      dest: push_new_layer_step(2) push_new_layer_effect [where lk = lk] simp: step_effect_def)

lemma push_new_layer_container_effect:
  "step_effect H lk [h] st (with_container f (snd (push_new_layer H u h st)))"
  using push_new_layer_effect [OF surjective_pairing [of "push_new_layer H u h st"], of lk]
  by (auto simp: step_effect_def step_simps)

lemma metadata_effects:
  "step_effect H lk (recipe_lines (DirWorkdir wd)) st (apply_workdir H wd st)"
  "step_effect H lk (recipe_lines (DirUser u)) st (apply_user H u st)"
  "step_effect H lk (recipe_lines (DirEnv e)) st (apply_env H e st)"
  "step_effect H lk (recipe_lines (DirArg arg)) st (apply_arg build_args arg st)"
  "step_effect H lk (recipe_lines (DirShell s)) st (apply_shell H s st)"
  "step_effect H lk (recipe_lines (DirLabel l)) st (apply_label H l st)"
  "step_effect H lk (recipe_lines (DirEntrypoint ep)) st (apply_entrypoint H (ep_init ep) st)"
  "step_effect H lk (recipe_lines (DirExpose x)) st (apply_expose H x st)"
  "step_effect H lk (recipe_lines (DirCmd c)) st (apply_cmd H c st)"
  "step_effect H lk (recipe_lines (DirVolume v)) st (apply_volume H v st)"
  "step_effect H lk (recipe_lines (DirStopsignal sg)) st (apply_stopsignal H sg st)"
proof -
  show "step_effect H lk (recipe_lines (DirWorkdir wd)) st (apply_workdir H wd st)"
    unfolding apply_workdir_def Let_def case_prod_beta recipe_lines.simps by (rule push_new_layer_container_effect)
  show "step_effect H lk (recipe_lines (DirEntrypoint ep)) st (apply_entrypoint H (ep_init ep) st)"
    by (cases "ep_init ep")
      (auto simp: step_effect_def step_simps Let_def push_metadata_history_def intro!: layer_step_meta)
  show "step_effect H lk (recipe_lines (DirCmd c)) st (apply_cmd H c st)"
    by (cases "cm_command c")
      (auto simp: step_effect_def step_simps apply_cmd_def push_metadata_history_def intro!: layer_step_meta)
qed (auto simp: step_effect_def step_simps apply_user_def apply_env_def apply_arg_def apply_shell_def apply_label_def
    apply_expose_def apply_volume_def apply_stopsignal_def Let_def push_metadata_history_def intro!: layer_step_meta)

lemma metadata_scopes [step_simps]:
  "bs_arg_scope (apply_user H u st) = bs_arg_scope st"
  "bs_arg_scope (apply_env H e st) = bs_arg_scope st"
  "bs_arg_scope (apply_arg build_args arg st) = apply_arg_to_scope build_args arg (bs_arg_scope st)"
  "bs_arg_scope (apply_shell H s st) = bs_arg_scope st"
  "bs_arg_scope (apply_label H l st) = bs_arg_scope st"
  "bs_arg_scope (apply_expose H x st) = bs_arg_scope st"
  "bs_arg_scope (apply_volume H v st) = bs_arg_scope st"
  "bs_arg_scope (apply_stopsignal H sg st) = bs_arg_scope st"
  by (simp_all add: step_simps apply_user_def apply_env_def apply_arg_def apply_shell_def apply_label_def
      apply_expose_def apply_volume_def apply_stopsignal_def Let_def push_metadata_history_def)

lemma apply_workdir_scope [step_simps]: "bs_arg_scope (apply_workdir H wd st) = bs_arg_scope st"
  by (simp add: apply_workdir_def push_new_layer_def Let_def step_simps)

lemma apply_entrypoint_scope [step_simps]: "bs_arg_scope (apply_entrypoint H ep st) = bs_arg_scope st"
  by (cases ep) (simp_all add: step_simps Let_def push_metadata_history_def)

lemma apply_cmd_scope [step_simps]: "bs_arg_scope (apply_cmd H c st) = bs_arg_scope st"
  by (cases "cm_command c") (simp_all add: step_simps apply_cmd_def push_metadata_history_def)

lemma apply_directive_effect:
  assumes "apply_directive ctx lowers d n lk S st = Inr (Continue, S', st')"
  shows "step_effect (cx_host ctx) lk (recipe_lines d) st st' \<and>
         bs_arg_scope st' = scope_step (cx_build_args ctx) d (bs_arg_scope st)"
proof (cases d)
  case (DirRun run)
  then show ?thesis using assms apply_run_effect by simp
next
  case (DirAdd add)
  then show ?thesis
    using assms apply_add_effect [of ctx add lk S st S' st'] by (auto simp: continue_with_def split: sum.splits)
qed (use assms metadata_effects in \<open>auto simp: continue_with_def step_simps simp del: recipe_lines.simps\<close>)

lemma apply_directive_rebuild:
  assumes "apply_directive ctx lowers d n lk S st = Inr (RebuildWithoutCache, S', st')"
  shows "bs_adopted_from_cache st" and "st' = st" and "S' = S"
  using assms
  by (cases d; auto simp: continue_with_def apply_run_def Let_def split: sum.splits prod.splits option.splits if_splits)+


section \<open>The directive walk\<close>

text \<open>
  What holds in every state of a stage: the base layers stay below, one history entry that is not marked
  empty per new layer, and while nothing was adopted the captured directories are the new layers.
\<close>

abbreviation "layer_entries st \<equiv> length (filter Not (map he_empty_layer (bs_history st)))"

definition stage_inv :: "host \<Rightarrow> LayerSource list \<Rightarrow> nat \<Rightarrow> BuildState \<Rightarrow> bool" where
  "stage_inv H base k st \<longleftrightarrow>
     assemble_layer_chain st = base @ bs_new_layers st \<and>
     layer_entries st = k + length (bs_new_layers st) \<and>
     (\<not> bs_adopted_from_cache st \<longrightarrow> bs_new_layers st = map (pack H (bs_compression st)) (bs_upper_guards st))"

lemma stage_inv_new:
  "stage_inv H (ba_layers base) (layer_entries (BuildState_new base z g)) (BuildState_new base z g)"
  by (simp add: stage_inv_def BuildState_new_def assemble_layer_chain_def)

lemma layer_step_inv:
  assumes "layer_step H ls st st'" and "stage_inv H base k st"
  shows "stage_inv H base k st'"
  using assms
  by cases (auto simp: stage_inv_def same_frame_def records_def assemble_layer_chain_def length_Suc_conv)

lemma walk_inv:
  assumes "walk_directives ctx lowers hk si stot tot lk n ds S st = Inr (flow, S', st')"
    and "stage_inv (cx_host ctx) base k st"
  shows "stage_inv (cx_host ctx) base k st'"
  using assms
proof (induction ctx lowers hk si stot tot lk n ds S st rule: walk_directives.induct)
  case (2 ctx lowers hk si stot tot lk n d ds S st)
  show ?case
  proof (cases "apply_directive ctx lowers d (n + 1) lk S st")
    case (Inr r)
    obtain flow1 S1 st1 where r: "r = (flow1, S1, st1)" by (cases r)
    show ?thesis
      using 2 Inr r apply_directive_effect [of ctx lowers d "n + 1" lk S st S1 st1]
        apply_directive_rebuild [of ctx lowers d "n + 1" lk S st S1 st1] layer_step_inv
      by (cases flow1) (auto simp: step_effect_def split: if_splits)
  qed (use 2 in \<open>simp split: if_splits\<close>)
qed simp

text \<open>Without lookups a walk from a state that adopted nothing ends, and records the recipe's own lines.\<close>

lemma walk_without_cache:
  assumes "walk_directives ctx lowers hk si stot tot False n ds S st = Inr (flow, S', st')"
    and "\<not> bs_adopted_from_cache st"
  shows "flow = Continue \<and> \<not> bs_adopted_from_cache st' \<and>
         map he_created_by (bs_history st') =
           map he_created_by (bs_history st) @ map Some (concat (map recipe_lines ds))"
  using assms
proof (induction ds arbitrary: n S st)
  case (Cons d ds)
  show ?case
  proof (cases "apply_directive ctx lowers d (n + 1) False S st")
    case (Inr r)
    obtain flow1 S1 st1 where r: "r = (flow1, S1, st1)" by (cases r)
    show ?thesis
      using Cons.prems Cons.IH [of "n + 1" S1 st1] Inr r
        apply_directive_effect [of ctx lowers d "n + 1" False S st S1 st1]
        apply_directive_rebuild [of ctx lowers d "n + 1" False S st S1 st1]
      by (cases flow1) (auto simp: step_effect_def split: if_splits)
  qed (use Cons in \<open>simp split: if_splits\<close>)
qed simp

lemma new_not_adopted [simp]: "\<not> bs_adopted_from_cache (BuildState_new base z g)"
  by (simp add: BuildState_new_def)

lemma stage_attempts_off_returns: "stage_attempts ctx G hk si stot scratch from ds False S \<noteq> None"
  by (subst stage_attempts.simps)
    (auto split: sum.splits dest: walk_without_cache)

lemma stage_attempts_returns [simp]: "stage_attempts ctx G hk si stot scratch from ds lk S \<noteq> None"
  by (subst stage_attempts.simps) (auto split: sum.splits simp: stage_attempts_off_returns [simplified])

lemma build_one_stage_returns [simp]: "build_one_stage ctx G hk stage ref i n S \<noteq> None"
  by (auto simp: build_one_stage_def simp del: not_None_eq split: sum.splits prod.splits option.splits)

lemma build_stages_returns [simp]: "build_stages ctx G hk ref_of n i stages produced last_entry S \<noteq> None"
  by (induction stages arbitrary: i produced last_entry S)
    (auto simp del: not_None_eq split: sum.splits prod.splits option.splits)


section \<open>Cross-stage references\<close>

definition names_before :: "Stage list \<Rightarrow> nat \<Rightarrow> string set" where
  "names_before stages i = set (List.map_filter stage_name_of (take i stages))"

definition ref_error :: "Stage list \<Rightarrow> nat \<Rightarrow> string \<Rightarrow> EngineBuildError" where
  "ref_error stages i target =
     (if stage_name_of (stages ! i) = Some target then AddFromSelf target
      else if Some target \<in> set (map stage_name_of (drop (Suc i) stages)) then AddFromForwardReference target
      else AddFromUnknownStage target)"

text \<open>The references of the directives that name no stage of \<open>seen\<close>.\<close>

definition dangling :: "string set \<Rightarrow> Directive list \<Rightarrow> string set" where
  "dangling seen ds = {t \<in> set (List.map_filter add_from ds). t \<notin> seen}"

lemma dangling_simps [simp]:
  "dangling seen [] = {}"
  "dangling seen (d # ds) =
     (case add_from d of Some t \<Rightarrow> if t \<in> seen then dangling seen ds else insert t (dangling seen ds)
      | None \<Rightarrow> dangling seen ds)"
  by (auto simp: dangling_def split: option.splits)

lemma check_directives_decides:
  "case check_directives seen self later ds of
     None \<Rightarrow> dangling seen ds = {}
   | Some e \<Rightarrow> \<exists>t \<in> dangling seen ds.
       e = (if self = Some t then AddFromSelf t
            else if Some t \<in> set later then AddFromForwardReference t else AddFromUnknownStage t)"
  by (induction ds) (auto split: option.splits)

lemma names_before_simps [simp]:
  "names_before stages 0 = {}"
  "names_before (s # stages) (Suc i) =
     (case stage_name_of s of Some n \<Rightarrow> insert n (names_before stages i) | None \<Rightarrow> names_before stages i)"
  by (auto simp: names_before_def split: option.splits)

lemma ref_error_simps [simp]:
  "ref_error (s # stages) 0 t =
     (if stage_name_of s = Some t then AddFromSelf t
      else if Some t \<in> set (map stage_name_of stages) then AddFromForwardReference t else AddFromUnknownStage t)"
  "ref_error (s # stages) (Suc i) t = ref_error stages i t"
  by (simp_all add: ref_error_def)

lemma check_stages_decides:
  "case check_stages seen stages of
     None \<Rightarrow> \<forall>i < length stages. dangling (seen \<union> names_before stages i) (st_directives (stages ! i)) = {}
   | Some e \<Rightarrow> \<exists>i < length stages.
       (\<forall>j < i. dangling (seen \<union> names_before stages j) (st_directives (stages ! j)) = {}) \<and>
       (\<exists>t \<in> dangling (seen \<union> names_before stages i) (st_directives (stages ! i)). e = ref_error stages i t)"
proof (induction stages arbitrary: seen)
  case (Cons s stages)
  let ?seen = "case stage_name_of s of Some n \<Rightarrow> insert n seen | None \<Rightarrow> seen"
  have shift: "seen \<union> names_before (s # stages) (Suc i) = ?seen \<union> names_before stages i" for i
    by (auto split: option.splits)
  show ?case
  proof (cases "check_directives seen (stage_name_of s) (map stage_name_of stages) (st_directives s)")
    case None
    then have here: "dangling seen (st_directives s) = {}"
      using check_directives_decides
        [where seen = seen and self = "stage_name_of s" and later = "map stage_name_of stages" and ds = "st_directives s"] by simp
    show ?thesis
    proof (cases "check_stages ?seen stages")
      case none: None
      then show ?thesis
        using Cons.IH [of ?seen] None here
        by (auto simp: less_Suc_eq_0_disj shift simp del: names_before_simps(2))
    next
      case (Some e)
      then obtain i t where "i < length stages"
        "\<forall>j < i. dangling (?seen \<union> names_before stages j) (st_directives (stages ! j)) = {}"
        "t \<in> dangling (?seen \<union> names_before stages i) (st_directives (stages ! i))" "e = ref_error stages i t"
        using Cons.IH [of ?seen] by auto
      then have "Suc i < length (s # stages) \<and>
          (\<forall>j < Suc i. dangling (seen \<union> names_before (s # stages) j) (st_directives ((s # stages) ! j)) = {}) \<and>
          (\<exists>t \<in> dangling (seen \<union> names_before (s # stages) (Suc i)) (st_directives ((s # stages) ! Suc i)).
             e = ref_error (s # stages) (Suc i) t)"
        using here by (auto simp: less_Suc_eq_0_disj shift simp del: names_before_simps(2))
      then show ?thesis
        by (simp only: check_stages.simps None Some option.case) blast
    qed
  next
    case (Some e)
    then show ?thesis
      using check_directives_decides
        [where seen = seen and self = "stage_name_of s" and later = "map stage_name_of stages" and ds = "st_directives s"]
      by (auto intro!: exI [of _ 0])
  qed
qed simp


section \<open>Lookups the preparation answers\<close>

text \<open>What a directive looks up that the preparation is to provide: a fetched payload, a produced stage.\<close>

fun url_of :: "Directive \<Rightarrow> string option" where
  "url_of (DirAdd add) =
     (case (ad_plain_copy add, ad_source add) of (False, AddUrl s) \<Rightarrow> Some (url_raw (sd_value s)) | _ \<Rightarrow> None)"
| "url_of _ = None"

definition provided :: "BuildCtx \<Rightarrow> scope \<Rightarrow> Directive \<Rightarrow> bool" where
  "provided ctx scp d \<longleftrightarrow>
     (case url_of d of Some u \<Rightarrow> cx_fetched_urls ctx (subst_with scp u) \<noteq> None | None \<Rightarrow> True) \<and>
     (case add_from d of Some t \<Rightarrow> cx_produced ctx t \<noteq> None | None \<Rightarrow> True)"

text \<open>Every directive of the list is provided for, each in the scope the ones before it leave.\<close>

fun all_provided :: "BuildCtx \<Rightarrow> scope \<Rightarrow> Directive list \<Rightarrow> bool" where
  "all_provided ctx scp [] = True"
| "all_provided ctx scp (d # ds) \<longleftrightarrow>
     provided ctx scp d \<and> all_provided ctx (scope_step (cx_build_args ctx) d scp) ds"

text \<open>The two errors that report such a lookup as failed.\<close>

fun unprepared :: "EngineBuildError \<Rightarrow> bool" where
  "unprepared (AddFromUnknownStage _) = True"
| "unprepared (AddUrlFetchFailed _ detail) \<longleftrightarrow> detail = ''payload was not staged by the fetch phase''"
| "unprepared _ = False"

lemma cached_layer_error:
  "cached_layer C L cache lk key = Inl e \<Longrightarrow> \<not> unprepared e"
  by (auto simp: cached_layer_def layer_from_cache_def split: if_splits option.splits sum.splits)

lemma or_adopt_error:
  assumes "or_adopt ctx lk key S st produce = Inl e" and "produce = Inl e \<Longrightarrow> \<not> unprepared e"
  shows "\<not> unprepared e"
  using assms by (auto simp: or_adopt_def split: sum.splits option.splits dest: cached_layer_error)

lemma reject_traversal_error: "reject_traversal kind p = Some e \<Longrightarrow> \<not> unprepared e"
  by (auto simp: reject_traversal_def split: if_splits)

lemma source_at_error: "source_at T shown p = Inl e \<Longrightarrow> \<not> unprepared e"
  by (auto simp: source_at_def Let_def split: option.splits if_splits)

lemma stage_copy_layer_error: "stage_copy_layer ctx key name n dst h S st = Inl e \<Longrightarrow> \<not> unprepared e"
  by (auto simp: stage_copy_layer_def Let_def split: sum.splits)

lemma secret_mounts_error: "secret_mounts secrets ms = Inl e \<Longrightarrow> \<not> unprepared e"
  by (induction ms arbitrary: e) (auto simp: Let_def split: RunMountKind.splits option.splits sum.splits)

lemmas step_errors = reject_traversal_error source_at_error stage_copy_layer_error secret_mounts_error

lemma apply_add_url_error:
  assumes "apply_add_url ctx raw dst lk S st = Inl e" and "cx_fetched_urls ctx (bs_subst st raw) \<noteq> None"
  shows "\<not> unprepared e"
  using assms unfolding apply_add_url_def Let_def
  by (auto split: option.splits sum.splits if_splits elim!: or_adopt_error dest: step_errors)

lemma apply_add_oci_image_error: "apply_add_oci_image ctx raw dst lk S st = Inl e \<Longrightarrow> \<not> unprepared e"
  unfolding apply_add_oci_image_def Let_def
  by (auto split: option.splits sum.splits prod.splits elim!: or_adopt_error dest: step_errors)

lemma apply_add_from_stage_error:
  assumes "apply_add_from_stage ctx src dst stage lk h S st = Inl e" and "cx_produced ctx stage \<noteq> None"
  shows "\<not> unprepared e"
  using assms unfolding apply_add_from_stage_def Let_def
  by (auto split: option.splits sum.splits prod.splits elim!: or_adopt_error dest: step_errors)

lemma apply_add_local_error: "apply_add_local ctx src dst lk h S st = Inl e \<Longrightarrow> \<not> unprepared e"
  unfolding apply_add_local_def Let_def
  by (auto split: sum.splits prod.splits elim!: or_adopt_error dest: step_errors)

lemma apply_run_error: "apply_run ctx lowers run n lk S st = Inl e \<Longrightarrow> \<not> unprepared e"
  unfolding apply_run_def Let_def
  by (auto split: sum.splits prod.splits option.splits if_splits dest: step_errors cached_layer_error)

lemma apply_directive_error:
  assumes "apply_directive ctx lowers d n lk S st = Inl e" and "provided ctx (bs_arg_scope st) d"
  shows "\<not> unprepared e"
proof (cases d)
  case (DirAdd add)
  have "apply_add ctx add lk S st = Inl e"
    using assms DirAdd by (auto simp: continue_with_def split: sum.splits)
  then show ?thesis
    using assms(2) DirAdd
    by (cases "ad_source add")
      (auto simp: apply_add_def Let_def provided_def bs_subst_def subst_with_def split: option.splits if_splits
        dest: step_errors apply_add_oci_image_error apply_add_from_stage_error apply_add_local_error
          apply_add_url_error)
qed (use assms apply_run_error in \<open>auto simp: continue_with_def\<close>)

lemma walk_error:
  assumes "walk_directives ctx lowers hk si stot tot lk n ds S st = Inl e"
    and "all_provided ctx (bs_arg_scope st) ds"
  shows "\<not> unprepared e"
  using assms
proof (induction ctx lowers hk si stot tot lk n ds S st rule: walk_directives.induct)
  case (2 ctx lowers hk si stot tot lk n d ds S st)
  show ?case
  proof (cases "apply_directive ctx lowers d (n + 1) lk S st")
    case (Inl e')
    then show ?thesis using 2 apply_directive_error by (auto split: if_splits)
  next
    case (Inr r)
    obtain flow1 S1 st1 where r: "r = (flow1, S1, st1)" by (cases r)
    show ?thesis
      using 2 Inr r apply_directive_effect [of ctx lowers d "n + 1" lk S st S1 st1]
      by (cases flow1) (auto split: if_splits)
  qed
qed simp

lemma pull_candidates_error:
  assumes "pull_candidates ctx G ref_name cs last_err L = Inl e"
    and "case last_err of Some e \<Rightarrow> \<not> unprepared e | None \<Rightarrow> True"
  shows "\<not> unprepared e"
  using assms
  by (induction ctx G ref_name cs last_err L rule: pull_candidates.induct)
    (auto split: sum.splits option.splits if_splits prod.splits)

lemma pull_into_layout_error: "pull_into_layout ctx G ref_name L = Inl e \<Longrightarrow> \<not> unprepared e"
  by (auto simp: pull_into_layout_def split: sum.splits dest: pull_candidates_error)

lemma prepull_error: "prepull ctx G ds args L = Inl e \<Longrightarrow> \<not> unprepared e"
  by (induction ctx G ds args L rule: prepull.induct)
    (auto split: sum.splits bool.splits AddSource.splits prod.splits dest: pull_into_layout_error)

lemma base_layers_error: "base_layers C decode compress z L rs = Inl e \<Longrightarrow> \<not> unprepared e"
  by (induction C decode compress z L rs arbitrary: e rule: base_layers.induct) (auto split: sum.splits)

lemma resolve_base_image_error: "resolve_base_image H G L ref_name a z = Inl e \<Longrightarrow> \<not> unprepared e"
  by (auto simp: resolve_base_image_def base_manifest_def Let_def dest: base_layers_error
      split: sum.splits option.splits prod.splits if_splits BaseDoc.splits)

lemma stage_base_error: "stage_base ctx G scratch from L = Inl e \<Longrightarrow> \<not> unprepared e"
  by (auto simp: stage_base_def split: if_splits sum.splits dest: resolve_base_image_error)

lemma new_scope [simp]: "bs_arg_scope (BuildState_new base z g) = g"
  by (simp add: BuildState_new_def)

lemma stage_attempts_off_error:
  assumes "stage_attempts ctx G hk si stot scratch from ds False S = Some (Inl e)"
    and "all_provided ctx (cx_globals ctx) ds"
  shows "\<not> unprepared e"
  using assms
  by (subst (asm) stage_attempts.simps)
    (auto split: sum.splits if_splits dest: stage_base_error walk_error walk_without_cache)

lemma stage_attempts_error:
  assumes "stage_attempts ctx G hk si stot scratch from ds lk S = Some (Inl e)"
    and "all_provided ctx (cx_globals ctx) ds"
  shows "\<not> unprepared e"
  using assms
  by (subst (asm) stage_attempts.simps)
    (auto split: sum.splits if_splits dest: stage_base_error walk_error stage_attempts_off_error)

lemma build_one_stage_error:
  assumes "build_one_stage ctx G hk stage ref i n S = Some (Inl e)"
    and "all_provided ctx (cx_globals ctx) (st_directives stage)"
  shows "\<not> unprepared e"
  using assms
  by (auto simp: build_one_stage_def split: sum.splits prod.splits option.splits if_splits
      dest: pull_into_layout_error prepull_error stage_attempts_error)

subsection \<open>The prefetch\<close>

text \<open>Every URL the directives name is fetched, under the scope the ones before leave.\<close>

fun urls_fetched :: "scope \<Rightarrow> (string \<rightharpoonup> FetchedUrl) \<Rightarrow> scope \<Rightarrow> Directive list \<Rightarrow> bool" where
  "urls_fetched build_args fetched scp [] = True"
| "urls_fetched build_args fetched scp (d # ds) \<longleftrightarrow>
     (case url_of d of Some u \<Rightarrow> fetched (subst_with scp u) \<noteq> None | None \<Rightarrow> True) \<and>
     urls_fetched build_args fetched (scope_step build_args d scp) ds"

lemma urls_fetched_mono:
  assumes "urls_fetched ba f scp ds" and "f \<subseteq>\<^sub>m f'"
  shows "urls_fetched ba f' scp ds"
  using assms
  by (induction ds arbitrary: scp) (auto split: option.splits dest: map_le_implies_dom_le)

lemma prefetch_stage_grows:
  "prefetch_stage fetch ba ds scp f = Inr f' \<Longrightarrow> f \<subseteq>\<^sub>m f'"
  by (induction fetch ba ds scp f rule: prefetch_stage.induct)
    (auto simp: Let_def map_le_def dom_def split: bool.splits AddSource.splits if_splits sum.splits option.splits
      dest!: spec)

lemma prefetch_stage_covers:
  "prefetch_stage fetch ba ds scp f = Inr f' \<Longrightarrow> urls_fetched ba f' scp ds"
proof (induction fetch ba ds scp f rule: prefetch_stage.induct)
  case (3 fetch ba add ds scp f)
  show ?case
  proof (cases "url_of (DirAdd add)")
    case None
    then show ?thesis using 3 by (auto split: bool.splits AddSource.splits)
  next
    case (Some u)
    then obtain s where s: "\<not> ad_plain_copy add" "ad_source add = AddUrl s" "u = url_raw (sd_value s)"
      by (auto split: bool.splits AddSource.splits)
    let ?url = "subst_with scp u"
    obtain f1 where f1: "f1 ?url \<noteq> None" "prefetch_stage fetch ba ds scp f1 = Inr f'"
      and covered: "urls_fetched ba f' scp ds"
    proof (cases "f ?url")
      case None
      then obtain b where "fetch ?url = Inr b" and "prefetch_stage fetch ba ds scp (f(?url \<mapsto> b)) = Inr f'"
        using 3 s by (auto simp: Let_def split: sum.splits)
      then show ?thesis
        using 3(3) [of False _ s ?url b] None s that [of "f(?url \<mapsto> b)"] by (simp add: fun_upd_def)
    next
      case (Some b)
      then show ?thesis using 3(2) [of False _ s ?url] "3.prems" s that [of f] by (simp add: Let_def)
    qed
    have "f' ?url \<noteq> None"
      using prefetch_stage_grows [OF f1(2)] f1(1) by (auto simp: map_le_def dom_def)
    then show ?thesis using covered Some by simp
  qed
qed (auto)

lemma prefetch_covers:
  assumes "prefetch fetch ba globals stages f = Inr f'"
  shows "f \<subseteq>\<^sub>m f' \<and> (\<forall>s \<in> set stages. urls_fetched ba f' globals (st_directives s))"
  using assms
proof (induction stages arbitrary: f)
  case (Cons s stages)
  then obtain f1 where "prefetch_stage fetch ba (st_directives s) globals f = Inr f1"
    and "prefetch fetch ba globals stages f1 = Inr f'"
    by (auto split: sum.splits)
  with Cons.IH [of f1] show ?case
    by (auto dest: prefetch_stage_grows prefetch_stage_covers intro: urls_fetched_mono map_le_trans)
qed simp

lemma all_providedI:
  assumes "urls_fetched (cx_build_args ctx) (cx_fetched_urls ctx) scp ds"
    and "dangling (dom (cx_produced ctx)) ds = {}"
  shows "all_provided ctx scp ds"
  using assms
  by (induction ds arbitrary: scp) (auto simp: provided_def split: option.splits if_splits)

lemma remember_dom:
  "dom (remember s r produced) =
     (case stage_name_of s of Some n \<Rightarrow> insert n (dom produced) | None \<Rightarrow> dom produced)"
  by (auto simp: remember_def split: option.splits)

lemma build_stages_error:
  assumes "build_stages ctx G hk ref_of n i stages produced last_entry S = Some (Inl e)"
    and "check_stages (dom produced) stages = None"
    and "\<forall>s \<in> set stages. urls_fetched (cx_build_args ctx) (cx_fetched_urls ctx) (cx_globals ctx) (st_directives s)"
  shows "\<not> unprepared e"
  using assms
proof (induction stages arbitrary: i produced last_entry S)
  case (Cons s stages)
  have checked: "check_directives (dom produced) (stage_name_of s) (map stage_name_of stages) (st_directives s) = None"
    and rest: "check_stages (dom (remember s (ref_of i) produced)) stages = None"
    using Cons.prems(2) by (auto simp: remember_dom split: option.splits)
  have "dangling (dom produced) (st_directives s) = {}"
    using check_directives_decides [where seen = "dom produced" and self = "stage_name_of s"
        and later = "map stage_name_of stages" and ds = "st_directives s"] checked by simp
  then have "all_provided (ctx \<lparr> cx_produced := produced \<rparr>) (cx_globals ctx) (st_directives s)"
    using Cons.prems(3) by (intro all_providedI) auto
  then show ?case
    using Cons.prems Cons.IH [OF _ rest]
      build_one_stage_error [of "ctx \<lparr> cx_produced := produced \<rparr>" G hk s "ref_of i" "i + 1" n S]
    by (auto split: option.splits sum.splits prod.splits)
qed simp


section \<open>The value of an ARG\<close>

text \<open>The last default among the declarations of a name.\<close>

definition last_default :: "string \<Rightarrow> Arg list \<Rightarrow> string option" where
  "last_default x args =
     (case rev (List.map_filter (\<lambda>a. if arg_name a = x then arg_default a else None) args) of
        [] \<Rightarrow> None
      | d # _ \<Rightarrow> Some d)"

definition stage_args :: "Directive list \<Rightarrow> Arg list" where
  "stage_args ds = List.map_filter (\<lambda>d. case d of DirArg a \<Rightarrow> Some a | _ \<Rightarrow> None) ds"

lemma last_default_snoc:
  "last_default x (args @ [a]) =
     (if arg_name a = x \<and> arg_default a \<noteq> None then arg_default a else last_default x args)"
  by (auto simp: last_default_def List.map_filter_def split: option.splits)

lemma last_default_None: "x \<notin> arg_name ` set args \<Longrightarrow> last_default x args = None"
  by (induction args rule: rev_induct) (auto simp: last_default_snoc, simp add: last_default_def)

lemma scope_value:
  "fold (apply_arg_to_scope ba) args Map.empty x =
     (if x \<notin> arg_name ` set args then None
      else case ba x of Some v \<Rightarrow> Some v | None \<Rightarrow> last_default x args)"
proof (induction args rule: rev_induct)
  case (snoc a args)
  then show ?case
    by (auto simp: last_default_None apply_arg_to_scope_def Let_def last_default_snoc split: option.splits)
qed simp

lemma scope_steps:
  "fold (scope_step ba) ds scp = fold (apply_arg_to_scope ba) (stage_args ds) scp"
  by (induction ds arbitrary: scp) (auto simp: stage_args_def split: Directive.split)

lemma walk_scope:
  assumes "walk_directives ctx lowers hk si stot tot lk n ds S st = Inr (Continue, S', st')"
  shows "bs_arg_scope st' = fold (scope_step (cx_build_args ctx)) ds (bs_arg_scope st)"
  using assms
proof (induction ctx lowers hk si stot tot lk n ds S st rule: walk_directives.induct)
  case (2 ctx lowers hk si stot tot lk n d ds S st)
  show ?case
  proof (cases "apply_directive ctx lowers d (n + 1) lk S st")
    case (Inr r)
    obtain flow1 S1 st1 where r: "r = (flow1, S1, st1)" by (cases r)
    show ?thesis
      using 2 Inr r apply_directive_effect [of ctx lowers d "n + 1" lk S st S1 st1]
      by (cases flow1) (auto split: if_splits)
  qed (use 2 in \<open>simp split: if_splits\<close>)
qed simp

end
