(* ===== verification/Build_Props.thy ===== *)
theory Build_Props
  imports Build_Laws
begin

text \<open>Properties of a build, over the laws of \<open>Build_Laws\<close>, each applied to a small concrete build.\<close>

section \<open>Histories\<close>

lemma layer_step_unadopted:
  assumes "layer_step H ls st st'" and "\<not> bs_adopted_from_cache st'"
  shows "\<not> bs_adopted_from_cache st \<and>
         map he_created_by (bs_history st') = map he_created_by (bs_history st) @ map Some ls"
  using assms by cases (auto simp: records_def)

lemma walk_unadopted:
  assumes "walk_directives ctx lowers hk si stot tot lk n ds S st = Inr (Continue, S', st')"
    and "\<not> bs_adopted_from_cache st'"
  shows "\<not> bs_adopted_from_cache st \<and>
         map he_created_by (bs_history st') =
           map he_created_by (bs_history st) @ map Some (concat (map recipe_lines ds))"
  using assms
proof (induction ds arbitrary: n S st)
  case (Cons d ds)
  show ?case
  proof (cases "apply_directive ctx lowers d (n + 1) lk S st")
    case (Inr r)
    obtain flow1 S1 st1 where r: "r = (flow1, S1, st1)" by (cases r)
    show ?thesis
      using Cons.prems Cons.IH [of "n + 1" S1 st1] Inr r
        apply_directive_effect [of ctx lowers d "n + 1" lk S st S1 st1]
        layer_step_unadopted [of "cx_host ctx" "recipe_lines d" st st1]
      by (cases flow1) (auto simp: step_effect_def split: if_splits)
  qed (use Cons in \<open>simp split: if_splits\<close>)
qed simp

lemma apply_run_adopted:
  "bs_adopted_from_cache st \<Longrightarrow>
     apply_run (ctx \<lparr> cx_run := r \<rparr>) lowers run k lk S st = apply_run ctx lowers run k lk S st"
  unfolding apply_run_def Let_def by (auto split: sum.splits prod.splits option.splits)


section \<open>A concrete build\<close>

definition sp0 :: "'a \<Rightarrow> 'a Spanned" where
  "sp0 v = \<lparr> sd_value = v, sd_span = Span_new 0 0 \<rparr>"

definition example_host :: host where
  "example_host =
     \<lparr> ho_codec = \<lparr> cd_sha256 = (\<lambda>b. ''0''), cd_manifest = Map.empty, cd_image = Map.empty, cd_diff_ids = Map.empty \<rparr>,
       ho_source_date_epoch = Some ''0'', ho_clock = (\<lambda>_. 0), ho_tar = (\<lambda>_. ''t''), ho_compress = (\<lambda>_ b. b) \<rparr>"

definition example_ctx :: BuildCtx where
  "example_ctx =
     \<lparr> cx_host = example_host, cx_secrets = \<lparr> rv_tempfiles = [], rv_by_id = Map.empty \<rparr>, cx_context_dir = ''/c'',
       cx_context = \<lparr> sx_root = [''c''], sx_name = Some ''c'', sx_resolve = Map.empty \<rparr>, cx_mode = (\<lambda>_. 0),
       cx_fetched_urls = Map.empty, cx_produced = Map.empty, cx_architecture = X86_64, cx_compression = Gzip,
       cx_globals = Map.empty, cx_build_args = Map.empty,
       cx_run = (\<lambda>_ _. Inr (Some 0, Dir [(''f'', File ''x'')])), cx_rootfs = (\<lambda>_ _. Inl (EngineRuntime ''r'')),
       cx_unpack = (\<lambda>_ _. Inl ''u''), cx_whole = (\<lambda>r. Inr r) \<rparr>"

definition example_arg :: Directive where
  "example_arg = DirArg \<lparr> ag_name = sp0 (EnvVarName ''X''), ag_default = Some (sp0 (EnvVarValue ''v'')), ag_span = Span_new 0 0 \<rparr>"

definition example_run :: Run where
  "example_run = \<lparr> rn_command = RunShell (sp0 ''a ${X}''), rn_mounts = [], rn_span = Span_new 0 0 \<rparr>"

definition example_store :: store where
  "example_store = \<lparr> sr_layout = layout_init, sr_cache = Map.empty \<rparr>"

abbreviation "example_walk \<equiv>
  walk_directives example_ctx [] None 1 1 2 True 0 [example_arg, DirRun example_run] example_store
    (BuildState_new (scratch_base_image X86_64) Gzip Map.empty)"

definition unadopted_result :: "EngineBuildError + StepFlow \<times> store \<times> BuildState \<Rightarrow> bool" where
  "unadopted_result r =
     (case r of Inl _ \<Rightarrow> False | Inr (flow, S, st) \<Rightarrow> flow = Continue \<and> \<not> bs_adopted_from_cache st)"

lemma example_walk_ok: "unadopted_result example_walk"
  by (simp add: unadopted_result_def example_ctx_def example_arg_def example_run_def example_store_def continue_with_def
      apply_run_def Let_def cached_layer_def push_new_layer_def step_simps apply_arg_def BuildState_new_def)

lemma example_walk_result:
  obtains S st where "example_walk = Inr (Continue, S, st)" and "\<not> bs_adopted_from_cache st"
  using example_walk_ok by (auto simp: unadopted_result_def split: sum.splits)


section \<open>Properties\<close>

text \<open>
  C7: a build always returns: whatever the recipe, the host, the registry, the cache and the hook do,
  \<open>build\<close> and \<open>build_container_stages\<close> produce a result.  The only loop without a bound in the source is
  the one that rebuilds a stage after a partial cache hit; it runs at most twice, since the second attempt
  looks nothing up.
\<close>

theorem build_returns:
  "(\<exists>r. build ctx G inputs hk ast final_ref S = Some r) \<and>
   (\<exists>r. build_container_stages ctx G is_kernel_ref inputs hk ast S = Some r)"
  by (auto simp: build_def build_container_stages_def Let_def
      split: sum.splits option.splits prod.splits)

text \<open>
  C13: the history a build records never shows the value of an \<open>ARG\<close>.  When nothing was adopted from the
  step cache, the lines recorded for a stage are, in order, the ones its directives have in the text of the
  recipe: they depend neither on \<open>--build-arg\<close> values nor on defaults, secrets or the file system.
\<close>

theorem history_is_recipe_text:
  assumes "walk_directives ctx lowers hk si stot tot lookup_cache n ds S (BuildState_new base z globals)
             = Inr (Continue, S', st)"
    and "\<not> bs_adopted_from_cache st"
  shows "map he_created_by (ic_history (finalise_image_config st)) =
           map he_created_by (ic_history (ba_config base)) @ map Some (concat (map recipe_lines ds))"
  using walk_unadopted [OF assms] by (simp add: finalise_image_config_def BuildState_new_def)

theorem history_is_recipe_text_witness:
  "\<exists>S st. example_walk = Inr (Continue, S, st) \<and>
     map he_created_by (ic_history (finalise_image_config st)) = [Some ''RUN a ${X}'']"
proof -
  obtain S st where "example_walk = Inr (Continue, S, st)" and "\<not> bs_adopted_from_cache st"
    by (rule example_walk_result)
  from this(1) history_is_recipe_text [OF this] show ?thesis
    by (simp add: scratch_base_image_def ImageConfig_default_def example_arg_def example_run_def run_summary_def sp0_def)
qed

text \<open>
  C33: the layers and the history of a stage agree at every point of the walk.  The layer chain is the chain
  of the base image followed by the new layers, and there is exactly one history entry not marked as an
  empty layer for each new layer.
\<close>

theorem stage_layers_match_history:
  assumes "walk_directives ctx lowers hk si stot tot lookup_cache n ds S (BuildState_new base z globals)
             = Inr (flow, S', st)"
  shows "assemble_layer_chain st = ba_layers base @ bs_new_layers st \<and>
         length (filter (\<lambda>h. \<not> he_empty_layer h) (ic_history (finalise_image_config st))) =
         length (filter (\<lambda>h. \<not> he_empty_layer h) (ic_history (ba_config base))) + length (bs_new_layers st)"
proof -
  have entries: "layer_entries s = length (filter (\<lambda>h. \<not> he_empty_layer h) (bs_history s))" for s :: BuildState
    by (simp add: filter_map o_def)
  have "stage_inv (cx_host ctx) (ba_layers base) (layer_entries (BuildState_new base z globals)) st"
    using assms by (rule walk_inv) (rule stage_inv_new)
  then show ?thesis
    unfolding stage_inv_def entries finalise_image_config_def by (simp add: BuildState_new_def)
qed

theorem stage_layers_match_history_witness:
  "\<exists>S st. example_walk = Inr (Continue, S, st) \<and> assemble_layer_chain st = bs_new_layers st"
proof -
  obtain S st where "example_walk = Inr (Continue, S, st)" by (rule example_walk_result)
  with stage_layers_match_history [OF this] show ?thesis by (simp add: scratch_base_image_def)
qed




definition example_stage :: "string \<Rightarrow> Directive list \<Rightarrow> Stage" where
  "example_stage name ds =
     \<lparr> st_from = \<lparr> fr_source = Scratch, fr_span = Span_new 0 0 \<rparr>, st_name = Some (sp0 (StageName name)),
       st_directives = ds, st_span = Span_new 0 0 \<rparr>"

definition example_add :: "AddSource \<Rightarrow> string option \<Rightarrow> Directive" where
  "example_add src from =
     DirAdd \<lparr> ad_source = src, ad_destination = sp0 (RecipePath ''/d''),
       ad_from = map_option (\<lambda>t. sp0 (StageName t)) from, ad_plain_copy = False, ad_span = Span_new 0 0 \<rparr>"


text \<open>
  C8: the preparation provides everything the stages look up.  After it succeeded, no stage fails because a
  URL payload was not staged or because the stage of a \<open>--from\<close> was not produced: the prefetch and the
  directive walk evaluate \<open>ARG\<close> values alike, and stages are built in the order the check assumes.
\<close>

theorem prepared_build_finds_everything:
  assumes "prepare_staged_build ctx G inputs ast (ast_stages ast) = Inr (sec, fetched)"
    and "build_stages (ctx_for ctx ast sec fetched) G hk ref_of stage_total i (ast_stages ast) Map.empty last_entry S
           = Some (Inl e)"
  shows "\<not> unprepared e"
proof -
  have "check_stages {} (ast_stages ast) = None"
    and p: "prefetch (\<lambda>url. snd (fetch_url (cx_codec ctx) (eg_net G) (eg_policy G) url)) (cx_build_args ctx)
          (resolve_global_args (cx_build_args ctx) ast) (ast_stages ast) Map.empty = Inr fetched"
    using assms(1) by (auto simp: prepare_staged_build_def check_cross_stage_refs_def split: option.splits sum.splits)
  then show ?thesis
    using build_stages_error [OF assms(2)] prefetch_covers [OF p] by (simp add: ctx_for_def)
qed

definition example_engine :: engine where
  "example_engine =
     \<lparr> eg_doc = Map.empty, eg_manifest = Map.empty, eg_json = Map.empty, eg_decode = Map.empty,
       eg_pull = (\<lambda>_ L. (None, L)), eg_search = [], eg_bundle = (\<lambda>_ _. Inr []),
       eg_scratch = Inl (EngineRuntime ''no overlay''), eg_encoder = example_encoder, eg_linux = ''linux'',
       eg_arch_from = id, eg_runtime = None, eg_file_exists = (\<lambda>_. False), eg_env = Map.empty, eg_tmp = (\<lambda>_. []),
       eg_net = \<lparr> nt_parse = Map.empty, nt_host = Map.empty, nt_join = (\<lambda>_ _. None), nt_resolve = Map.empty,
                  nt_get = (\<lambda>_ _. None) \<rparr>,
       eg_policy = EgressPolicy_default \<rparr>"

definition example_ast :: Ast where
  "example_ast = \<lparr> ast_global_args = [], ast_stages = [example_stage ''a'' []] \<rparr>"

theorem prepared_build_finds_everything_witness:
  "\<exists>sec fetched.
     prepare_staged_build example_ctx example_engine [] example_ast (ast_stages example_ast) = Inr (sec, fetched) \<and>
     build_stages (ctx_for example_ctx example_ast sec fetched) example_engine None internal_ref 1 0
       (ast_stages example_ast) Map.empty None example_store = Some (Inl (Engine (EngineRuntime ''no overlay''))) \<and>
     \<not> unprepared (Engine (EngineRuntime ''no overlay''))"
proof -
  let ?sec = "\<lparr> rv_tempfiles = [], rv_by_id = Map.empty \<rparr> :: ResolvedSecrets"
  have p: "prepare_staged_build example_ctx example_engine [] example_ast (ast_stages example_ast) =
      Inr (?sec, Map.empty)"
    by (simp add: prepare_staged_build_def check_cross_stage_refs_def example_ast_def example_stage_def
        example_engine_def)
  have b: "build_stages (ctx_for example_ctx example_ast ?sec Map.empty) example_engine None internal_ref 1 0
      (ast_stages example_ast) Map.empty None example_store = Some (Inl (Engine (EngineRuntime ''no overlay'')))"
    by (simp add: example_ast_def example_stage_def build_one_stage_def is_scratch_def stage_base_def
        stage_attempts.simps [of _ _ _ _ _ _ _ _ True] example_engine_def)
  from p b prepared_build_finds_everything [OF p b] show ?thesis by blast
qed



end
