(* ===== verification/Cpio.thy ===== *)
theory Cpio
  imports Text_Tools
begin

unbundle bit_operations_syntax

text \<open>
  The writer of initial RAM disks, \<open>crates/umf-builder/src/initrd/cpio_newc.rs\<close>, and a reader of the
  format its header describes: a 110-byte header of hexadecimal fields, the name with a terminating zero
  byte and the payload, each padded to four bytes, up to an entry named \<open>TRAILER!!!\<close>.  Reading back what
  the writer emits gives the entries.
\<close>

section \<open>The writer\<close>

definition NEWC_MAGIC :: string where
  "NEWC_MAGIC = ''070701''"

definition S_IFMT :: u32 where
  "S_IFMT = 0xF000"

definition S_IFREG :: u32 where
  "S_IFREG = 0x8000"

definition S_IFDIR :: u32 where
  "S_IFDIR = 0x4000"

definition S_IFLNK :: u32 where
  "S_IFLNK = 0xA000"

datatype CpioKind = CpioFile string | CpioDirectory | CpioSymlink string

record CpioEntry =
  ce_path :: string
  ce_kind :: CpioKind
  ce_mode :: u32
  ce_uid :: u32
  ce_gid :: u32
  ce_mtime :: u32

type_synonym CpioWriter = "CpioEntry list"

definition cpio_push :: "CpioEntry \<Rightarrow> CpioWriter \<Rightarrow> CpioWriter" where
  "cpio_push entry w = w @ [entry]"

definition push_hex :: "u32 \<Rightarrow> string \<Rightarrow> string" where
  "push_hex v out = out @ hex_digits 8 (unat v)"

definition pad_to_4 :: "string \<Rightarrow> string" where
  "pad_to_4 out = out @ replicate ((4 - length out mod 4) mod 4) NUL"

definition write_header ::
  "u32 \<Rightarrow> u32 \<Rightarrow> u32 \<Rightarrow> u32 \<Rightarrow> u32 \<Rightarrow> u32 \<Rightarrow> u32 \<Rightarrow> u32 \<Rightarrow> string \<Rightarrow> string" where
  "write_header ino mode uid gid nlink mtime filesize namesize out =
     push_hex 0 (push_hex namesize (push_hex 0 (push_hex 0 (push_hex 0 (push_hex 0 (push_hex filesize
       (push_hex mtime (push_hex nlink (push_hex gid (push_hex uid (push_hex mode (push_hex ino
         (out @ NEWC_MAGIC)))))))))))))"

fun kind_parts :: "CpioKind \<Rightarrow> u32 \<times> string" where
  "kind_parts (CpioFile bytes) = (S_IFREG, bytes)"
| "kind_parts CpioDirectory = (S_IFDIR, [])"
| "kind_parts (CpioSymlink target) = (S_IFLNK, target)"

definition write_entry :: "u32 \<Rightarrow> CpioEntry \<Rightarrow> string \<Rightarrow> string" where
  "write_entry ino entry out =
     (let (filetype, payload) = kind_parts (ce_kind entry);
          nlink = (if ce_kind entry = CpioDirectory then 2 else 1);
          mode = (filetype AND S_IFMT) OR (ce_mode entry AND 0xFFF);
          name_bytes = ce_path entry;
          name_len_with_nul = length name_bytes + 1
      in pad_to_4 (pad_to_4
           (write_header ino mode (ce_uid entry) (ce_gid entry) nlink (ce_mtime entry)
              (of_nat (length payload)) (of_nat name_len_with_nul) out
            @ name_bytes @ [NUL]) @ payload))"

definition TRAILER :: string where
  "TRAILER = ''TRAILER!!!''"

definition write_trailer :: "string \<Rightarrow> string" where
  "write_trailer out =
     pad_to_4 (write_header 0 0 0 0 1 0 0 (of_nat (length TRAILER + 1)) out @ TRAILER @ [NUL])"

fun write_entries :: "nat \<Rightarrow> CpioEntry list \<Rightarrow> string \<Rightarrow> string" where
  "write_entries i [] out = out"
| "write_entries i (entry # entries) out = write_entries (i + 1) entries (write_entry (of_nat i + 1) entry out)"

definition finish :: "CpioWriter \<Rightarrow> string" where
  "finish w = write_trailer (write_entries 0 w [])"


section \<open>A reader\<close>

definition hex_val :: "char \<Rightarrow> nat" where
  "hex_val c = (if byte c \<le> 57 then byte c - 48 else byte c - 55)"

definition read_hex :: "string \<Rightarrow> nat" where
  "read_hex s = foldl (\<lambda>n c. 16 * n + hex_val c) 0 s"

definition field :: "nat \<Rightarrow> string \<Rightarrow> nat" where
  "field k s = read_hex (take 8 (drop (6 + 8 * k) s))"

definition align4 :: "nat \<Rightarrow> nat" where
  "align4 n = (n + 3) div 4 * 4"

fun kind_of :: "nat \<Rightarrow> string \<Rightarrow> CpioKind option" where
  "kind_of t data =
     (if t = 8 then Some (CpioFile data) else if t = 4 then Some CpioDirectory
      else if t = 10 then Some (CpioSymlink data) else None)"

text \<open>One entry at the front: its name, the entry, and what follows it.\<close>

definition read_entry :: "string \<Rightarrow> (string \<times> CpioEntry option \<times> string) option" where
  "read_entry s =
     (if length s < 110 \<or> take 6 s \<noteq> NEWC_MAGIC then None
      else
        let filesize = field 6 s; namesize = field 11 s;
            name = take (namesize - 1) (drop 110 s);
            start = align4 (110 + namesize);
            data = take filesize (drop start s);
            entry = map_option
              (\<lambda>k. \<lparr> ce_path = name, ce_kind = k, ce_mode = of_nat (field 1 s mod 4096), ce_uid = of_nat (field 2 s),
                     ce_gid = of_nat (field 3 s), ce_mtime = of_nat (field 5 s) \<rparr>)
              (kind_of (field 1 s div 4096) data)
        in Some (name, entry, drop (align4 (start + filesize)) s))"

lemma read_entry_shrinks: "read_entry s = Some (name, e, rest) \<Longrightarrow> length rest < length s"
  by (auto simp: read_entry_def Let_def align4_def split: if_splits)

function read_archive :: "string \<Rightarrow> CpioEntry list option" where
  "read_archive s =
     (case read_entry s of
        None \<Rightarrow> None
      | Some (name, entry, rest) \<Rightarrow>
          if name = TRAILER then Some []
          else (case entry of
                  None \<Rightarrow> None
                | Some e \<Rightarrow> (case read_archive rest of None \<Rightarrow> None | Some es \<Rightarrow> Some (e # es))))"
  by pat_completeness auto
termination read_archive
  by (relation "measure length") (auto dest: read_entry_shrinks)

declare read_archive.simps [simp del]


section \<open>Headers\<close>

lemma hex_val_digit: "k < 16 \<Longrightarrow> hex_val (hex_digit k) = k"
  by (auto simp: hex_val_def hex_digit_def byte_def)

lemma read_hex_digits: "read_hex (hex_digits w n) = n mod 16 ^ w"
  by (induction w arbitrary: n) (simp_all add: read_hex_def hex_val_digit mod_mult2_eq)

lemma read_hex_word [simp]: "read_hex (hex_digits 8 (unat (v :: u32))) = unat v"
  using u32_less [of v] by (simp add: read_hex_digits)

definition header :: "u32 list \<Rightarrow> string" where
  "header vs = NEWC_MAGIC @ concat (map (\<lambda>v. hex_digits 8 (unat v)) vs)"

lemma write_header_eq:
  "write_header ino mode uid gid nlink mtime filesize namesize out =
     out @ header [ino, mode, uid, gid, nlink, mtime, filesize, 0, 0, 0, 0, namesize, 0]"
  by (simp add: write_header_def push_hex_def header_def)

lemma length_concat_hex: "length (concat (map (\<lambda>v. hex_digits 8 (unat v)) vs)) = 8 * length vs"
  by (induction vs) auto

lemma length_header: "length (header vs) = 6 + 8 * length vs"
  by (simp add: header_def NEWC_MAGIC_def length_concat_hex)

lemma concat_hex_field:
  "k < length vs \<Longrightarrow> take 8 (drop (8 * k) (concat (map (\<lambda>v. hex_digits 8 (unat v)) vs) @ x)) = hex_digits 8 (unat (vs ! k))"
proof (induction vs arbitrary: k)
  case (Cons v vs)
  then show ?case by (cases k) auto
qed simp

lemma drop_magic: "drop (6 + m) (NEWC_MAGIC @ y) = drop m y"
  by (simp add: NEWC_MAGIC_def eval_nat_numeral)

lemma field_header: "k < length vs \<Longrightarrow> field k (header vs @ x) = unat (vs ! k)"
  by (simp only: field_def header_def append_assoc drop_magic concat_hex_field read_hex_word)


section \<open>Padding\<close>

lemma length_pad_to_4: "length (pad_to_4 x) = align4 (length x)"
proof -
  obtain q r where "length x = 4 * q + r" "r < 4" by (metis mult_div_mod_eq mod_less_divisor zero_less_numeral)
  moreover from this(2) have "r = 0 \<or> r = 1 \<or> r = 2 \<or> r = 3" by auto
  ultimately show ?thesis by (auto simp: pad_to_4_def align4_def)
qed

lemma pad_to_4_append: "length out mod 4 = 0 \<Longrightarrow> pad_to_4 (out @ x) = out @ pad_to_4 x"
  by (auto simp: pad_to_4_def elim!: dvdE)

lemma align4_mod [simp]: "align4 n mod 4 = 0"
  by (simp add: align4_def)

lemma align4_id: "n mod 4 = 0 \<Longrightarrow> align4 (n + m) = n + align4 m"
  by (auto simp: align4_def add.assoc elim!: dvdE)


section \<open>Entries\<close>

text \<open>What the header stores of an entry: the permission bits of its mode.\<close>

definition stored_entry :: "CpioEntry \<Rightarrow> CpioEntry" where
  "stored_entry e = e \<lparr> ce_mode := ce_mode e AND 0xFFF \<rparr>"

definition entry_fits :: "CpioEntry \<Rightarrow> bool" where
  "entry_fits e \<longleftrightarrow>
     ce_path e \<noteq> TRAILER \<and> length (ce_path e) + 1 < 2 ^ 32 \<and> length (snd (kind_parts (ce_kind e))) < 2 ^ 32"

lemma unat_take_drop:
  "unat (take_bit k (w :: u32)) = unat w mod 2 ^ k" "unat (drop_bit k w) = unat w div 2 ^ k"
  by (simp_all only: unsigned_take_bit_eq unsigned_drop_bit_eq take_bit_nat_def drop_bit_nat_def)
    (simp_all add: u32_less)

lemma mode_parts:
  fixes m :: u32
  assumes "t \<in> {S_IFREG, S_IFDIR, S_IFLNK}"
  shows "unat ((t AND S_IFMT) OR (m AND 0xFFF)) mod 2 ^ 12 = unat (m AND 0xFFF)"
    and "unat ((t AND S_IFMT) OR (m AND 0xFFF)) div 2 ^ 12 = unat t div 2 ^ 12"
proof -
  have mask: "(0xFFF :: u32) = mask 12" by (simp add: mask_eq_exp_minus_1)
  have t: "take_bit 12 (t AND S_IFMT) = 0" "drop_bit 12 (t AND S_IFMT) = drop_bit 12 t"
    using assms by (auto simp: S_IFREG_def S_IFDIR_def S_IFLNK_def S_IFMT_def)
  have "take_bit 12 ((t AND S_IFMT) OR (m AND 0xFFF)) = m AND 0xFFF"
    using t(1) by (simp add: take_bit_or mask flip: take_bit_eq_mask)
  then show "unat ((t AND S_IFMT) OR (m AND 0xFFF)) mod 2 ^ 12 = unat (m AND 0xFFF)"
    by (simp only: flip: unat_take_drop(1))
  have "drop_bit 12 (m AND 0xFFF) = 0"
    unfolding mask by (simp flip: take_bit_eq_mask add: drop_bit_take_bit)
  then have "drop_bit 12 ((t AND S_IFMT) OR (m AND 0xFFF)) = drop_bit 12 t"
    using t(2) by (simp add: drop_bit_or)
  then show "unat ((t AND S_IFMT) OR (m AND 0xFFF)) div 2 ^ 12 = unat t div 2 ^ 12"
    by (simp only: flip: unat_take_drop(2))
qed

text \<open>The bytes of one entry do not depend on what precedes them, as long as it is aligned.\<close>

definition entry_image :: "u32 \<Rightarrow> CpioEntry \<Rightarrow> string" where
  "entry_image ino e = write_entry ino e []"

lemma write_entry_append:
  assumes "length out mod 4 = 0"
  shows "write_entry ino e out = out @ entry_image ino e"
  using assms
  by (simp add: write_entry_def entry_image_def Let_def write_header_eq pad_to_4_append case_prod_beta)

lemma length_entry_image_mod [simp]: "length (entry_image ino e) mod 4 = 0"
  by (simp add: entry_image_def write_entry_def Let_def case_prod_beta length_pad_to_4)

lemma write_entries_append:
  "length out mod 4 = 0 \<Longrightarrow> write_entries i es out = out @ write_entries i es []"
proof (induction es arbitrary: i out)
  case (Cons e es)
  have "length (out @ entry_image (of_nat i + 1) e) mod 4 = 0"
    using Cons.prems by (simp add: mod_add_eq [symmetric] del: mod_add_eq)
  then show ?case
    using Cons.IH [of "out @ entry_image (of_nat i + 1) e"] Cons.IH [of "entry_image (of_nat i + 1) e"] Cons.prems
    by (simp add: write_entry_append write_entry_append [of "[]", simplified])
qed simp

lemma drop_pad: "length x = n \<Longrightarrow> drop (align4 n) (pad_to_4 x @ y) = y"
  by (simp add: length_pad_to_4)

lemma of_nat_u32: "n < 2 ^ 32 \<Longrightarrow> unat (of_nat n :: u32) = n"
  by (simp add: unsigned_of_nat take_bit_nat_eq_self)

lemma read_entry_block:
  assumes vs: "length vs = 13" "unat (vs ! 6) = length payload" "unat (vs ! 11) = length name + 1"
  shows "read_entry (pad_to_4 (pad_to_4 (header vs @ name @ [NUL]) @ payload) @ rest) =
     Some (name,
           map_option (\<lambda>k. \<lparr> ce_path = name, ce_kind = k, ce_mode = of_nat (unat (vs ! 1) mod 4096), ce_uid = vs ! 2,
                             ce_gid = vs ! 3, ce_mtime = vs ! 5 \<rparr>)
             (kind_of (unat (vs ! 1) div 4096) payload),
           rest)"
proof -
  let ?p1 = "pad_to_4 (header vs @ name @ [NUL])"
  let ?s = "pad_to_4 (?p1 @ payload) @ rest"
  obtain z1 where z1: "?p1 = header vs @ name @ [NUL] @ z1" by (simp add: pad_to_4_def)
  obtain z2 where z2: "pad_to_4 (?p1 @ payload) = ?p1 @ payload @ z2" by (simp add: pad_to_4_def)
  have s: "?s = header vs @ name @ [NUL] @ z1 @ payload @ z2 @ rest" by (simp add: z2) (simp add: z1)
  have f: "field k ?s = unat (vs ! k)" if "k < 13" for k
    unfolding s using that vs(1) by (simp add: field_header)
  have l: "length (header vs) = 110" using vs(1) by (simp add: length_header)
  then have lp: "length ?p1 = align4 (110 + (length name + 1))" by (simp add: length_pad_to_4)
  have "take 6 ?s = NEWC_MAGIC" unfolding s by (simp add: header_def NEWC_MAGIC_def)
  moreover have "take (length name) (drop 110 ?s) = name" unfolding s using l by simp
  moreover have "take (length payload) (drop (length ?p1) ?s) = payload" by (simp add: z2)
  moreover have "drop (align4 (length ?p1 + length payload)) ?s = rest" by (rule drop_pad) simp
  moreover have "\<not> length ?s < 110" unfolding s using l by simp
  ultimately show ?thesis
    using vs(2,3) unfolding read_entry_def Let_def lp by (simp add: f)
qed

lemma read_entry_image:
  assumes "entry_fits e"
  shows "read_entry (entry_image ino e @ rest) = Some (ce_path e, Some (stored_entry e), rest)"
proof -
  obtain t payload where k: "kind_parts (ce_kind e) = (t, payload)" by fastforce
  let ?mode = "(t AND S_IFMT) OR (ce_mode e AND 0xFFF)"
  have t: "t \<in> {S_IFREG, S_IFDIR, S_IFLNK}" using k by (cases "ce_kind e") auto
  have "kind_of (unat ?mode div 2 ^ 12) payload = Some (ce_kind e)"
    unfolding mode_parts(2) [OF t] using k
    by (cases "ce_kind e") (auto simp: S_IFREG_def S_IFDIR_def S_IFLNK_def)
  moreover have "(of_nat (unat ?mode mod 2 ^ 12) :: u32) = ce_mode e AND 0xFFF"
    unfolding mode_parts(1) [OF t] by simp
  moreover have sizes: "unat (of_nat (length payload) :: u32) = length payload"
    "unat (of_nat (length (ce_path e) + 1) :: u32) = length (ce_path e) + 1"
    using assms k by (auto simp: entry_fits_def intro!: of_nat_u32 simp del: of_nat_add of_nat_Suc)
  moreover let ?vs = "[ino, ?mode, ce_uid e, ce_gid e, if ce_kind e = CpioDirectory then 2 else 1, ce_mtime e,
      of_nat (length payload), 0, 0, 0, 0, of_nat (length (ce_path e) + 1), 0] :: u32 list"
  have "read_entry (pad_to_4 (pad_to_4 (header ?vs @ ce_path e @ [NUL]) @ payload) @ rest) =
     Some (ce_path e,
           map_option (\<lambda>k. \<lparr> ce_path = ce_path e, ce_kind = k, ce_mode = of_nat (unat (?vs ! 1) mod 4096),
                             ce_uid = ?vs ! 2, ce_gid = ?vs ! 3, ce_mtime = ?vs ! 5 \<rparr>)
             (kind_of (unat (?vs ! 1) div 4096) payload),
           rest)"
    by (rule read_entry_block) (use sizes in \<open>simp_all del: of_nat_add of_nat_Suc\<close>)
  moreover have "entry_image ino e = pad_to_4 (pad_to_4 (header ?vs @ ce_path e @ [NUL]) @ payload)"
    by (simp add: entry_image_def write_entry_def Let_def write_header_eq k)
  ultimately show ?thesis
    by (simp add: stored_entry_def del: kind_of.simps)
qed

lemma pad_to_4_idem [simp]: "pad_to_4 (pad_to_4 x) = pad_to_4 x"
  using pad_to_4_append [of "pad_to_4 x" "[]"] by (simp add: length_pad_to_4) (simp add: pad_to_4_def)

lemma read_trailer: "read_entry (write_trailer []) = Some (TRAILER, None, [])"
proof -
  let ?vs = "[0, 0, 0, 0, 1, 0, 0, 0, 0, 0, 0, of_nat (length TRAILER + 1), 0] :: u32 list"
  have "read_entry (pad_to_4 (pad_to_4 (header ?vs @ TRAILER @ [NUL]) @ []) @ []) =
     Some (TRAILER,
           map_option (\<lambda>k. \<lparr> ce_path = TRAILER, ce_kind = k, ce_mode = of_nat (unat (?vs ! 1) mod 4096),
                             ce_uid = ?vs ! 2, ce_gid = ?vs ! 3, ce_mtime = ?vs ! 5 \<rparr>)
             (kind_of (unat (?vs ! 1) div 4096) []), [])"
    by (intro read_entry_block) (simp_all add: TRAILER_def)
  then show ?thesis by (simp add: write_trailer_def write_header_eq)
qed

lemma read_archive_entries:
  assumes "list_all entry_fits es"
  shows "read_archive (write_entries i es [] @ write_trailer []) = Some (map stored_entry es)"
  using assms
proof (induction es arbitrary: i)
  case Nil
  show ?case by (subst read_archive.simps) (simp add: read_trailer)
next
  case (Cons e es)
  have "write_entries i (e # es) [] = entry_image (of_nat i + 1) e @ write_entries (i + 1) es []"
    by (simp add: write_entry_append [of "[]", simplified] write_entries_append [of "entry_image _ _"])
  then show ?case
    using Cons by (subst read_archive.simps) (simp add: read_entry_image entry_fits_def)
qed

lemma write_trailer_append: "length out mod 4 = 0 \<Longrightarrow> write_trailer out = out @ write_trailer []"
  by (simp add: write_trailer_def write_header_eq pad_to_4_append)

lemma write_entries_aligned: "length out mod 4 = 0 \<Longrightarrow> length (write_entries i es out) mod 4 = 0"
proof (induction es arbitrary: i out)
  case (Cons e es)
  then show ?case by (simp add: write_entry_append mod_add_eq [symmetric] del: mod_add_eq)
qed simp


section \<open>Property\<close>



end
