(* ===== verification/Layers.thy ===== *)
theory Layers
  imports Host_Fs Fetch
begin

text \<open>
  Packing and unpacking layers, \<open>crates/umf-oci/src/whiteout.rs\<close>, \<open>image/tar_util.rs\<close>,
  \<open>compression.rs\<close> and \<open>materialize.rs\<close>.  An upper directory of the overlay is a tree that can also hold
  deletion markers and opaque directories; an archive is the list of its entries, and the unpacker of the
  archive library is a parameter.  Paths are lists of components, since the code only compares, joins and
  takes apart components.
\<close>

section \<open>Whiteouts\<close>

definition WH_PREFIX :: string where
  "WH_PREFIX = ''.wh.''"

definition WH_OPAQUE :: string where
  "WH_OPAQUE = ''.wh..wh..opq''"

definition OPAQUE_XATTRS :: "string list" where
  "OPAQUE_XATTRS = [''trusted.overlay.opaque'', ''user.overlay.opaque'', ''user.fuseoverlayfs.opaque'']"

definition whiteout_name :: "string \<Rightarrow> string" where
  "whiteout_name name = WH_PREFIX @ name"

text \<open>The nodes of an upper directory; a directory carries the extended attributes that can be read.\<close>

datatype upper_node =
    UFile string
  | USymlink string
  | UDir "(string \<times> string) list" "(string \<times> upper_node) list"
  | UCharDevice nat
  | USpecial

definition is_overlay_deletion :: "upper_node \<Rightarrow> bool" where
  "is_overlay_deletion n \<longleftrightarrow> n = UCharDevice 0"

definition is_opaque_dir :: "(string \<times> string) list \<Rightarrow> bool" where
  "is_opaque_dir xattrs \<longleftrightarrow> list_ex (\<lambda>name. map_of xattrs name = Some ''y'') OPAQUE_XATTRS"


section \<open>Packing\<close>

datatype tar_kind = TarDir | TarFile string | TarSymlink string | TarOther string

record tar_entry =
  tt_path :: "component list"
  tt_kind :: tar_kind

definition append_marker :: "string list \<Rightarrow> tar_entry" where
  "append_marker relative = \<lparr> tt_path = map Normal relative, tt_kind = TarFile [] \<rparr>"

text \<open>\<open>collect_sorted\<close> visits the children of a directory in the order of their names.\<close>

fun collect_sorted :: "string list \<Rightarrow> (string \<times> upper_node) list \<Rightarrow> (string list \<times> upper_node) list" where
  "collect_sorted pre [] = []"
| "collect_sorted pre ((name, UDir xs es) # rest) =
     (pre @ [name], UDir xs es) # collect_sorted (pre @ [name]) es @ collect_sorted pre rest"
| "collect_sorted pre ((name, n) # rest) = (pre @ [name], n) # collect_sorted pre rest"

fun sort_tree :: "upper_node \<Rightarrow> upper_node" where
  "sort_tree (UDir xs es) = UDir xs (sort_key fst (map (\<lambda>(name, n). (name, sort_tree n)) es))"
| "sort_tree n = n"

fun pack_entry :: "string list \<times> upper_node \<Rightarrow> tar_entry list" where
  "pack_entry (relative, USymlink target) = [\<lparr> tt_path = map Normal relative, tt_kind = TarSymlink target \<rparr>]"
| "pack_entry (relative, UDir xs es) =
     \<lparr> tt_path = map Normal relative, tt_kind = TarDir \<rparr> #
     (if is_opaque_dir xs then [append_marker (relative @ [WH_OPAQUE])] else [])"
| "pack_entry (relative, UFile bytes) = [\<lparr> tt_path = map Normal relative, tt_kind = TarFile bytes \<rparr>]"
| "pack_entry (relative, UCharDevice rdev) =
     (if is_overlay_deletion (UCharDevice rdev)
      then [append_marker (butlast relative @ [whiteout_name (last relative)])] else [])"
| "pack_entry (relative, USpecial) = []"

definition build_tar :: "(string \<times> upper_node) list \<Rightarrow> tar_entry list" where
  "build_tar root =
     (case sort_tree (UDir [] root) of
        UDir _ es \<Rightarrow> concat (map pack_entry (collect_sorted [] es))
      | _ \<Rightarrow> [])"


section \<open>Decoding\<close>

definition DEFAULT_MAX_UNCOMPRESSED_LAYER_BYTES :: nat where
  "DEFAULT_MAX_UNCOMPRESSED_LAYER_BYTES = 32 * 1024 * 1024 * 1024"

definition max_uncompressed_layer_bytes :: "string option \<Rightarrow> nat" where
  "max_uncompressed_layer_bytes var =
     (case Option.bind var (\<lambda>v. parse_uint 64 (trim v)) of
        Some v \<Rightarrow> if v > 0 then v else DEFAULT_MAX_UNCOMPRESSED_LAYER_BYTES
      | None \<Rightarrow> DEFAULT_MAX_UNCOMPRESSED_LAYER_BYTES)"

text \<open>A reader as the chunks it yields; \<open>capped_read\<close> is what a consumer that reads to the end obtains.\<close>

fun capped_read :: "nat \<Rightarrow> string list \<Rightarrow> io_error + string" where
  "capped_read remaining [] = Inr []"
| "capped_read remaining (chunk # chunks) =
     (if length chunk > remaining then Inl InvalidData
      else case capped_read (remaining - length chunk) chunks of
             Inl e \<Rightarrow> Inl e
           | Inr bytes \<Rightarrow> Inr (chunk @ bytes))"

datatype DecodeError = NotATar string | DecoderInit string | DecodeIo io_error

text \<open>\<open>decoder f bytes\<close> is the chunks the decoder of a codec yields, or \<open>None\<close> when it cannot start.\<close>

definition decode_tar_stream_capped ::
  "(Format \<Rightarrow> string \<Rightarrow> string list option) \<Rightarrow> nat \<Rightarrow> string \<Rightarrow> DecodeError + Format \<times> string" where
  "decode_tar_stream_capped decoder cap source =
     (let format = detect (take 512 source);
          through = (\<lambda>chunks. case capped_read cap chunks of Inl e \<Rightarrow> Inl (DecodeIo e) | Inr b \<Rightarrow> Inr (format, b))
      in case format of
           FmtZip \<Rightarrow> Inl (NotATar ''zip'')
         | FmtSquashfs \<Rightarrow> Inl (NotATar ''squashfs'')
         | FmtTar \<Rightarrow> through [source]
         | FmtUnknown \<Rightarrow> through [source]
         | _ \<Rightarrow> (case decoder format source of
                   None \<Rightarrow> Inl (DecoderInit (Format_as_str format))
                 | Some chunks \<Rightarrow> through chunks))"


section \<open>Unpacking\<close>

datatype Whiteout = Opaque "component list" | Remove "component list" | NoWhiteout

definition classify_entry :: "component list \<Rightarrow> Whiteout" where
  "classify_entry path =
     (case rev path of
        Normal name # rparent \<Rightarrow>
          if name = WH_OPAQUE then Opaque (rev rparent)
          else (case strip_prefix name WH_PREFIX of
                  Some original \<Rightarrow>
                    Remove (rev rparent @ (case component_of original of Some c \<Rightarrow> [c] | None \<Rightarrow> []))
                | None \<Rightarrow> NoWhiteout)
      | _ \<Rightarrow> NoWhiteout)"

text \<open>The target directory, \<open>None\<close> once it is gone.\<close>

type_synonym target = "node option"

definition lget :: "target \<Rightarrow> string list \<Rightarrow> node option" where
  "lget t p = Option.bind t (\<lambda>n. get n p)"

fun descend :: "target \<Rightarrow> bool \<Rightarrow> string list \<Rightarrow> string list \<Rightarrow> io_error + string list option" where
  "descend t allow cur [] = Inr (Some cur)"
| "descend t allow cur (c # cs) =
     (case lget t (cur @ [c]) of
        Some (Symlink _) \<Rightarrow> Inr (if cs = [] \<and> allow then Some (cur @ [c]) else None)
      | Some _ \<Rightarrow> descend t allow (cur @ [c]) cs
      | None \<Rightarrow> (case lget t cur of Some (File _) \<Rightarrow> Inl NotADirectory | _ \<Rightarrow> Inr None))"

definition safe_descend :: "target \<Rightarrow> component list \<Rightarrow> bool \<Rightarrow> io_error + string list option" where
  "safe_descend t rel allow_final_symlink =
     (if RootDir \<in> set rel \<or> ParentDir \<in> set rel then Inl InvalidData
      else descend t allow_final_symlink [] (normals rel))"

definition remove_path :: "target \<Rightarrow> string list \<Rightarrow> target" where
  "remove_path t p = (if p = [] then None else map_option (\<lambda>n. del n p) t)"

fun clear_children :: "target \<Rightarrow> string list \<Rightarrow> string list set \<Rightarrow> string list \<Rightarrow> target" where
  "clear_children t dir keep [] = t"
| "clear_children t dir keep (child # children) =
     clear_children (if dir @ [child] \<in> keep then t else remove_path t (dir @ [child])) dir keep children"

text \<open>
  The clear looks the directory up by its path: when the path now ends at or leads through a link, the
  children of what the link leads to are removed.  Such paths are returned as the second component.
\<close>

definition clear_dir :: "target \<Rightarrow> string list \<Rightarrow> string list set \<Rightarrow> target \<times> string list list" where
  "clear_dir t dir keep =
     (case lget t dir of
        Some (Dir es) \<Rightarrow> (clear_children t dir keep (map fst es), [])
      | Some (Symlink _) \<Rightarrow> (t, [dir])
      | Some (File _) \<Rightarrow> (t, [])
      | None \<Rightarrow> (t, if (case t of Some n \<Rightarrow> through_link n dir | None \<Rightarrow> False) then [dir] else []))"

type_synonym unpacker = "component list \<Rightarrow> tar_kind \<Rightarrow> target \<Rightarrow> io_error + bool \<times> target"

fun unpack_pass ::
  "unpacker \<Rightarrow> tar_entry list \<Rightarrow> target \<Rightarrow> string list list \<Rightarrow> string list set \<Rightarrow>
     io_error + target \<times> string list list \<times> string list set" where
  "unpack_pass unpack [] t opaque_dirs written = Inr (t, opaque_dirs, written)"
| "unpack_pass unpack (entry # entries) t opaque_dirs written =
     (case classify_entry (tt_path entry) of
        Opaque dir \<Rightarrow>
          (case safe_descend t dir False of
             Inl e \<Rightarrow> Inl e
           | Inr None \<Rightarrow> unpack_pass unpack entries t opaque_dirs written
           | Inr (Some p) \<Rightarrow> unpack_pass unpack entries t (opaque_dirs @ [p]) written)
      | Remove victim \<Rightarrow>
          (case safe_descend t victim True of
             Inl e \<Rightarrow> Inl e
           | Inr None \<Rightarrow> unpack_pass unpack entries t opaque_dirs written
           | Inr (Some p) \<Rightarrow> unpack_pass unpack entries (remove_path t p) opaque_dirs written)
      | NoWhiteout \<Rightarrow>
          (case unpack (tt_path entry) (tt_kind entry) t of
             Inl e \<Rightarrow> Inl e
           | Inr (done, t') \<Rightarrow>
               unpack_pass unpack entries t' opaque_dirs
                 (if done \<and> RootDir \<notin> set (tt_path entry) then insert (normals (tt_path entry)) written
                  else written)))"

fun clear_all :: "target \<Rightarrow> string list list \<Rightarrow> string list set \<Rightarrow> target \<times> string list list" where
  "clear_all t [] written = (t, [])"
| "clear_all t (dir # dirs) written =
     (case clear_dir t dir written of
        (t', outside) \<Rightarrow> (case clear_all t' dirs written of (t'', outside') \<Rightarrow> (t'', outside @ outside')))"

definition apply_tar :: "unpacker \<Rightarrow> tar_entry list \<Rightarrow> target \<Rightarrow> io_error + target \<times> string list list" where
  "apply_tar unpack entries t =
     (case unpack_pass unpack entries t [] {} of
        Inl e \<Rightarrow> Inl e
      | Inr (t', opaque_dirs, written) \<Rightarrow> Inr (clear_all t' opaque_dirs written))"

text \<open>\<open>archive bytes\<close> is the entries the archive library reads.\<close>

definition apply_layer ::
  "(Format \<Rightarrow> string \<Rightarrow> string list option) \<Rightarrow> nat \<Rightarrow> (string \<Rightarrow> tar_entry list) \<Rightarrow> unpacker \<Rightarrow> string \<Rightarrow> target \<Rightarrow>
     io_error + target \<times> string list list" where
  "apply_layer decoder cap archive unpack source t =
     (case decode_tar_stream_capped decoder cap source of
        Inl _ \<Rightarrow> Inl InvalidData
      | Inr (_, bytes) \<Rightarrow> apply_tar unpack (archive bytes) t)"

datatype MaterializeError = MatLayout RegistryError | MatLayer string io_error | MatIo io_error

fun materialize_layers ::
  "(Format \<Rightarrow> string \<Rightarrow> string list option) \<Rightarrow> nat \<Rightarrow> (string \<Rightarrow> tar_entry list) \<Rightarrow> unpacker \<Rightarrow> layout \<Rightarrow> string list \<Rightarrow>
     target \<Rightarrow> MaterializeError + target" where
  "materialize_layers decoder cap archive unpack L [] t = Inr t"
| "materialize_layers decoder cap archive unpack L (digest # digests) t =
     (case blob_path digest of
        Inl e \<Rightarrow> Inl (MatLayout e)
      | Inr path \<Rightarrow>
          (case map_of (ly_blobs L) (last path) of
             None \<Rightarrow> Inl (MatIo NotFoundIo)
           | Some bytes \<Rightarrow>
               (case apply_layer decoder cap archive unpack bytes t of
                  Inl e \<Rightarrow> Inl (MatLayer digest e)
                | Inr (t', _) \<Rightarrow> materialize_layers decoder cap archive unpack L digests t')))"

end
