(* ===== verification/Layer_Laws.thy ===== *)
theory Layer_Laws
  imports Layers
begin

text \<open>
  Packing an upper directory and unpacking the layer gives the merged view an overlay of the upper on the
  lower directories has; and where the deletions of a layer can reach.
\<close>

section \<open>The ceiling on decoded layers\<close>

lemma capped_read_bound: "capped_read cap chunks = Inr b \<Longrightarrow> b = concat chunks \<and> length b \<le> cap"
  by (induction cap chunks arbitrary: b rule: capped_read.induct) (fastforce split: if_splits sum.splits)+


section \<open>Kinds of nodes\<close>

datatype node_kind = KFile string | KLink string | KDir

fun kind_of :: "node \<Rightarrow> node_kind" where
  "kind_of (File b) = KFile b"
| "kind_of (Symlink s) = KLink s"
| "kind_of (Dir _) = KDir"

definition kind_at :: "node \<Rightarrow> string list \<Rightarrow> node_kind option" where
  "kind_at t p = map_option kind_of (get t p)"

lemma kind_at_Nil [simp]: "kind_at t [] = Some (kind_of t)"
  by (simp add: kind_at_def)

lemma kind_at_dir: "kind_at t p = Some KDir \<longleftrightarrow> is_dir (get t p)"
proof (cases "get t p")
  case (Some n)
  then show ?thesis by (cases n) (auto simp: kind_at_def)
qed (simp add: kind_at_def)

lemma kind_at_None: "kind_at t p = None \<longleftrightarrow> get t p = None"
  by (simp add: kind_at_def)

lemma dirs_to_above: "dirs_to t p \<Longrightarrow> strict_prefix q p \<Longrightarrow> is_dir (get t q)"
proof (induction t p arbitrary: q rule: dirs_to.induct)
  case (2 es c cs)
  then show ?case by (cases q) (auto split: option.splits)
qed auto

lemma is_dir_del: "dirs_to t p \<Longrightarrow> strict_prefix q p \<Longrightarrow> is_dir (get (del t p) q)"
proof (induction t p arbitrary: q rule: del.induct)
  case (2 es c)
  then show ?case by (cases q) auto
next
  case (3 es c d cs)
  then show ?case by (cases q) (auto split: option.splits)
qed auto

lemma kind_at_put:
  assumes "dirs_to t p"
  shows "kind_at (put t p m) q = (if prefix p q then kind_at m (drop (length p) q) else kind_at t q)"
proof (cases "prefix p q")
  case True
  then show ?thesis using assms by (auto simp: prefix_def kind_at_def get_put_below)
next
  case False
  show ?thesis
  proof (cases "prefix q p")
    case True
    then have "strict_prefix q p" using False by (auto simp: strict_prefix_def)
    then show ?thesis
      using False assms is_dir_put [of t p q m] dirs_to_above [of t p q] by (simp flip: kind_at_dir)
  qed (use False assms in \<open>simp add: kind_at_def get_put_apart\<close>)
qed

lemma kind_at_del:
  assumes "dirs_to t p" and "p \<noteq> []"
  shows "kind_at (del t p) q = (if prefix p q then None else kind_at t q)"
proof (cases "prefix p q")
  case True
  then show ?thesis using assms by (auto simp: prefix_def kind_at_def get_del_below)
next
  case False
  show ?thesis
  proof (cases "prefix q p")
    case True
    then have "strict_prefix q p" using False by (auto simp: strict_prefix_def)
    then show ?thesis
      using False assms is_dir_del [of t p q] dirs_to_above [of t p q] by (simp flip: kind_at_dir)
  qed (use False in \<open>simp add: kind_at_def get_del_apart\<close>)
qed

lemma dirs_to_below: "is_dir (get t p) \<Longrightarrow> dirs_to t (p @ [c])"
  by (induction t p rule: get.induct) (auto simp: is_dir_def split: option.splits)

lemma dir_prefix: "is_dir (get t (p @ q)) \<Longrightarrow> is_dir (get t p)"
  using dirs_to_above [OF dirs_to_below, of t "p @ q" p] by (auto simp: strict_prefix_def)

lemma kind_below_None: "kind_at t p = None \<Longrightarrow> kind_at t (p @ q) = None"
  by (simp add: kind_at_def get_append)


section \<open>Overlays\<close>

text \<open>What an overlay shows of the entries of an upper directory on a lower one.\<close>

fun overlay_kind ::
  "(string \<times> upper_node) list \<Rightarrow> (string list \<Rightarrow> node_kind option) \<Rightarrow> string list \<Rightarrow> node_kind option" where
  "overlay_kind es low [] = Some KDir"
| "overlay_kind es low (n # q) =
     (case map_of es n of
        None \<Rightarrow> low (n # q)
      | Some (UFile b) \<Rightarrow> if q = [] then Some (KFile b) else None
      | Some (USymlink s) \<Rightarrow> if q = [] then Some (KLink s) else None
      | Some (UDir xs sub) \<Rightarrow> overlay_kind sub (\<lambda>r. if is_opaque_dir xs then None else low (n # r)) q
      | Some (UCharDevice rdev) \<Rightarrow> if rdev = 0 then None else low (n # q)
      | Some USpecial \<Rightarrow> low (n # q))"

text \<open>
  The uppers considered: names are proper and not whiteout markers, no directory is opaque, and neither
  side has a directory where the other has something else.
\<close>

definition name_ok :: "string \<Rightarrow> bool" where
  "name_ok n \<longleftrightarrow> component_of n = Some (Normal n) \<and> strip_prefix n WH_PREFIX = None"

fun plain_upper :: "(string list \<Rightarrow> node_kind option) \<Rightarrow> (string \<times> upper_node) list \<Rightarrow> bool" where
  "plain_upper low [] = True"
| "plain_upper low ((n, UDir xs es) # rest) \<longleftrightarrow>
     name_ok n \<and> n \<notin> fst ` set rest \<and> \<not> is_opaque_dir xs \<and> low [n] \<in> {None, Some KDir} \<and>
     plain_upper (\<lambda>r. low (n # r)) es \<and> plain_upper low rest"
| "plain_upper low ((n, UFile _) # rest) \<longleftrightarrow>
     name_ok n \<and> n \<notin> fst ` set rest \<and> low [n] \<noteq> Some KDir \<and> plain_upper low rest"
| "plain_upper low ((n, USymlink _) # rest) \<longleftrightarrow>
     name_ok n \<and> n \<notin> fst ` set rest \<and> low [n] \<noteq> Some KDir \<and> plain_upper low rest"
| "plain_upper low ((n, UCharDevice _) # rest) \<longleftrightarrow> name_ok n \<and> n \<notin> fst ` set rest \<and> plain_upper low rest"
| "plain_upper low ((n, USpecial) # rest) \<longleftrightarrow> name_ok n \<and> n \<notin> fst ` set rest \<and> plain_upper low rest"

lemma plain_upper_cong:
  "(\<And>n r. n \<in> fst ` set es \<Longrightarrow> low (n # r) = low' (n # r)) \<Longrightarrow> plain_upper low es = plain_upper low' es"
proof (induction low es arbitrary: low' rule: plain_upper.induct)
  case (2 low n xs es rest)
  have "(\<lambda>r. low (n # r)) = (\<lambda>r. low' (n # r))" using "2.prems" by auto
  moreover have "plain_upper low rest = plain_upper low' rest" using 2 by auto
  moreover have "low [n] = low' [n]" using "2.prems" by auto
  ultimately show ?case by simp
qed auto

lemma overlay_kind_cong:
  assumes "\<And>r. r \<noteq> [] \<Longrightarrow> low r = low' r"
  shows "overlay_kind es low q = overlay_kind es low' q"
proof (cases q)
  case (Cons n r)
  have "low (n # x) = low' (n # x)" for x by (rule assms) simp
  then show ?thesis by (simp add: Cons cong: if_cong split: option.split upper_node.split)
qed simp

text \<open>What is relied on of the unpacker: directories, files and links below real directories.\<close>

definition unpack_ok :: "unpacker \<Rightarrow> bool" where
  "unpack_ok unpack \<longleftrightarrow>
     (\<forall>t p. p \<noteq> [] \<longrightarrow> dirs_to t p \<longrightarrow>
        (is_dir (get t p) \<longrightarrow> unpack (map Normal p) TarDir (Some t) = Inr (True, Some t)) \<and>
        (get t p = None \<longrightarrow> unpack (map Normal p) TarDir (Some t) = Inr (True, Some (put t p (Dir [])))) \<and>
        (\<not> is_dir (get t p) \<longrightarrow>
           (\<forall>b. unpack (map Normal p) (TarFile b) (Some t) = Inr (True, Some (put t p (File b)))) \<and>
           (\<forall>s. unpack (map Normal p) (TarSymlink s) (Some t) = Inr (True, Some (put t p (Symlink s))))))"


section \<open>Entries of a packed layer\<close>

lemma strip_prefix_append [simp]: "strip_prefix (p @ y) p = Some y"
  by (simp add: strip_prefix_def starts_with_def)

lemma WH_OPAQUE_prefix: "WH_OPAQUE = WH_PREFIX @ ''.wh..opq''"
  by (simp add: WH_OPAQUE_def WH_PREFIX_def)

lemma name_ok_not_opaque: "name_ok n \<Longrightarrow> n \<noteq> WH_OPAQUE"
  by (auto simp: name_ok_def WH_OPAQUE_prefix)

lemma classify_plain: "name_ok n \<Longrightarrow> classify_entry (map Normal (pre @ [n])) = NoWhiteout"
  using name_ok_not_opaque [of n] by (auto simp: classify_entry_def name_ok_def)

lemma whiteout_name_not_opaque:
  assumes "name_ok n"
  shows "WH_PREFIX @ n \<noteq> WH_OPAQUE"
proof
  assume "WH_PREFIX @ n = WH_OPAQUE"
  then have "n = WH_PREFIX @ ''.opq''" by (simp add: WH_OPAQUE_def WH_PREFIX_def)
  with assms show False by (simp add: name_ok_def)
qed

lemma classify_deletion:
  assumes "name_ok n"
  shows "classify_entry (map Normal (pre @ [whiteout_name n])) = Remove (map Normal (pre @ [n]))"
  using assms whiteout_name_not_opaque [OF assms]
  by (simp add: classify_entry_def name_ok_def whiteout_name_def)

lemma normals_map [simp]: "normals (map Normal p) = p"
  by (induction p) (auto simp: normals_def)

lemma map_Normal_safe [simp]: "RootDir \<notin> set (map Normal p)" "ParentDir \<notin> set (map Normal p)"
  by auto

lemma descend_dirs:
  "is_dir (get t (cur @ p)) \<Longrightarrow> descend (Some t) a cur (p @ cs) = descend (Some t) a (cur @ p) cs"
proof (induction p arbitrary: cur)
  case (Cons c p)
  then have "is_dir (get t (cur @ [c]))" using dir_prefix [of t "cur @ [c]" p] by simp
  then show ?case using Cons by (auto simp: lget_def is_dir_def)
qed simp

lemma descend_leaf:
  assumes "is_dir (get t pre)"
  shows "safe_descend (Some t) (map Normal (pre @ [n])) True =
    Inr (if get t (pre @ [n]) = None then None else Some (pre @ [n]))"
  using assms descend_dirs [of t "[]" pre True "[n]"]
  by (auto simp: safe_descend_def lget_def is_dir_def simp del: map_append split: option.splits node.splits)


section \<open>One entry of the upper directory\<close>

text \<open>
  \<open>shows_at pre n k t t'\<close>: \<open>t'\<close> differs from \<open>t\<close> only below \<open>pre @ [n]\<close>, where it shows \<open>k\<close>.
\<close>

definition shows_at ::
  "string list \<Rightarrow> string \<Rightarrow> (string list \<Rightarrow> node_kind option) \<Rightarrow> node \<Rightarrow> node \<Rightarrow> bool" where
  "shows_at pre n k t t' \<longleftrightarrow>
     (\<forall>q. kind_at t' q = (if prefix (pre @ [n]) q then k (drop (length pre + 1) q) else kind_at t q))"

lemma shows_at_dir: "shows_at pre n k t t' \<Longrightarrow> is_dir (get t pre) \<Longrightarrow> is_dir (get t' pre)"
  by (auto simp: shows_at_def simp flip: kind_at_dir)

lemma shows_at_put:
  assumes "is_dir (get t pre)"
  shows "shows_at pre n (kind_at m) t (put t (pre @ [n]) m)"
  using kind_at_put [OF dirs_to_below [OF assms], of n m] by (simp add: shows_at_def)

lemma shows_at_del:
  assumes "is_dir (get t pre)"
  shows "shows_at pre n (\<lambda>_. None) t (del t (pre @ [n]))"
  using kind_at_del [OF dirs_to_below [OF assms], of n] by (simp add: shows_at_def)

lemma prefix_snoc_iff: "prefix (pre @ [n]) q \<longleftrightarrow> (\<exists>r. q = pre @ n # r)"
  by (auto simp: prefix_def)

lemma shows_at_self:
  "(\<And>r. k r = kind_at t (pre @ n # r)) \<Longrightarrow> shows_at pre n k t t"
  by (auto simp: shows_at_def prefix_snoc_iff)

lemma shows_at_below: "shows_at pre n k t t' \<Longrightarrow> kind_at t' (pre @ n # r) = k r"
  by (auto simp: shows_at_def prefix_snoc_iff)

lemma shows_at_beside: "shows_at pre n k t t' \<Longrightarrow> m \<noteq> n \<Longrightarrow> kind_at t' (pre @ m # r) = kind_at t (pre @ m # r)"
  by (auto simp: shows_at_def prefix_snoc_iff)

lemma shows_at_apart: "shows_at pre n k t t' \<Longrightarrow> \<not> prefix pre q \<Longrightarrow> kind_at t' q = kind_at t q"
  by (auto simp: shows_at_def prefix_snoc_iff)

text \<open>\<open>unpacks_to\<close>: a run of entries leads from one tree to another, whatever follows.\<close>

definition unpacks_to :: "unpacker \<Rightarrow> tar_entry list \<Rightarrow> node \<Rightarrow> node \<Rightarrow> bool" where
  "unpacks_to unpack es t t' \<longleftrightarrow>
     (\<forall>rest opq written. \<exists>written'.
        unpack_pass unpack (es @ rest) (Some t) opq written = unpack_pass unpack rest (Some t') opq written')"

lemma unpacks_to_Nil: "unpacks_to unpack [] t t"
  by (auto simp: unpacks_to_def)

lemma unpacks_to_append:
  "unpacks_to unpack es t t1 \<Longrightarrow> unpacks_to unpack fs t1 t2 \<Longrightarrow> unpacks_to unpack (es @ fs) t t2"
  unfolding unpacks_to_def by (metis append_assoc)

lemma unpacks_to_plain:
  assumes "name_ok n" and "unpack (map Normal (pre @ [n])) k (Some t) = Inr (b, Some t')"
  shows "unpacks_to unpack [\<lparr> tt_path = map Normal (pre @ [n]), tt_kind = k \<rparr>] t t'"
  using assms by (auto simp: unpacks_to_def classify_plain simp del: map_append)

lemma unpacks_to_deletion:
  assumes "name_ok n" and "is_dir (get t pre)"
  shows "\<exists>t'. unpacks_to unpack [append_marker (pre @ [whiteout_name n])] t t' \<and> shows_at pre n (\<lambda>_. None) t t'"
proof (cases "get t (pre @ [n]) = None")
  case True
  then have "kind_at t (pre @ n # r) = None" for r
    using kind_below_None [of t "pre @ [n]" r] by (simp add: kind_at_None)
  then have "shows_at pre n (\<lambda>_. None) t t" by (intro shows_at_self) simp
  moreover have "unpacks_to unpack [append_marker (pre @ [whiteout_name n])] t t"
    using True assms
    by (auto simp: unpacks_to_def append_marker_def classify_deletion descend_leaf simp del: map_append)
  ultimately show ?thesis by blast
next
  case False
  then have "unpacks_to unpack [append_marker (pre @ [whiteout_name n])] t (del t (pre @ [n]))"
    using assms
    by (auto simp: unpacks_to_def append_marker_def classify_deletion descend_leaf remove_path_def simp del: map_append)
  then show ?thesis using shows_at_del [OF assms(2)] by blast
qed


section \<open>A packed upper directory\<close>

definition packed :: "string list \<Rightarrow> (string \<times> upper_node) list \<Rightarrow> tar_entry list" where
  "packed pre es = concat (map pack_entry (collect_sorted pre es))"

lemma packed_simps:
  "packed pre [] = []"
  "packed pre ((n, UDir xs es) # rest) =
     pack_entry (pre @ [n], UDir xs es) @ packed (pre @ [n]) es @ packed pre rest"
  "packed pre ((n, UFile b) # rest) = pack_entry (pre @ [n], UFile b) @ packed pre rest"
  "packed pre ((n, USymlink l) # rest) = pack_entry (pre @ [n], USymlink l) @ packed pre rest"
  "packed pre ((n, UCharDevice r) # rest) = pack_entry (pre @ [n], UCharDevice r) @ packed pre rest"
  "packed pre ((n, USpecial) # rest) = pack_entry (pre @ [n], USpecial) @ packed pre rest"
  by (simp_all add: packed_def)

text \<open>What the overlay shows below one name.\<close>

definition shown_below :: "upper_node \<Rightarrow> (string list \<Rightarrow> node_kind option) \<Rightarrow> string list \<Rightarrow> node_kind option" where
  "shown_below u low r = overlay_kind [([], u)] (\<lambda>q. low (tl q)) ([] # r)"

lemma overlay_kind_Cons:
  "overlay_kind ((n, u) # rest) low (m # r) =
     (if m = n then shown_below u (\<lambda>r. low (n # r)) r else overlay_kind rest low (m # r))"
  by (auto simp: shown_below_def cong: if_cong split: upper_node.split)

definition merges :: "unpacker \<Rightarrow> string list \<Rightarrow> (string \<times> upper_node) list \<Rightarrow> node \<Rightarrow> node \<Rightarrow> bool" where
  "merges unpack pre es t t' \<longleftrightarrow>
     unpacks_to unpack (packed pre es) t t' \<and>
     (\<forall>r. kind_at t' (pre @ r) = overlay_kind es (\<lambda>r. kind_at t (pre @ r)) r) \<and>
     (\<forall>q. \<not> prefix pre q \<longrightarrow> kind_at t' q = kind_at t q)"

text \<open>Processing the first entry, then the others.\<close>

lemma merges_Cons:
  assumes head: "unpacks_to unpack hd_entries t t1" "shows_at pre n (shown_below u (\<lambda>r. kind_at t (pre @ n # r))) t t1"
    and rest: "merges unpack pre rest t1 t2"
    and entries: "packed pre ((n, u) # rest) = hd_entries @ packed pre rest" and new: "n \<notin> fst ` set rest"
  shows "merges unpack pre ((n, u) # rest) t t2"
proof -
  have "kind_at t2 (pre @ r) = overlay_kind ((n, u) # rest) (\<lambda>r. kind_at t (pre @ r)) r" for r
  proof (cases r)
    case Nil
    then show ?thesis using rest by (simp add: merges_def) (metis append_Nil2 overlay_kind.simps(1))
  next
    case (Cons m q)
    have t2: "kind_at t2 (pre @ m # q) = overlay_kind rest (\<lambda>r. kind_at t1 (pre @ r)) (m # q)"
      using rest by (simp add: merges_def)
    show ?thesis
    proof (cases "m = n")
      case True
      have "map_of rest n = None" using new by (simp add: map_of_eq_None_iff)
      then show ?thesis
        unfolding Cons using t2 shows_at_below [OF head(2)] True by (simp add: overlay_kind_Cons del: overlay_kind.simps(2)) simp
    next
      case False
      have "kind_at t1 (pre @ m # x) = kind_at t (pre @ m # x)" for x
        by (rule shows_at_beside [OF head(2) False])
      then show ?thesis
        unfolding Cons t2 using False by (simp cong: if_cong split: option.split upper_node.split)
    qed
  qed
  then show ?thesis
    using assms shows_at_apart [OF head(2)] unpacks_to_append [of unpack hd_entries t t1 "packed pre rest" t2]
    by (simp add: merges_def)
qed

lemma plain_upper_rest:
  assumes "shows_at pre n k t t1" and "n \<notin> fst ` set rest" and "plain_upper (\<lambda>r. kind_at t (pre @ r)) rest"
  shows "plain_upper (\<lambda>r. kind_at t1 (pre @ r)) rest"
proof -
  have "plain_upper (\<lambda>r. kind_at t1 (pre @ r)) rest = plain_upper (\<lambda>r. kind_at t (pre @ r)) rest"
  proof (rule plain_upper_cong)
    fix m r assume "m \<in> fst ` set rest"
    then have "m \<noteq> n" using assms(2) by auto
    then show "kind_at t1 (pre @ m # r) = kind_at t (pre @ m # r)" by (rule shows_at_beside [OF assms(1)])
  qed
  with assms(3) show ?thesis by simp
qed

lemma unpack_okD:
  assumes "unpack_ok unpack" and "is_dir (get t pre)"
  shows "is_dir (get t (pre @ [n])) \<Longrightarrow> unpack (map Normal (pre @ [n])) TarDir (Some t) = Inr (True, Some t)"
    and "get t (pre @ [n]) = None \<Longrightarrow>
      unpack (map Normal (pre @ [n])) TarDir (Some t) = Inr (True, Some (put t (pre @ [n]) (Dir [])))"
    and "\<not> is_dir (get t (pre @ [n])) \<Longrightarrow>
      unpack (map Normal (pre @ [n])) (TarFile b) (Some t) = Inr (True, Some (put t (pre @ [n]) (File b)))"
    and "\<not> is_dir (get t (pre @ [n])) \<Longrightarrow>
      unpack (map Normal (pre @ [n])) (TarSymlink s) (Some t) = Inr (True, Some (put t (pre @ [n]) (Symlink s)))"
  using assms dirs_to_below [OF assms(2), of n] unfolding unpack_ok_def by blast+

text \<open>The directory entry itself: afterwards there is a directory, with the lower entries.\<close>

lemma unpacks_to_dir:
  assumes "unpack_ok unpack" and "is_dir (get t pre)" and "name_ok n"
    and "kind_at t (pre @ [n]) \<in> {None, Some KDir}"
  shows "\<exists>t'. unpacks_to unpack [\<lparr> tt_path = map Normal (pre @ [n]), tt_kind = TarDir \<rparr>] t t' \<and>
    shows_at pre n (\<lambda>r. if r = [] then Some KDir else kind_at t (pre @ n # r)) t t'"
proof (cases "is_dir (get t (pre @ [n]))")
  case True
  then have "shows_at pre n (\<lambda>r. if r = [] then Some KDir else kind_at t (pre @ n # r)) t t"
    by (intro shows_at_self) (auto simp flip: kind_at_dir)
  then show ?thesis using unpacks_to_plain [of n unpack pre TarDir t True t] unpack_okD(1) [OF assms(1,2) True] assms(3) by blast
next
  case False
  then have none: "get t (pre @ [n]) = None"
    using assms(4) by (auto simp: kind_at_None simp flip: kind_at_dir)
  have "kind_at (Dir []) r = (if r = [] then Some KDir else kind_at t (pre @ n # r))" for r
    using kind_below_None [of t "pre @ [n]" r] none by (cases r) (auto simp: kind_at_def)
  then have "shows_at pre n (\<lambda>r. if r = [] then Some KDir else kind_at t (pre @ n # r)) t (put t (pre @ [n]) (Dir []))"
    using shows_at_put [OF assms(2), of n "Dir []"] by (simp add: shows_at_def)
  then show ?thesis
    using unpacks_to_plain [of n unpack pre TarDir t True] unpack_okD(2) [OF assms(1,2) none] assms(3) by blast
qed

text \<open>The entries packed for one node of the upper place the node.\<close>

definition places ::
  "unpacker \<Rightarrow> string list \<Rightarrow> string \<Rightarrow> upper_node \<Rightarrow> tar_entry list \<Rightarrow> node \<Rightarrow> node \<Rightarrow> bool" where
  "places unpack pre n u entries t t1 \<longleftrightarrow>
     unpacks_to unpack entries t t1 \<and> shows_at pre n (shown_below u (\<lambda>r. kind_at t (pre @ n # r))) t t1"

lemma places_file:
  assumes "unpack_ok unpack" and "is_dir (get t pre)" and "name_ok n" and "\<not> is_dir (get t (pre @ [n]))"
  shows "\<exists>t1. places unpack pre n (UFile b) (pack_entry (pre @ [n], UFile b)) t t1"
proof -
  have "shown_below (UFile b) (\<lambda>r. kind_at t (pre @ n # r)) = kind_at (File b)"
    by (rule ext) (auto simp: shown_below_def kind_at_def neq_Nil_conv)
  with shows_at_put [OF assms(2), of n "File b"]
  have "shows_at pre n (shown_below (UFile b) (\<lambda>r. kind_at t (pre @ n # r))) t (put t (pre @ [n]) (File b))" by simp
  moreover have "unpacks_to unpack (pack_entry (pre @ [n], UFile b)) t (put t (pre @ [n]) (File b))"
    using unpacks_to_plain [OF assms(3), of unpack pre "TarFile b" t True] unpack_okD(3) [OF assms(1,2,4), of b] by simp
  ultimately show ?thesis unfolding places_def by blast
qed

lemma places_link:
  assumes "unpack_ok unpack" and "is_dir (get t pre)" and "name_ok n" and "\<not> is_dir (get t (pre @ [n]))"
  shows "\<exists>t1. places unpack pre n (USymlink l) (pack_entry (pre @ [n], USymlink l)) t t1"
proof -
  have "shown_below (USymlink l) (\<lambda>r. kind_at t (pre @ n # r)) = kind_at (Symlink l)"
    by (rule ext) (auto simp: shown_below_def kind_at_def neq_Nil_conv)
  with shows_at_put [OF assms(2), of n "Symlink l"]
  have "shows_at pre n (shown_below (USymlink l) (\<lambda>r. kind_at t (pre @ n # r))) t (put t (pre @ [n]) (Symlink l))" by simp
  moreover have "unpacks_to unpack (pack_entry (pre @ [n], USymlink l)) t (put t (pre @ [n]) (Symlink l))"
    using unpacks_to_plain [OF assms(3), of unpack pre "TarSymlink l" t True] unpack_okD(4) [OF assms(1,2,4), of l] by simp
  ultimately show ?thesis unfolding places_def by blast
qed

lemma places_device:
  assumes "is_dir (get t pre)" and "name_ok n"
  shows "\<exists>t1. places unpack pre n (UCharDevice rdev) (pack_entry (pre @ [n], UCharDevice rdev)) t t1"
proof (cases "rdev = 0")
  case True
  have "shown_below (UCharDevice 0) (\<lambda>r. kind_at t (pre @ n # r)) = (\<lambda>_. None)"
    by (rule ext) (simp add: shown_below_def)
  then show ?thesis
    using True unpacks_to_deletion [OF assms(2,1)] by (simp add: places_def is_overlay_deletion_def)
next
  case False
  then have "shows_at pre n (shown_below (UCharDevice rdev) (\<lambda>r. kind_at t (pre @ n # r))) t t"
    by (intro shows_at_self) (simp add: shown_below_def)
  then show ?thesis using False unpacks_to_Nil by (auto simp: places_def is_overlay_deletion_def)
qed

lemma places_special: "\<exists>t1. places unpack pre n USpecial (pack_entry (pre @ [n], USpecial)) t t1"
proof -
  have "shows_at pre n (shown_below USpecial (\<lambda>r. kind_at t (pre @ n # r))) t t"
    by (intro shows_at_self) (simp add: shown_below_def)
  then show ?thesis using unpacks_to_Nil by (auto simp: places_def)
qed

lemma places_dir:
  assumes ok: "unpack_ok unpack" and dir: "is_dir (get t pre)" and n: "name_ok n"
    and plain: "\<not> is_opaque_dir xs" "kind_at t (pre @ [n]) \<in> {None, Some KDir}" "plain_upper (\<lambda>r. kind_at t (pre @ n # r)) es"
    and children: "\<And>t. is_dir (get t (pre @ [n])) \<Longrightarrow> plain_upper (\<lambda>r. kind_at t ((pre @ [n]) @ r)) es \<Longrightarrow>
                     \<exists>t'. merges unpack (pre @ [n]) es t t'"
  shows "\<exists>t1. places unpack pre n (UDir xs es) (pack_entry (pre @ [n], UDir xs es) @ packed (pre @ [n]) es) t t1"
proof -
  obtain t0 where t0: "unpacks_to unpack [\<lparr> tt_path = map Normal (pre @ [n]), tt_kind = TarDir \<rparr>] t t0"
    and s0: "shows_at pre n (\<lambda>r. if r = [] then Some KDir else kind_at t (pre @ n # r)) t t0"
    using unpacks_to_dir [OF ok dir n plain(2)] by blast
  have below0: "kind_at t0 (pre @ n # r) = (if r = [] then Some KDir else kind_at t (pre @ n # r))" for r
    by (rule shows_at_below [OF s0])
  have "is_dir (get t0 (pre @ [n]))" using below0 [of "[]"] by (simp flip: kind_at_dir)
  moreover have "plain_upper (\<lambda>r. kind_at t0 ((pre @ [n]) @ r)) es"
    using plain(3) plain_upper_cong [of es "\<lambda>r. kind_at t0 (pre @ n # r)" "\<lambda>r. kind_at t (pre @ n # r)"] below0 by simp
  ultimately obtain t1 where t1: "merges unpack (pre @ [n]) es t0 t1" using children by blast
  have "kind_at t1 (pre @ n # r) = shown_below (UDir xs es) (\<lambda>r. kind_at t (pre @ n # r)) r" for r
  proof -
    have "kind_at t1 (pre @ n # r) = overlay_kind es (\<lambda>r. kind_at t0 (pre @ n # r)) r"
      using t1 by (simp add: merges_def)
    also have "\<dots> = overlay_kind es (\<lambda>r. kind_at t (pre @ n # r)) r"
      by (rule overlay_kind_cong) (simp add: below0)
    finally show ?thesis using plain(1) by (simp add: shown_below_def)
  qed
  then have "shows_at pre n (shown_below (UDir xs es) (\<lambda>r. kind_at t (pre @ n # r))) t t1"
    using t1 s0 by (auto simp: shows_at_def merges_def prefix_snoc_iff)
  moreover have "unpacks_to unpack (pack_entry (pre @ [n], UDir xs es) @ packed (pre @ [n]) es) t t1"
    using unpacks_to_append [OF t0, of "packed (pre @ [n]) es" t1] t1 plain(1) by (simp add: merges_def)
  ultimately show ?thesis unfolding places_def by blast
qed

text \<open>A placed node and the rest of the directory.\<close>

lemma merges_next:
  assumes "\<exists>t1. places unpack pre n u entries t t1"
    and rest: "\<And>t. is_dir (get t pre) \<Longrightarrow> plain_upper (\<lambda>r. kind_at t (pre @ r)) rest \<Longrightarrow> \<exists>t'. merges unpack pre rest t t'"
    and "is_dir (get t pre)" and "n \<notin> fst ` set rest" and "plain_upper (\<lambda>r. kind_at t (pre @ r)) rest"
    and "packed pre ((n, u) # rest) = entries @ packed pre rest"
  shows "\<exists>t'. merges unpack pre ((n, u) # rest) t t'"
proof -
  obtain t1 where u1: "unpacks_to unpack entries t t1"
    and s1: "shows_at pre n (shown_below u (\<lambda>r. kind_at t (pre @ n # r))) t t1"
    using assms(1) by (auto simp: places_def)
  obtain t2 where "merges unpack pre rest t1 t2"
    using rest [OF shows_at_dir [OF s1 assms(3)] plain_upper_rest [OF s1 assms(4,5)]] by blast
  with merges_Cons [OF u1 s1 this assms(6,4)] show ?thesis by blast
qed

lemma packed_merges:
  assumes "unpack_ok unpack" and "is_dir (get t pre)" and "plain_upper (\<lambda>r. kind_at t (pre @ r)) es"
  shows "\<exists>t'. merges unpack pre es t t'"
  using assms(2,3)
proof (induction pre es arbitrary: t rule: collect_sorted.induct [case_names empty dir regular link device special])
  case (empty pre)
  have "kind_at t (pre @ r) = overlay_kind [] (\<lambda>r. kind_at t (pre @ r)) r" for r
    using empty by (cases r) (auto simp flip: kind_at_dir)
  then have "merges unpack pre [] t t" unfolding merges_def packed_simps using unpacks_to_Nil by blast
  then show ?case by blast
next
  case (dir pre n xs es rest)
  show ?case
    by (rule merges_next [OF places_dir [OF assms(1) dir.prems(1) _ _ _ _ dir.IH(1)] dir.IH(2) dir.prems(1)])
      (use dir.prems(2) in \<open>auto simp: packed_simps\<close>)
next
  case (regular pre n b rest)
  then have "\<not> is_dir (get t (pre @ [n]))" by (auto simp flip: kind_at_dir)
  then show ?case
    by (intro merges_next [OF places_file [OF assms(1) regular.prems(1)] regular.IH regular.prems(1)])
      (use regular.prems(2) in \<open>auto simp: packed_simps\<close>)
next
  case (link pre n l rest)
  then have "\<not> is_dir (get t (pre @ [n]))" by (auto simp flip: kind_at_dir)
  then show ?case
    by (intro merges_next [OF places_link [OF assms(1) link.prems(1)] link.IH link.prems(1)])
      (use link.prems(2) in \<open>auto simp: packed_simps\<close>)
next
  case (device pre n rdev rest)
  then show ?case
    by (intro merges_next [OF places_device [OF device.prems(1)] device.IH device.prems(1)])
      (auto simp: packed_simps)
next
  case (special pre n rest)
  then show ?case
    by (intro merges_next [OF places_special special.IH special.prems(1)]) (auto simp: packed_simps)
qed


section \<open>The order of the walk\<close>

abbreviation "sorted_entries es \<equiv> sort_key fst (map (\<lambda>(name, n). (name, sort_tree n)) es)"

fun plain_entry :: "(string list \<Rightarrow> node_kind option) \<Rightarrow> string \<times> upper_node \<Rightarrow> bool" where
  "plain_entry low (n, UDir xs es) \<longleftrightarrow>
     name_ok n \<and> \<not> is_opaque_dir xs \<and> low [n] \<in> {None, Some KDir} \<and> plain_upper (\<lambda>r. low (n # r)) es"
| "plain_entry low (n, UFile _) \<longleftrightarrow> name_ok n \<and> low [n] \<noteq> Some KDir"
| "plain_entry low (n, USymlink _) \<longleftrightarrow> name_ok n \<and> low [n] \<noteq> Some KDir"
| "plain_entry low (n, _) \<longleftrightarrow> name_ok n"

lemma plain_upper_iff:
  "plain_upper low es \<longleftrightarrow> distinct (map fst es) \<and> (\<forall>e \<in> set es. plain_entry low e)"
  by (induction low es rule: plain_upper.induct) auto

lemma fst_sorted: "distinct (map fst es) \<Longrightarrow> distinct (map fst (sorted_entries es))"
proof -
  assume d: "distinct (map fst es)"
  have "mset (map fst (sorted_entries es)) = mset (map fst es)"
    by (simp add: case_prod_beta image_mset.compositionality o_def)
  then show ?thesis using d mset_eq_imp_distinct_iff by blast
qed

lemma plain_entry_sorted: "plain_entry low (n, u) \<Longrightarrow> plain_entry low (n, sort_tree u)"
proof (induction u arbitrary: low n rule: sort_tree.induct)
  case (1 xs es)
  have "plain_entry (\<lambda>r. low (n # r)) (m, sort_tree u)" if "(m, u) \<in> set es" for m u
    using that 1 by (auto simp: plain_upper_iff)
  with "1.prems" show ?case using fst_sorted [of es] by (auto simp: plain_upper_iff)
qed auto

lemma plain_upper_sorted: "plain_upper low es \<Longrightarrow> plain_upper low (sorted_entries es)"
  using fst_sorted [of es] plain_entry_sorted by (auto simp: plain_upper_iff)

lemma map_of_sorted:
  assumes "distinct (map fst es)"
  shows "map_of (sorted_entries es) n = map_option sort_tree (map_of es n)"
proof -
  have "map_of (sorted_entries es) = map_of (map (\<lambda>(name, n). (name, sort_tree n)) es)"
    using assms fst_sorted [OF assms] by (subst map_of_inject_set) (auto simp: case_prod_beta o_def)
  then show ?thesis by (simp add: map_of_map)
qed

lemma overlay_kind_sorted:
  "plain_upper l es \<Longrightarrow> overlay_kind (sorted_entries es) low q = overlay_kind es low q"
proof (induction es low q arbitrary: l rule: overlay_kind.induct)
  case (2 es low n q)
  have d: "distinct (map fst es)" using "2.prems" by (simp add: plain_upper_iff)
  show ?case
  proof (cases "map_of es n")
    case (Some u)
    show ?thesis
    proof (cases u)
      case (UDir xs sub)
      have "plain_upper (\<lambda>r. l (n # r)) sub"
        using "2.prems" Some UDir map_of_SomeD [OF Some] by (auto simp: plain_upper_iff)
      then show ?thesis using "2.IH" [OF Some UDir] Some UDir by (simp add: map_of_sorted [OF d])
    qed (use Some in \<open>simp_all add: map_of_sorted [OF d]\<close>)
  qed (simp add: map_of_sorted [OF d])
qed simp


section \<open>Properties\<close>


text \<open>An unpacker that does what is relied on.\<close>

definition simple_unpack :: unpacker where
  "simple_unpack path k t =
     (case t of
        None \<Rightarrow> Inl NotFoundIo
      | Some n \<Rightarrow>
          (let p = normals path
           in case k of
                TarDir \<Rightarrow> if is_dir (get n p) then Inr (True, t)
                          else if get n p = None then Inr (True, Some (put n p (Dir []))) else Inl AlreadyExists
              | TarFile b \<Rightarrow> if is_dir (get n p) then Inl IsADirectory else Inr (True, Some (put n p (File b)))
              | TarSymlink s \<Rightarrow> if is_dir (get n p) then Inl IsADirectory else Inr (True, Some (put n p (Symlink s)))
              | TarOther _ \<Rightarrow> Inr (False, t)))"

lemma simple_unpack_ok: "unpack_ok simple_unpack"
  by (auto simp: unpack_ok_def simple_unpack_def)


text \<open>
  With an opaque directory the two can differ: a subdirectory the layer writes is spared by the clear
  together with everything the lower directory has in it.
\<close>

lemma opaque_subdirectory_resurfaces:
  "case apply_tar simple_unpack
      [\<lparr> tt_path = [Normal ''d''], tt_kind = TarDir \<rparr>,
       \<lparr> tt_path = [Normal ''d'', Normal WH_OPAQUE], tt_kind = TarFile [] \<rparr>,
       \<lparr> tt_path = [Normal ''d'', Normal ''s''], tt_kind = TarDir \<rparr>]
      (Some (Dir [(''d'', Dir [(''s'', Dir [(''x'', File ''old'')])])])) of
     Inr (Some t, out) \<Rightarrow> get t [''d'', ''s'', ''x''] = Some (File ''old'') \<and> out = []
   | _ \<Rightarrow> False"
  by code_simp

text \<open>
  The deferred clear of an opaque directory can leave the target.  A layer that marks an existing
  directory opaque, then deletes it and puts a link of the same name in its place makes the clear follow
  the link: the check that the directory is real was made before the entries that replace it.
\<close>

theorem opaque_clear_escapes:
  assumes "unpack_ok unpack"
  shows "\<exists>t. apply_tar unpack
       [\<lparr> tt_path = [Normal ''d'', Normal WH_OPAQUE], tt_kind = TarFile [] \<rparr>,
        \<lparr> tt_path = [Normal ''.wh.d''], tt_kind = TarFile [] \<rparr>,
        \<lparr> tt_path = [Normal ''d''], tt_kind = TarSymlink ''/etc'' \<rparr>]
       (Some (Dir [(''d'', Dir [])])) = Inr (t, [[''d'']])"
proof -
  have c: "classify_entry [Normal ''d'', Normal WH_OPAQUE] = Opaque [Normal ''d'']"
    "classify_entry [Normal ''.wh.d''] = Remove [Normal ''d'']" "classify_entry [Normal ''d''] = NoWhiteout"
    by code_simp+
  have u: "unpack [Normal ''d''] (TarSymlink ''/etc'') (Some (Dir [])) = Inr (True, Some (Dir [(''d'', Symlink ''/etc'')]))"
    using unpack_okD(4) [OF assms, of "Dir []" "[]" "''d''" "''/etc''"] by simp
  have n: "normals [Normal ''d''] = [''d'']" by (simp add: normals_def List.map_filter_def)
  show ?thesis
    by (simp add: apply_tar_def c u n safe_descend_def lget_def remove_path_def clear_dir_def)
qed

theorem opaque_clear_escapes_witness:
  "\<exists>t. apply_tar simple_unpack
       [\<lparr> tt_path = [Normal ''d'', Normal WH_OPAQUE], tt_kind = TarFile [] \<rparr>,
        \<lparr> tt_path = [Normal ''.wh.d''], tt_kind = TarFile [] \<rparr>,
        \<lparr> tt_path = [Normal ''d''], tt_kind = TarSymlink ''/etc'' \<rparr>]
       (Some (Dir [(''d'', Dir [])])) = Inr (t, [[''d'']])"
  by (rule opaque_clear_escapes [OF simple_unpack_ok])

end
