(* ===== verification/Container_Net.thy ===== *)
theory Container_Net
  imports Ssrf
begin

unbundle bit_operations_syntax

text \<open>
  Networks of builds and machines, \<open>crates/umf-networking/src/lib.rs\<close> and \<open>vmnet.rs\<close>: address plans,
  packet-filter rule sets, and the set-up and tear-down of a network on a host whose links, tables and
  forwarding switch are the state.  Each system call may fail; which ones do is given by a record of
  switches.  A network name space and what is configured inside it are not part of the host state.
\<close>

section \<open>Addresses\<close>

definition show_ipv4 :: "u32 \<Rightarrow> string" where
  "show_ipv4 a = join ''.'' (map (\<lambda>k. show_nat (unat (octet k a))) [24, 16, 8, 0])"

definition SUBNET_BLOCKS :: nat where
  "SUBNET_BLOCKS = 16384"

record IpPlan =
  pl_network :: u32
  pl_host :: u32
  pl_container :: u32
  pl_prefix :: u8

definition for_block :: "u32 \<Rightarrow> u16 \<Rightarrow> IpPlan" where
  "for_block base block =
     (let base16 = base AND 0xFFFF0000; net = base16 + ucast block * 4
      in \<lparr> pl_network = net, pl_host = net + 1, pl_container = net + 2, pl_prefix = 30 \<rparr>)"

definition plan_cidr :: "IpPlan \<Rightarrow> string" where
  "plan_cidr plan = show_ipv4 (pl_network plan) @ ''/'' @ show_nat (unat (pl_prefix plan))"

definition VM_MASK :: string where
  "VM_MASK = ''255.255.255.248''"

definition VM_PREFIX :: nat where
  "VM_PREFIX = 29"

record VmIpPlan =
  vp_block :: u32

definition for_id :: "u32 \<Rightarrow> VmIpPlan" where
  "for_id ident = \<lparr> vp_block = 0x0A460000 + (ident mod 8192) * 8 \<rparr>"

definition vm_addr :: "VmIpPlan \<Rightarrow> u32 \<Rightarrow> u32" where
  "vm_addr plan offset = vp_block plan + offset"

definition vm_bridge :: "VmIpPlan \<Rightarrow> u32" where
  "vm_bridge plan = vm_addr plan 1"

definition vm_guest :: "VmIpPlan \<Rightarrow> u32" where
  "vm_guest plan = vm_addr plan 2"

definition vm_host_veth :: "VmIpPlan \<Rightarrow> u32" where
  "vm_host_veth plan = vm_addr plan 6"

definition vm_cidr :: "VmIpPlan \<Rightarrow> string" where
  "vm_cidr plan = show_ipv4 (vm_addr plan 0) @ ''/'' @ show_nat VM_PREFIX"


section \<open>Rule sets\<close>

definition indent :: "nat \<Rightarrow> string \<Rightarrow> string" where
  "indent k line = replicate k SP @ line @ [NL]"

definition masquerade_ruleset :: "string \<Rightarrow> string \<Rightarrow> string list \<Rightarrow> string" where
  "masquerade_ruleset table_name subnet_cidr deny_cidrs =
     indent 0 (''table inet '' @ table_name @ '' {'') @
     indent 4 ''chain postrouting {'' @
     indent 8 ''type nat hook postrouting priority srcnat; policy accept;'' @
     indent 8 (''ip saddr '' @ subnet_cidr @ '' masquerade'') @
     indent 4 ''}'' @
     (if deny_cidrs = [] then []
      else indent 4 ''chain forward {'' @
           indent 8 ''type filter hook forward priority filter; policy accept;'' @
           indent 8 (''ip saddr '' @ subnet_cidr @ '' ip daddr { '' @ join '', '' deny_cidrs @ '' } drop'') @
           indent 4 ''}'') @
     indent 0 ''}''"

record PortForward =
  pf_bind_addr :: "u32 option"
  pf_host_port :: u16
  pf_guest_port :: u16
  pf_tcp :: bool

definition dnat_rule :: "VmIpPlan \<Rightarrow> PortForward \<Rightarrow> string" where
  "dnat_rule plan pf =
     indent 4 ((case pf_bind_addr pf of Some a \<Rightarrow> ''ip daddr '' @ show_ipv4 a @ '' '' | None \<Rightarrow> []) @
       (if pf_tcp pf then ''tcp'' else ''udp'') @ '' dport '' @ show_nat (unat (pf_host_port pf)) @
       '' dnat ip to '' @ show_ipv4 (vm_guest plan) @ '':'' @ show_nat (unat (pf_guest_port pf)))"

definition vmfwd_ruleset :: "string \<Rightarrow> VmIpPlan \<Rightarrow> PortForward list \<Rightarrow> string" where
  "vmfwd_ruleset table plan forwards =
     indent 0 (''table inet '' @ table @ '' {'') @
     indent 2 ''chain prerouting {'' @
     indent 4 ''type nat hook prerouting priority dstnat; policy accept;'' @
     concat (map (dnat_rule plan) forwards) @
     indent 2 ''}'' @
     indent 2 ''chain forward {'' @
     indent 4 ''type filter hook forward priority filter; policy accept;'' @
     indent 4 (''ip daddr '' @ show_ipv4 (vm_guest plan) @ '' accept'') @
     indent 4 (''ip saddr '' @ show_ipv4 (vm_guest plan) @ '' accept'') @
     indent 2 ''}'' @
     indent 0 ''}''"

definition dnsmasq_args :: "VmIpPlan \<Rightarrow> string \<Rightarrow> string \<Rightarrow> string list" where
  "dnsmasq_args plan bridge_if leasefile =
     (let guest = show_ipv4 (vm_guest plan)
      in [''--keep-in-foreground'', ''--bind-interfaces'', ''--interface='' @ bridge_if,
          ''--listen-address='' @ show_ipv4 (vm_bridge plan), ''--except-interface=lo'', ''--no-resolv'', ''--no-hosts'',
          ''--dhcp-range='' @ guest @ '','' @ guest @ '','' @ VM_MASK @ '',1h'',
          ''--dhcp-option=option:router,'' @ show_ipv4 (vm_host_veth plan),
          ''--dhcp-leasefile='' @ leasefile, ''--pid-file=''])"


section \<open>The host\<close>

datatype NetError =
    NetLink
  | NetNft
  | Netns nat
  | NetRuntime
  | NetIo
  | NetVmNet
  | NetEgressPolicy string
  | LinkExists
  | NoFreeSubnet

record net_host =
  nh_links :: "string list"
  nh_tables :: "(string \<times> string) list"
  nh_forward :: string

text \<open>Which system calls succeed.\<close>

record calls =
  ca_read_forward :: bool
  ca_write_forward :: bool
  ca_add_veth :: bool
  ca_host_side :: bool
  ca_netns :: bool
  ca_container_side :: bool
  ca_add_table :: bool
  ca_del_table :: bool
  ca_del_link :: bool
  ca_list_tables :: bool
  ca_restore :: bool
  ca_spawn :: bool

definition parse_default_route_iface :: "string \<Rightarrow> string option" where
  "parse_default_route_iface proc_net_route =
     map_option (\<lambda>f. f ! 0)
       (find (\<lambda>f. length f \<ge> 8 \<and> f ! 1 = ''00000000'' \<and> f ! 7 = ''00000000'')
         (map split_whitespace (drop 1 (lines proc_net_route))))"

text \<open>\<open>read_mtu\<close> is the file below \<open>/sys/class/net\<close>, if it can be read.\<close>

definition iface_mtu :: "(string \<Rightarrow> string option) \<Rightarrow> string \<Rightarrow> nat option" where
  "iface_mtu read_mtu iface =
     (if iface = [] \<or> CHR ''/'' \<in> set iface \<or> contains_str iface ''..'' then None
      else case Option.bind (read_mtu iface) (\<lambda>s. parse_uint 32 (trim s)) of
             Some m \<Rightarrow> if m \<ge> 576 then Some m else None
           | None \<Rightarrow> None)"

definition forward_restore_target :: "string option \<Rightarrow> string option" where
  "forward_restore_target prior =
     (case prior of None \<Rightarrow> None | Some p \<Rightarrow> if p = ''1'' then None else Some p)"

definition enable_ipv4_forwarding :: "calls \<Rightarrow> net_host \<Rightarrow> (NetError + string option) \<times> net_host" where
  "enable_ipv4_forwarding K H =
     (if \<not> ca_write_forward K then (Inl NetIo, H)
      else (Inr (forward_restore_target (if ca_read_forward K then Some (trim (nh_forward H)) else None)),
            H \<lparr> nh_forward := ''1'' \<rparr>))"

definition nat_table :: "string \<Rightarrow> bool" where
  "nat_table name \<longleftrightarrow> contains_str name ''umf-nat-''"

definition umf_nat_table_present :: "calls \<Rightarrow> net_host \<Rightarrow> bool" where
  "umf_nat_table_present K H \<longleftrightarrow> \<not> ca_list_tables K \<or> list_ex (\<lambda>t. nat_table (fst t)) (nh_tables H)"

definition restore_ip_forward :: "calls \<Rightarrow> string option \<Rightarrow> net_host \<Rightarrow> net_host" where
  "restore_ip_forward K prior H =
     (case prior of
        None \<Rightarrow> H
      | Some p \<Rightarrow>
          if umf_nat_table_present K H then H
          else if ca_restore K then H \<lparr> nh_forward := p \<rparr> else H)"

definition add_table :: "calls \<Rightarrow> string \<Rightarrow> string \<Rightarrow> net_host \<Rightarrow> (NetError + unit) \<times> net_host" where
  "add_table K name ruleset H =
     (if ca_add_table K then (Inr (), H \<lparr> nh_tables := (name, ruleset) # nh_tables H \<rparr>) else (Inl NetNft, H))"

definition del_masquerade :: "calls \<Rightarrow> string \<Rightarrow> net_host \<Rightarrow> net_host" where
  "del_masquerade K name H =
     (if ca_del_table K then H \<lparr> nh_tables := filter (\<lambda>t. fst t \<noteq> name) (nh_tables H) \<rparr> else H)"

definition del_link :: "calls \<Rightarrow> string \<Rightarrow> net_host \<Rightarrow> net_host" where
  "del_link K name H = (if ca_del_link K then H \<lparr> nh_links := filter (\<lambda>l. l \<noteq> name) (nh_links H) \<rparr> else H)"


section \<open>Networks of containers\<close>

record ContainerNet =
  cn_host_ifname :: string
  cn_container_ip :: u32
  cn_nft_table :: string
  cn_prior_ip_forward :: "string option"

text \<open>Adding the link pair fails when the name is taken; a later failure leaves the pair behind.\<close>

definition setup_host_side :: "calls \<Rightarrow> string \<Rightarrow> net_host \<Rightarrow> (NetError + unit) \<times> net_host" where
  "setup_host_side K host_if H =
     (if host_if \<in> set (nh_links H) then (Inl LinkExists, H)
      else if \<not> ca_add_veth K then (Inl NetLink, H)
      else (if ca_host_side K then Inr () else Inl NetLink, H \<lparr> nh_links := host_if # nh_links H \<rparr>))"

definition setup_egress ::
  "calls \<Rightarrow> nat \<Rightarrow> IpPlan \<Rightarrow> string \<Rightarrow> string list \<Rightarrow> net_host \<Rightarrow>
     (NetError \<times> string option + string option) \<times> net_host" where
  "setup_egress K pid plan table deny_cidrs H =
     (if \<not> ca_container_side K then (Inl (Netns pid, None), H)
      else case enable_ipv4_forwarding K H of
             (Inl e, H1) \<Rightarrow> (Inl (e, None), H1)
           | (Inr prior, H1) \<Rightarrow>
               (case add_table K table (masquerade_ruleset table (plan_cidr plan) deny_cidrs) H1 of
                  (Inl e, H2) \<Rightarrow> (Inl (e, prior), H2)
                | (Inr _, H2) \<Rightarrow> (Inr prior, H2)))"

definition host_if_of :: "nat \<Rightarrow> string" where
  "host_if_of block = ''umfv'' @ show_nat block @ ''h''"

definition nft_table_of :: "nat \<Rightarrow> string" where
  "nft_table_of block = ''umf-nat-'' @ show_nat block"

definition setup_inner ::
  "calls \<Rightarrow> string option \<Rightarrow> nat \<Rightarrow> u32 \<Rightarrow> nat \<Rightarrow> net_host \<Rightarrow> (NetError + ContainerNet) \<times> net_host" where
  "setup_inner K policy_var pid base block H =
     (let host_if = host_if_of block; table = nft_table_of block; plan = for_block base (of_nat block)
      in case from_env policy_var of
           Inl e \<Rightarrow> (Inl (NetEgressPolicy (pce_token e)), H)
         | Inr policy \<Rightarrow>
             (case setup_host_side K host_if H of
                (Inl e, H1) \<Rightarrow> (Inl e, H1)
              | (Inr _, H1) \<Rightarrow>
                  (case setup_egress K pid plan table (denied_v4_cidrs policy) H1 of
                     (Inr prior, H2) \<Rightarrow>
                       (Inr \<lparr> cn_host_ifname = host_if, cn_container_ip = pl_container plan, cn_nft_table = table,
                              cn_prior_ip_forward = prior \<rparr>, H2)
                   | (Inl (e, prior), H2) \<Rightarrow>
                       (Inl e, del_link K host_if (restore_ip_forward K prior (del_masquerade K table H2))))))"

fun setup_blocks ::
  "calls \<Rightarrow> string option \<Rightarrow> nat \<Rightarrow> u32 \<Rightarrow> nat list \<Rightarrow> net_host \<Rightarrow> (NetError + ContainerNet) \<times> net_host" where
  "setup_blocks K policy_var pid base [] H = (Inl NoFreeSubnet, H)"
| "setup_blocks K policy_var pid base (offset # offsets) H =
     (case setup_inner K policy_var pid base ((pid mod SUBNET_BLOCKS + offset) mod SUBNET_BLOCKS) H of
        (Inl LinkExists, H') \<Rightarrow> setup_blocks K policy_var pid base offsets H'
      | r \<Rightarrow> r)"

definition ContainerNet_setup ::
  "calls \<Rightarrow> string option \<Rightarrow> nat \<Rightarrow> u32 \<Rightarrow> net_host \<Rightarrow> (NetError + ContainerNet) \<times> net_host" where
  "ContainerNet_setup K policy_var pid base H = setup_blocks K policy_var pid base [0..<SUBNET_BLOCKS] H"

definition ContainerNet_drop :: "calls \<Rightarrow> ContainerNet \<Rightarrow> net_host \<Rightarrow> net_host" where
  "ContainerNet_drop K net H =
     restore_ip_forward K (cn_prior_ip_forward net)
       (del_link K (cn_host_ifname net) (del_masquerade K (cn_nft_table net) H))"


section \<open>Networks of machines\<close>

datatype NetPurpose = PortForwards "PortForward list" | PolicedEgress EgressPolicy

datatype DhcpDaemon = Dnsmasq | DhcpCustom "string list" | DhcpNone

text \<open>The program that leases the guest its address, and its arguments.\<close>

definition dhcp_command :: "u32 \<Rightarrow> VmIpPlan \<Rightarrow> string \<Rightarrow> DhcpDaemon \<Rightarrow> string \<Rightarrow> (string \<times> string list) option" where
  "dhcp_command ident plan bridge dhcp temp_dir =
     (case dhcp of
        DhcpNone \<Rightarrow> None
      | Dnsmasq \<Rightarrow>
          Some (''dnsmasq'', dnsmasq_args plan bridge (temp_dir @ ''/umf-vmnet-'' @ show_nat (unat ident) @ ''.leases''))
      | DhcpCustom argv \<Rightarrow> (case argv of [] \<Rightarrow> None | prog # rest \<Rightarrow> Some (prog, rest)))"

text \<open>\<open>vn_dhcp\<close> is the command of the running daemon; \<open>ca_spawn\<close> says whether it starts.\<close>

record VmNet =
  vn_tap :: string
  vn_dhcp :: "(string \<times> string list) option"
  vn_host_veth :: string
  vn_nft_table :: string
  vn_guest_ip :: u32
  vn_gateway :: u32
  vn_prior_ip_forward :: "string option"

definition vm_restore_ip_forward :: "calls \<Rightarrow> string option \<Rightarrow> net_host \<Rightarrow> net_host" where
  "vm_restore_ip_forward K prior H =
     (case prior of Some p \<Rightarrow> if ca_restore K then H \<lparr> nh_forward := p \<rparr> else H | None \<Rightarrow> H)"

definition vm_teardown :: "calls \<Rightarrow> string \<Rightarrow> string \<Rightarrow> string option \<Rightarrow> net_host \<Rightarrow> net_host" where
  "vm_teardown K host_veth table prior H =
     vm_restore_ip_forward K prior (del_link K host_veth (del_masquerade K table H))"

definition vm_setup_host_side :: "calls \<Rightarrow> string \<Rightarrow> net_host \<Rightarrow> (NetError + unit) \<times> net_host" where
  "vm_setup_host_side K host_veth H =
     (if host_veth \<in> set (nh_links H) \<or> \<not> ca_add_veth K then (Inl NetLink, H)
      else (if ca_host_side K then Inr () else Inl NetLink, H \<lparr> nh_links := host_veth # nh_links H \<rparr>))"

definition vm_build ::
  "calls \<Rightarrow> NetPurpose \<Rightarrow> VmIpPlan \<Rightarrow> string \<Rightarrow> string \<Rightarrow> net_host \<Rightarrow> (NetError + unit) \<times> net_host" where
  "vm_build K purpose plan host_veth table H =
     (case vm_setup_host_side K host_veth H of
        (Inl e, H1) \<Rightarrow> (Inl e, H1)
      | (Inr _, H1) \<Rightarrow>
          if \<not> ca_container_side K then (Inl NetVmNet, H1)
          else (case purpose of
                  PortForwards forwards \<Rightarrow> add_table K table (vmfwd_ruleset table plan forwards) H1
                | PolicedEgress policy \<Rightarrow>
                    add_table K table (masquerade_ruleset table (vm_cidr plan) (denied_v4_cidrs policy)) H1))"

definition vm_setup_inner ::
  "calls \<Rightarrow> string \<Rightarrow> u32 \<Rightarrow> NetPurpose \<Rightarrow> DhcpDaemon \<Rightarrow> net_host \<Rightarrow> (NetError + VmNet) \<times> net_host" where
  "vm_setup_inner K temp_dir ident purpose dhcp H =
     (let plan = for_id ident; n = show_nat (unat ident); host_veth = ''vmh'' @ n; table = ''umf-vmfwd-'' @ n
      in case enable_ipv4_forwarding K H of
           (Inl e, H1) \<Rightarrow> (Inl e, H1)
         | (Inr prior, H1) \<Rightarrow>
             if \<not> ca_netns K then (Inl NetVmNet, vm_restore_ip_forward K prior H1)
             else (case vm_build K purpose plan host_veth table H1 of
                     (Inl e, H2) \<Rightarrow> (Inl e, vm_teardown K host_veth table prior H2)
                   | (Inr _, H2) \<Rightarrow>
                       (Inr \<lparr> vn_tap = ''umftap'' @ n,
                              vn_dhcp = (if ca_spawn K then dhcp_command ident plan (''umfbr'' @ n) dhcp temp_dir
                                         else None),
                              vn_host_veth = host_veth, vn_nft_table = table, vn_guest_ip = vm_guest plan,
                              vn_gateway = vm_host_veth plan, vn_prior_ip_forward = prior \<rparr>, H2)))"

definition VmNet_drop :: "calls \<Rightarrow> VmNet \<Rightarrow> net_host \<Rightarrow> net_host" where
  "VmNet_drop K net H = vm_teardown K (vn_host_veth net) (vn_nft_table net) (vn_prior_ip_forward net) H"

end
