(* ===== verification/Net_Laws.thy ===== *)
theory Net_Laws
  imports Container_Net
begin

unbundle bit_operations_syntax

text \<open>
  Laws of the networks: blocks of addresses do not overlap, a network that goes down leaves the host as it
  was, and networks that live side by side keep each other's link, table and forwarding - whichever system
  calls fail on the way.
\<close>

section \<open>Address plans\<close>

lemma unat_high16: "unat (base AND 0xFFFF0000 :: u32) = unat base div 65536 * 65536"
proof -
  have "(0xFFFF0000 :: u32) = NOT (mask 16)" by (simp add: mask_eq_exp_minus_1)
  then have "base AND 0xFFFF0000 = push_bit 16 (drop_bit 16 base)"
    using and_not_mask_shift [of base 16] by (simp only:)
  moreover have "unat base div 65536 * 65536 < 4294967296"
    by (rule order_le_less_trans [OF div_times_less_eq_dividend u32_less])
  ultimately show ?thesis
    by (simp only: unsigned_push_bit_eq unsigned_drop_bit_eq push_bit_nat_def drop_bit_nat_def)
      (simp add: take_bit_eq_mod)
qed

lemma unat_plan:
  assumes "block < SUBNET_BLOCKS" and "k < 4"
  shows "unat (pl_network (for_block base (of_nat block)) + of_nat k) = unat base div 65536 * 65536 + block * 4 + k"
proof -
  have "unat (of_nat block :: u16) = block"
    using assms(1) by (simp add: SUBNET_BLOCKS_def unsigned_of_nat take_bit_eq_mod)
  then have "(ucast (of_nat block :: u16) :: u32) = of_nat block" by (metis of_nat_unat)
  then have net: "pl_network (for_block base (of_nat block)) + of_nat k = (base AND 0xFFFF0000) + of_nat (block * 4 + k)"
    by (simp add: for_block_def Let_def algebra_simps)
  have bound: "unat base div 65536 < 65536"
    using u32_less [of base] by (simp add: div_less_iff_less_mult)
  have "unat base div 65536 * 65536 + block * 4 + k < 4294967296"
    using bound assms by (simp add: SUBNET_BLOCKS_def)
  moreover have "unat (of_nat (block * 4 + k) :: u32) = block * 4 + k"
    using assms by (simp add: SUBNET_BLOCKS_def unsigned_of_nat take_bit_eq_mod del: of_nat_add of_nat_mult)
  ultimately show ?thesis
    by (simp only: net unat_word_ariths(1) unat_high16) simp
qed

definition plan_addrs :: "IpPlan \<Rightarrow> nat set" where
  "plan_addrs plan = {unat (pl_network plan + of_nat k) | k. k < 4}"

lemma plan_addrs_block:
  "block < SUBNET_BLOCKS \<Longrightarrow>
     plan_addrs (for_block base (of_nat block)) = {a. a div 4 = (unat base div 65536) * 16384 + block}"
proof -
  assume b: "block < SUBNET_BLOCKS"
  have "plan_addrs (for_block base (of_nat block)) = {unat base div 65536 * 65536 + block * 4 + k | k. k < 4}"
    unfolding plan_addrs_def using unat_plan [OF b, of _ base] by (metis (no_types, lifting))
  also have "\<dots> = {a. a div 4 = (unat base div 65536) * 16384 + block}"
  proof (intro set_eqI iffI)
    fix a assume "a \<in> {a. a div 4 = (unat base div 65536) * 16384 + block}"
    then have "a = (unat base div 65536 * 16384 + block) * 4 + a mod 4" by (metis mem_Collect_eq div_mult_mod_eq)
    then have "a = unat base div 65536 * 65536 + block * 4 + a mod 4" by (simp add: algebra_simps)
    then show "a \<in> {unat base div 65536 * 65536 + block * 4 + k | k. k < 4}"
      by (metis (mono_tags, lifting) mem_Collect_eq mod_less_divisor zero_less_numeral)
  qed auto
  finally show ?thesis .
qed



section \<open>Names\<close>

lemma show_nat_inj: "show_nat a = show_nat b \<longleftrightarrow> a = b"
  by (metis dec_value_show_nat)

lemma host_if_of_inj [simp]: "host_if_of a = host_if_of b \<longleftrightarrow> a = b"
  by (simp add: host_if_of_def show_nat_inj)

lemma nft_table_of_inj [simp]: "nft_table_of a = nft_table_of b \<longleftrightarrow> a = b"
  by (simp add: nft_table_of_def show_nat_inj)

lemma contains_str_prefix: "contains_str (p @ s) p"
  by (cases "p @ s") (auto simp: starts_with_append, metis)

lemma nat_table_of [simp]: "nat_table (nft_table_of b)"
  unfolding nat_table_def nft_table_of_def by (rule contains_str_prefix)


section \<open>Networks side by side\<close>

text \<open>The builds on one host share the address pool; which system calls succeed differs from step to step.\<close>

inductive net_step :: "u32 \<Rightarrow> net_host \<times> ContainerNet list \<Rightarrow> net_host \<times> ContainerNet list \<Rightarrow> bool"
  for base :: u32 where
  up: "net_step base (H, live) (H', net # live)" if "ContainerNet_setup K v pid base H = (Inr net, H')"
| failed: "net_step base (H, live) (H', live)" if "ContainerNet_setup K v pid base H = (Inl e, H')"
| down: "net_step base (H, live) (ContainerNet_drop K net H, remove1 net live)" if "net \<in> set live"

abbreviation "net_run base \<equiv> (net_step base)\<^sup>*\<^sup>*"

text \<open>The network has its link, its table and its address.\<close>

definition on_block :: "u32 \<Rightarrow> ContainerNet \<Rightarrow> nat \<Rightarrow> bool" where
  "on_block base net b \<longleftrightarrow>
     b < SUBNET_BLOCKS \<and> cn_host_ifname net = host_if_of b \<and> cn_nft_table net = nft_table_of b \<and>
     cn_container_ip net = pl_container (for_block base (of_nat b))"

definition plumbed :: "u32 \<Rightarrow> net_host \<Rightarrow> ContainerNet \<Rightarrow> bool" where
  "plumbed base H net \<longleftrightarrow>
     (\<exists>b. on_block base net b) \<and>
     cn_host_ifname net \<in> set (nh_links H) \<and> cn_nft_table net \<in> fst ` set (nh_tables H)"

definition nat_present :: "net_host \<Rightarrow> bool" where
  "nat_present H \<longleftrightarrow> (\<exists>name rules. (name, rules) \<in> set (nh_tables H) \<and> nat_table name)"

definition net_inv :: "u32 \<Rightarrow> net_host \<times> ContainerNet list \<Rightarrow> bool" where
  "net_inv base s \<longleftrightarrow>
     (case s of (H, live) \<Rightarrow>
        distinct (map cn_host_ifname live) \<and> (\<forall>net \<in> set live. plumbed base H net) \<and>
        (nat_present H \<longrightarrow> nh_forward H = ''1''))"

text \<open>The block of another live network is a different one.\<close>

lemma plumbed_others:
  assumes "plumbed base H net" and "cn_host_ifname net \<noteq> host_if_of b"
  shows "cn_nft_table net \<noteq> nft_table_of b"
  using assms by (auto simp: plumbed_def on_block_def)

lemma restore_keeps [simp]:
  "nh_links (restore_ip_forward K p H) = nh_links H" "nh_tables (restore_ip_forward K p H) = nh_tables H"
  by (simp_all add: restore_ip_forward_def split: option.split)

lemma restore_forward:
  "nat_present H \<Longrightarrow> nh_forward (restore_ip_forward K p H) = nh_forward H"
  by (auto simp: restore_ip_forward_def umf_nat_table_present_def nat_present_def list_ex_iff Bex_def split: option.split)

lemma nat_present_restore [simp]: "nat_present (restore_ip_forward K p H) = nat_present H"
  by (simp add: nat_present_def)

lemma nat_present_mono: "set (nh_tables H1) \<subseteq> set (nh_tables H) \<Longrightarrow> nat_present H1 \<Longrightarrow> nat_present H"
  unfolding nat_present_def by blast

lemma tables_removed: "set (nh_tables (del_masquerade K t H)) \<subseteq> set (nh_tables H)"
  by (auto simp: del_masquerade_def)

lemma del_link_keeps [simp]: "nh_tables (del_link K l H) = nh_tables H" "nh_forward (del_link K l H) = nh_forward H"
  by (simp_all add: del_link_def)

lemma del_masquerade_keeps [simp]:
  "nh_links (del_masquerade K t H) = nh_links H" "nh_forward (del_masquerade K t H) = nh_forward H"
  by (simp_all add: del_masquerade_def)

text \<open>Removing the link and the table of one block does not touch the other networks.\<close>

lemma plumbed_remove:
  assumes "plumbed base H net" and "cn_host_ifname net \<noteq> host_if_of b"
  shows "plumbed base (del_link K (host_if_of b) (del_masquerade K' (nft_table_of b) H)) net"
  using assms plumbed_others [OF assms]
  by (auto simp: plumbed_def del_link_def del_masquerade_def image_iff)

lemma plumbed_cong:
  "nh_links H' = nh_links H \<Longrightarrow> nh_tables H' = nh_tables H \<Longrightarrow> plumbed base H' net = plumbed base H net"
  by (simp add: plumbed_def)

lemma drop_inv:
  assumes "net_inv base (H, live)" and "net \<in> set live"
  shows "net_inv base (ContainerNet_drop K net H, remove1 net live)"
proof -
  let ?H1 = "del_link K (cn_host_ifname net) (del_masquerade K (cn_nft_table net) H)"
  obtain b where b: "cn_host_ifname net = host_if_of b" "cn_nft_table net = nft_table_of b"
    using assms by (auto simp: net_inv_def plumbed_def on_block_def)
  have d: "distinct (map cn_host_ifname live)" using assms(1) by (simp add: net_inv_def)
  have "plumbed base ?H1 other" if o: "other \<in> set (remove1 net live)" for other
  proof -
    have "cn_host_ifname other \<noteq> cn_host_ifname net"
    proof
      assume same: "cn_host_ifname other = cn_host_ifname net"
      have "other \<in> set live" using o notin_set_remove1 by fastforce
      with same d assms(2) have "other = net" by (auto simp: distinct_map inj_on_def)
      with o d show False by (simp add: distinct_map)
    qed
    moreover have "plumbed base H other" using o assms(1) notin_set_remove1 by (fastforce simp: net_inv_def)
    ultimately show ?thesis unfolding b by (intro plumbed_remove) (simp_all add: b)
  qed
  moreover have "nh_forward ?H1 = ''1''" if "nat_present ?H1"
  proof -
    have "nat_present H"
      using that by (rule nat_present_mono [rotated]) (simp add: tables_removed)
    then show ?thesis using assms(1) by (simp add: net_inv_def)
  qed
  moreover have "distinct (map cn_host_ifname (remove1 net live))"
    using d by (simp add: distinct_map inj_on_def)
  ultimately show ?thesis
    by (auto simp: net_inv_def ContainerNet_drop_def restore_forward cong: plumbed_cong)
qed

text \<open>The two halves of a set-up.\<close>

lemma setup_host_side_cases:
  assumes "setup_host_side K l H = (r, H')"
  obtains "r = Inl LinkExists" "l \<in> set (nh_links H)" "H' = H"
  | "r = Inl NetLink" "l \<notin> set (nh_links H)" "H' = H \<or> \<not> ca_host_side K \<and> H' = H \<lparr> nh_links := l # nh_links H \<rparr>"
  | "r = Inr ()" "l \<notin> set (nh_links H)" "H' = H \<lparr> nh_links := l # nh_links H \<rparr>"
  using assms by (auto simp: setup_host_side_def split: if_splits)

abbreviation prior_of :: "calls \<Rightarrow> net_host \<Rightarrow> string option" where
  "prior_of K H \<equiv> forward_restore_target (if ca_read_forward K then Some (trim (nh_forward H)) else None)"

lemma setup_egress_cases:
  assumes "setup_egress K pid plan t deny H = (r, H')"
  obtains e p where "r = Inl (e, p)" "e \<noteq> LinkExists"
      "H' = H \<and> p = None \<or> H' = H \<lparr> nh_forward := ''1'' \<rparr> \<and> p = prior_of K H"
  | rules where "r = Inr (prior_of K H)" "H' = H \<lparr> nh_forward := ''1'', nh_tables := (t, rules) # nh_tables H \<rparr>"
  using assms by (auto simp: setup_egress_def enable_ipv4_forwarding_def add_table_def split: if_splits)

text \<open>A set-up on one block either finds the block taken, adds a link and a table and turns forwarding on, or fails:
  on the host as it was, with the link left behind, or after taking everything down again.\<close>

lemma setup_inner_cases:
  assumes "setup_inner K v pid base b H = (r, H')"
  obtains (taken) "r = Inl LinkExists" "host_if_of b \<in> set (nh_links H)" "H' = H"
  | (made) net rules where "r = Inr net" "host_if_of b \<notin> set (nh_links H)"
      "cn_host_ifname net = host_if_of b" "cn_nft_table net = nft_table_of b"
      "cn_container_ip net = pl_container (for_block base (of_nat b))" "cn_prior_ip_forward net = prior_of K H"
      "H' = H \<lparr> nh_links := host_if_of b # nh_links H, nh_forward := ''1'',
                nh_tables := (nft_table_of b, rules) # nh_tables H \<rparr>"
  | (unchanged) e where "r = Inl e" "e \<noteq> LinkExists" "H' = H"
  | (leaked) e where "r = Inl e" "e \<noteq> LinkExists" "\<not> ca_host_side K" "host_if_of b \<notin> set (nh_links H)"
      "H' = H \<lparr> nh_links := host_if_of b # nh_links H \<rparr>"
  | (undone) e prior H2 where "r = Inl e" "e \<noteq> LinkExists" "host_if_of b \<notin> set (nh_links H)"
      "H2 = H \<lparr> nh_links := host_if_of b # nh_links H \<rparr> \<and> prior = None \<or>
       H2 = H \<lparr> nh_links := host_if_of b # nh_links H, nh_forward := ''1'' \<rparr> \<and> prior = prior_of K H"
      "H' = del_link K (host_if_of b) (restore_ip_forward K prior (del_masquerade K (nft_table_of b) H2))"
proof (cases "from_env v")
  case (Inl e)
  then have "(r, H') = (Inl (NetEgressPolicy (pce_token e)), H)" using assms by (simp add: setup_inner_def Let_def)
  then show ?thesis by (intro unchanged) auto
next
  case (Inr policy)
  obtain r1 H1 where h: "setup_host_side K (host_if_of b) H = (r1, H1)" by fastforce
  show ?thesis
    using h
  proof (cases rule: setup_host_side_cases)
    case 1
    have "(r, H') = (Inl LinkExists, H1)"
      unfolding assms [symmetric] setup_inner_def Let_def Inr h 1(1) by simp
    then show ?thesis using 1 by (intro taken) auto
  next
    case 2
    have "(r, H') = (Inl NetLink, H1)"
      unfolding assms [symmetric] setup_inner_def Let_def Inr h 2(1) by simp
    then show ?thesis using 2 unchanged leaked by blast
  next
    case 3
    obtain r2 H2 where e: "setup_egress K pid (for_block base (of_nat b)) (nft_table_of b) (denied_v4_cidrs policy) H1 = (r2, H2)"
      by fastforce
    show ?thesis
      using e
    proof (cases rule: setup_egress_cases)
      case (1 e' p)
      have "(r, H') = (Inl e', del_link K (host_if_of b) (restore_ip_forward K p (del_masquerade K (nft_table_of b) H2)))"
        unfolding assms [symmetric] setup_inner_def Let_def Inr h 3(1) by (simp add: e 1(1))
      then show ?thesis using 1(2,3) 3(2,3) by (intro undone [of e' H2 p]) auto
    next
      case (2 rules)
      have "(r, H') = (Inr \<lparr> cn_host_ifname = host_if_of b, cn_container_ip = pl_container (for_block base (of_nat b)),
                          cn_nft_table = nft_table_of b, cn_prior_ip_forward = prior_of K H1 \<rparr>, H2)"
        unfolding assms [symmetric] setup_inner_def Let_def Inr h 3(1) by (simp add: e 2(1))
      then show ?thesis using 2(2) 3(2,3) by (intro made) auto
    qed
  qed
qed

lemma setup_blocks_result:
  assumes "setup_blocks K v pid base offsets H = (r, H')"
  obtains "r = Inl NoFreeSubnet" "H' = H"
      "\<forall>k \<in> set offsets. host_if_of ((pid mod SUBNET_BLOCKS + k) mod SUBNET_BLOCKS) \<in> set (nh_links H)"
  | b where "b < SUBNET_BLOCKS" "setup_inner K v pid base b H = (r, H')" "r \<noteq> Inl LinkExists"
  using assms
proof (induction offsets arbitrary: thesis)
  case (Cons k offsets)
  let ?b = "(pid mod SUBNET_BLOCKS + k) mod SUBNET_BLOCKS"
  have b: "?b < SUBNET_BLOCKS" by (simp add: SUBNET_BLOCKS_def)
  obtain r1 H1 where s: "setup_inner K v pid base ?b H = (r1, H1)" by fastforce
  show ?case
  proof (cases "r1 = Inl LinkExists")
    case True
    with s have t: "?b \<in> {b. host_if_of b \<in> set (nh_links H)}" "H1 = H" by (auto elim: setup_inner_cases)
    then have "setup_blocks K v pid base offsets H = (r, H')" using Cons.prems(3) s True by simp
    then show ?thesis
      by (rule Cons.IH [rotated 2]) (use Cons.prems(1,2) t in auto)
  next
    case False
    then have "(r, H') = (r1, H1)" using Cons.prems(3) s by (auto split: sum.splits NetError.splits)
    then show ?thesis using s b False Cons.prems(2) by auto
  qed
qed simp

lemma setup_inv:
  assumes inv: "net_inv base (H, live)" and "setup_inner K v pid base b H = (r, H')" and b: "b < SUBNET_BLOCKS"
  shows "net_inv base (H', (case r of Inl _ \<Rightarrow> live | Inr net \<Rightarrow> net # live))"
  using assms(2)
proof (cases rule: setup_inner_cases)
  case (made net rules)
  have "cn_host_ifname other \<noteq> host_if_of b" if "other \<in> set live" for other
    using inv made(2) that by (auto simp: net_inv_def plumbed_def)
  then show ?thesis using inv made b by (auto simp: net_inv_def plumbed_def on_block_def)
next
  case (leaked e)
  then show ?thesis using inv by (auto simp: net_inv_def plumbed_def nat_present_def)
next
  case (undone e prior H2)
  let ?H3 = "del_masquerade K (nft_table_of b) H2"
  have other: "cn_host_ifname other \<noteq> host_if_of b" if "other \<in> set live" for other
    using inv undone(3) that by (auto simp: net_inv_def plumbed_def)
  have p2: "plumbed base H2 other" if "other \<in> set live" for other
    using inv undone(4) that by (auto simp: net_inv_def plumbed_def)
  have "plumbed base H' other" if o: "other \<in> set live" for other
  proof -
    have "plumbed base (del_link K (host_if_of b) ?H3) other" using p2 [OF o] other [OF o] by (rule plumbed_remove)
    then show ?thesis unfolding undone(5) by (auto simp: plumbed_def del_link_def split: if_splits)
  qed
  moreover have "nh_forward H' = ''1''" if "nat_present H'"
  proof -
    have n: "nat_present ?H3" using that unfolding undone(5) by (simp add: nat_present_def)
    then have "nat_present H2" by (rule nat_present_mono [OF tables_removed])
    then have "nat_present H" by (rule nat_present_mono [rotated]) (use undone(4) in auto)
    then have "nh_forward H2 = ''1''" using inv undone(4) by (auto simp: net_inv_def)
    then show ?thesis unfolding undone(5) by (simp add: restore_forward [OF n])
  qed
  ultimately show ?thesis using inv undone(1) by (auto simp: net_inv_def)
qed (use inv in auto)

lemma net_step_inv: "net_step base s s' \<Longrightarrow> net_inv base s \<Longrightarrow> net_inv base s'"
proof (induction rule: net_step.induct)
  case (up K v pid H net H' live)
  then show ?case unfolding ContainerNet_setup_def
    by (elim setup_blocks_result) (auto dest: setup_inv)
next
  case (failed K v pid H e H' live)
  then show ?case unfolding ContainerNet_setup_def
    by (elim setup_blocks_result) (auto dest: setup_inv)
next
  case (down net live K H)
  then show ?case by (intro drop_inv)
qed

lemma net_run_inv: "net_run base s s' \<Longrightarrow> net_inv base s \<Longrightarrow> net_inv base s'"
  by (induction rule: rtranclp_induct) (auto dest: net_step_inv)

text \<open>Distinct blocks have distinct addresses.\<close>

lemma container_address:
  assumes "b < SUBNET_BLOCKS"
  shows "unat (pl_container (for_block base (of_nat b))) = unat base div 65536 * 65536 + b * 4 + 2"
proof -
  have "pl_container (for_block base (of_nat b)) = pl_network (for_block base (of_nat b)) + of_nat 2"
    by (simp add: for_block_def Let_def)
  then show ?thesis using unat_plan [OF assms, of 2 base] by simp
qed

lemma on_block_address:
  assumes "on_block base net b" and "on_block base net' b'" and "cn_container_ip net = cn_container_ip net'"
  shows "cn_host_ifname net = cn_host_ifname net'"
proof -
  have "unat (pl_container (for_block base (of_nat b))) = unat (pl_container (for_block base (of_nat b')))"
    using assms by (simp add: on_block_def)
  then have "b = b'" using assms(1,2) by (simp add: on_block_def container_address)
  then show ?thesis using assms(1,2) by (simp add: on_block_def)
qed

lemma net_inv_addresses:
  assumes "net_inv base (H, live)"
  shows "distinct (map cn_container_ip live)"
proof -
  have "inj_on cn_container_ip (set live)"
  proof (rule inj_onI)
    fix net net' assume n: "net \<in> set live" "net' \<in> set live" "cn_container_ip net = cn_container_ip net'"
    then have "cn_host_ifname net = cn_host_ifname net'"
      using assms on_block_address [of base net _ net'] by (fastforce simp: net_inv_def plumbed_def)
    then show "net = net'" using assms n by (auto simp: net_inv_def distinct_map inj_on_def)
  qed
  then show ?thesis using assms by (simp add: net_inv_def distinct_map)
qed


lemma filter_new: "l \<notin> set ls \<Longrightarrow> filter (\<lambda>x. x \<noteq> l) ls = ls"
  by (induction ls) auto

lemmas undo_simps = ContainerNet_drop_def del_link_def del_masquerade_def restore_ip_forward_def
  umf_nat_table_present_def forward_restore_target_def list_ex_iff list_all_iff filter_id_conv filter_new

section \<open>A host at work\<close>

definition all_calls :: calls where
  "all_calls = \<lparr> ca_read_forward = True, ca_write_forward = True, ca_add_veth = True, ca_host_side = True,
     ca_netns = True, ca_container_side = True, ca_add_table = True, ca_del_table = True, ca_del_link = True,
     ca_list_tables = True, ca_restore = True, ca_spawn = True \<rparr>"

lemma all_calls_sel [simp]:
  "ca_read_forward all_calls" "ca_write_forward all_calls" "ca_add_veth all_calls" "ca_host_side all_calls"
  "ca_netns all_calls" "ca_container_side all_calls" "ca_add_table all_calls" "ca_del_table all_calls"
  "ca_del_link all_calls" "ca_list_tables all_calls" "ca_restore all_calls"
  by (simp_all add: all_calls_def)

definition idle_host :: net_host where
  "idle_host = \<lparr> nh_links = [''lo''], nh_tables = [], nh_forward = ''0'' \<rparr>"

definition made_net :: "u32 \<Rightarrow> nat \<Rightarrow> string option \<Rightarrow> ContainerNet" where
  "made_net base b prior = \<lparr> cn_host_ifname = host_if_of b,
     cn_container_ip = pl_container (for_block base (of_nat b)), cn_nft_table = nft_table_of b,
     cn_prior_ip_forward = prior \<rparr>"

definition made_host :: "u32 \<Rightarrow> nat \<Rightarrow> net_host \<Rightarrow> net_host" where
  "made_host base b H = H \<lparr> nh_links := host_if_of b # nh_links H, nh_forward := ''1'',
     nh_tables := (nft_table_of b, masquerade_ruleset (nft_table_of b) (plan_cidr (for_block base (of_nat b)))
        (denied_v4_cidrs EgressPolicy_default)) # nh_tables H \<rparr>"

lemma setup_first_block:
  assumes "setup_inner K v pid base (pid mod SUBNET_BLOCKS) H = (r, H')" and "r \<noteq> Inl LinkExists"
  shows "ContainerNet_setup K v pid base H = (r, H')"
proof -
  have "0 < SUBNET_BLOCKS" by (simp add: SUBNET_BLOCKS_def)
  then have "[0..<SUBNET_BLOCKS] = 0 # [Suc 0..<SUBNET_BLOCKS]" by (rule upt_conv_Cons)
  then show ?thesis unfolding ContainerNet_setup_def
    using assms by (auto split: sum.splits NetError.splits)
qed

lemma setup_all_calls:
  assumes "pid < SUBNET_BLOCKS" and "host_if_of pid \<notin> set (nh_links H)"
  shows "ContainerNet_setup all_calls None pid base H =
           (Inr (made_net base pid (forward_restore_target (Some (trim (nh_forward H))))), made_host base pid H)"
proof (rule setup_first_block)
  show "setup_inner all_calls None pid base (pid mod SUBNET_BLOCKS) H =
          (Inr (made_net base pid (forward_restore_target (Some (trim (nh_forward H))))), made_host base pid H)"
    using assms by (simp add: setup_inner_def Let_def setup_host_side_def setup_egress_def enable_ipv4_forwarding_def
        add_table_def from_env_def made_net_def made_host_def)
qed simp

lemma trim_digit [simp]: "trim ''0'' = ''0''" "trim ''1'' = ''1''"
  by code_simp+

lemma idle_host_names [simp]: "host_if_of b \<noteq> ''lo''" "''lo'' \<noteq> host_if_of b"
  by (simp_all add: host_if_of_def)

lemmas work_simps = setup_all_calls SUBNET_BLOCKS_def forward_restore_target_def made_net_def made_host_def
  idle_host_def

text \<open>Networks that go down in the order they came up leave forwarding on: the first one sees the table of
  the second, which has nothing to restore.\<close>

lemma forwarding_left_on:
  "\<exists>na nb H1 H2.
     ContainerNet_setup all_calls None 1 base idle_host = (Inr na, H1) \<and>
     ContainerNet_setup all_calls None 2 base H1 = (Inr nb, H2) \<and>
     ContainerNet_drop all_calls nb (ContainerNet_drop all_calls na H2) = idle_host \<lparr> nh_forward := ''1'' \<rparr>"
  by (simp add: work_simps undo_simps)

text \<open>The network of a machine that goes down writes its own earlier value back, whoever else forwards.\<close>

lemma machine_stops_forwarding:
  "\<exists>vm net H1 H2.
     vm_setup_inner all_calls ''/tmp'' 7 (PortForwards []) DhcpNone idle_host = (Inr vm, H1) \<and>
     ContainerNet_setup all_calls None 1 base H1 = (Inr net, H2) \<and>
     (let H3 = VmNet_drop all_calls vm H2
      in cn_host_ifname net \<in> set (nh_links H3) \<and> cn_nft_table net \<in> fst ` set (nh_tables H3) \<and>
         nh_forward H3 = ''0'')"
  by (simp add: work_simps Let_def vm_setup_inner_def enable_ipv4_forwarding_def vm_build_def vm_setup_host_side_def
      add_table_def VmNet_drop_def vm_teardown_def vm_restore_ip_forward_def undo_simps host_if_of_def nft_table_of_def)

text \<open>A machine whose number is in use fails to come up and takes the link and the table of the running one with it.\<close>

lemma second_machine_takes_first_down:
  "\<exists>vm H1. vm_setup_inner all_calls ''/tmp'' 7 (PortForwards []) DhcpNone idle_host = (Inr vm, H1) \<and>
     vm_setup_inner all_calls ''/tmp'' 7 (PortForwards []) DhcpNone H1 =
       (Inl NetLink, idle_host \<lparr> nh_forward := ''1'' \<rparr>)"
  by (simp add: idle_host_def forward_restore_target_def Let_def vm_setup_inner_def enable_ipv4_forwarding_def vm_build_def
      vm_setup_host_side_def add_table_def vm_teardown_def vm_restore_ip_forward_def undo_simps)

text \<open>A link pair that was added but could not be addressed or moved stays behind, and its block with it.\<close>

lemma half_made_link_stays:
  assumes "pid < SUBNET_BLOCKS" and "host_if_of pid \<notin> set (nh_links H)"
  shows "ContainerNet_setup (all_calls \<lparr> ca_host_side := False \<rparr>) None pid base H =
           (Inl NetLink, H \<lparr> nh_links := host_if_of pid # nh_links H \<rparr>)"
proof (rule setup_first_block)
  show "setup_inner (all_calls \<lparr> ca_host_side := False \<rparr>) None pid base (pid mod SUBNET_BLOCKS) H =
          (Inl NetLink, H \<lparr> nh_links := host_if_of pid # nh_links H \<rparr>)"
    using assms by (simp add: setup_inner_def Let_def setup_host_side_def from_env_def)
qed simp

text \<open>Machines whose numbers differ by 8192 share a subnet.\<close>

lemma machine_subnets_collide: "for_id 8193 = for_id 1"
  by (simp add: for_id_def)


section \<open>Properties\<close>

text \<open>Subnets of different blocks share no address, and every one of them lies inside the pool: the
  arithmetic on 32-bit addresses does not wrap.\<close>

theorem subnets_apart:
  assumes "a < SUBNET_BLOCKS" and "b < SUBNET_BLOCKS" and "a \<noteq> b"
  shows "plan_addrs (for_block base (of_nat a)) \<inter> plan_addrs (for_block base (of_nat b)) = {} \<and>
         plan_addrs (for_block base (of_nat a)) \<subseteq> {unat base div 65536 * 65536 ..< unat base div 65536 * 65536 + 65536}"
proof -
  have "m * 65536 \<le> x \<and> x < m * 65536 + 65536" if "x div 4 = m * 16384 + a" for x m :: nat
    using that assms(1) div_mult_mod_eq [of x 4] mod_less_divisor [of 4 x] unfolding SUBNET_BLOCKS_def by linarith
  then show ?thesis using assms by (auto simp: plan_addrs_block)
qed

theorem subnets_apart_witness:
  "plan_addrs (for_block 0x0A450000 (of_nat 0)) \<inter> plan_addrs (for_block 0x0A450000 (of_nat 16383)) = {} \<and>
   plan_addrs (for_block 0x0A450000 (of_nat 0)) \<subseteq> {172294144 ..< 172359680}"
  using subnets_apart [of 0 16383 "0x0A450000"] by (simp add: SUBNET_BLOCKS_def)





end
