(* ===== verification/Spec2Isabelle.thy ===== *)
theory Spec2Isabelle
  imports Directive_Props Lexer_Props Lexer_Utf8 Platform Ssrf Layout_Gc Layout_Refs Build_Props Cpio Layer_Laws Net_Laws
begin

text \<open>
  A verification of UMF, a compiler that turns recipes (a dialect of container files) into OCI images and
  bootable disk images.  The program is a set of Rust crates below \<open>src/crates\<close>; the development models
  the crates \<open>umf-core\<close> and \<open>umf-parser\<close>, the container build of \<open>umf-builder\<close>, the image store, image
  emission and layers of \<open>umf-oci\<close>, the archive writer of the initial RAM disk, and the egress policy and the
  build networks of \<open>umf-networking\<close>.

  \<^bold>\<open>How the parts interact.\<close>  A recipe is lexed, parsed and validated (\<open>parse_with_warnings\<close>) into a tree
  of stages.  The builder checks the references between stages, resolves secrets, fetches the URLs that
  \<open>ADD\<close> names under the egress policy, and then builds the stages in order: it pulls the base image into the
  layout, walks the directives - each may run a container, copy files, or change metadata, and may be
  answered from the step cache - and emits an image into the layout, where later stages find it.

  \<^bold>\<open>Conventions.\<close>  A Rust \<open>str\<close> is a \<open>string\<close> of bytes and a \<open>char\<close> the byte string that encodes it;
  \<open>usize\<close> is \<open>nat\<close>, and integers whose width matters are words.  A fallible operation returns a sum with
  the error on the left; an error whose message is composed carries the values the message shows.  Mutable
  state is passed explicitly.  Code outside the repository and the effects of the host - SHA-256, JSON, tar,
  compression, HTTP and DNS, the registry client, the container runtime, the clock - are function fields of
  records that the definitions take as arguments; what a theorem needs of them is a hypothesis, and its
  witness instantiates it.

  \<^bold>\<open>Theories.\<close>

  \<^item> \<open>Prelude\<close>, \<open>Text_Tools\<close>: bytes, UTF-8, searching and splitting, decimal numbers.

  \<^item> \<open>Subst\<close> (\<open>umf-core/src/subst.rs\<close>): placeholder substitution, equal to a specification by segments.

  \<^item> \<open>Validation\<close>, \<open>Identifiers\<close>, \<open>Identifier_Laws\<close>, \<open>Paths_Urls\<close>, \<open>Oci_Reference\<close>, \<open>Oci_Grammar\<close>
    (\<open>umf-core/src/types\<close>): the validated newtypes.  Each constructor accepts exactly a declarative grammar
    and keeps the text; the locale \<open>validated_newtype\<close> states the contract once.

  \<^item> \<open>Ast\<close> (\<open>umf-core/src/ast\<close>), \<open>Diagnostics\<close>, \<open>Lexer\<close>, \<open>Lexer_Props\<close>, \<open>Lexer_Utf8\<close>, \<open>Parser_State\<close>,
    \<open>Parser_Laws\<close>, \<open>Grammar\<close>, \<open>Grammar_Laws\<close>, \<open>Grammar_Results\<close>, \<open>Stages\<close>, \<open>Validator\<close>, \<open>Directive_Props\<close>
    (\<open>umf-parser/src\<close>): the pipeline.  The lexer loses no byte and its tokens are determined by the text they
    span; the parser is a family of operations on a record of tokens and diagnostics whose contract - frame
    kept, progress, an error reported for every failure - is a chain of locales over \<open>parser_rel\<close>; trees it
    returns are well formed; the validator decides its conditions.

  \<^item> \<open>Platform\<close> (\<open>umf-core/src\<close>, \<open>umf-builder/src/platform.rs\<close>): architectures, file systems, image kinds and
    the choice of an index entry.

  \<^item> \<open>Ssrf\<close> (\<open>umf-networking/src/ssrf.rs\<close>): classification of addresses and the egress policy.

  \<^item> \<open>Layout\<close>, \<open>Layout_Gc\<close>, \<open>Layout_Refs\<close> (\<open>umf-oci/src/registry\<close>): the image layout.  Blobs read back
    unchanged, the collectors keep exactly what is reachable, the tag index refines a map (locale
    \<open>ref_store\<close>), and paths built from untrusted digests stay inside the layout.

  \<^item> \<open>Images\<close> (\<open>umf-oci/src/image\<close>): emission of images, indexes and artifacts.

  \<^item> \<open>Layers\<close>, \<open>Layer_Laws\<close> (\<open>umf-oci/src/whiteout.rs\<close>, \<open>image/tar_util.rs\<close>, \<open>compression.rs\<close>,
    \<open>materialize.rs\<close>): layers.  \<open>build_tar\<close> packs an overlay directory and \<open>apply_tar\<close> unpacks a layer; the
    round trip gives the merged view of the overlay.  \<open>unpack_ok\<close> is what the archive library is relied on for.

  \<^item> \<open>Cpio\<close> (\<open>umf-builder/src/initrd/cpio_newc.rs\<close>): the archive of the initial RAM disk, read back by a
    specification of the format.

  \<^item> \<open>Container_Net\<close>, \<open>Net_Laws\<close> (\<open>umf-networking/src/lib.rs\<close>, \<open>vmnet.rs\<close>): networks of containers and
    machines over the links, packet-filter tables and forwarding switch of the host (\<open>net_host\<close>); the record
    \<open>calls\<close> says which system calls succeed.  \<open>net_step\<close> interleaves the set-ups and tear-downs of several
    builds, and \<open>net_inv\<close> is its invariant.

  \<^item> \<open>Host_Fs\<close> (\<open>umf-builder/src/fsutil.rs\<close> and the path rules of \<open>engine_build\<close>): trees of files, links and
    directories; contained writes, overlaying copies and the scrubbing of secret mount points.

  \<^item> \<open>Build_State\<close>, \<open>Fetch\<close>, \<open>Build_Steps\<close>, \<open>Build_Stage\<close> (\<open>umf-builder/src/engine_build\<close>,
    \<open>arg_subst.rs\<close>): the state of a stage and the step cache, fetching URLs, every directive, and the stage
    loop with preparation, base images and rebuild.  \<open>Build_Laws\<close> proves what one directive does to the
    state and lifts it to walks and builds; \<open>Build_Props\<close> holds the properties.

  \<^bold>\<open>Bounds.\<close>  No definition uses fuel.  Loops over lists recurse on the list; loops with another measure are
  functions with a termination proof.  The loop that rebuilds a stage is a partial function whose value is
  \<open>None\<close> when it does not return, and \<open>build_returns\<close> shows that it always returns.  The redirect loop of
  a fetch is bounded by \<open>MAX_REDIRECTS\<close>, as in the source.  The index of a step is a natural number; in the source it is a
  32-bit counter, which no recipe within \<open>MAX_SOURCE_BYTES\<close> can exhaust.

  \<^bold>\<open>Not modelled.\<close>  The rendering of diagnostics is done by a library.  Failures of the host file system other
  than a missing file, an existing file or a refused link are not modelled in the layout and in the staging of layers.  The container
  engine (\<open>umf-engine\<close>) is system calls, mounts and namespaces behind the runtime parameter; the registry
  client is HTTP behind the pull parameter; the disk image compiler (\<open>umf-compile\<close>), the machine monitors
  (\<open>umf-vmm\<close>) and the rootless gateway of \<open>umf-networking\<close> drive external programs and kernel interfaces; the command line
  (\<open>src/src\<close>) parses arguments and prints.
\<close>

section \<open>Properties of the pipeline\<close>

text \<open>
  C1: a recipe that the pipeline accepts has a sound tree: every name, path, reference and value in it
  satisfies the grammar of its type, the stage names are distinct, no stage has two entrypoints,
  nothing was wrong lexically, and what is returned beside the tree are warnings only.
\<close>

theorem recipe_sound:
  assumes "parse_with_warnings source = Inr (ast, ws)"
  shows "ast_ok ast \<and> distinct (stage_names ast) \<and>
         list_all (\<lambda>s. entrypoints s \<le> 1) (ast_stages ast) \<and>
         snd (tokenize source) = [] \<and> list_all (\<lambda>d. dg_severity d = SevWarning) ws"
proof -
  obtain tokens ds where tok: "tokenize source = (tokens, ds)" by fastforce
  from assms tok have p: "parse source tokens = Inr (ast, ws)" and "ds = []" "validate ast = []"
    by (auto simp: parse_with_warnings_def Let_def split: if_splits sum.splits)
  then show ?thesis
    using parse_ast_ok [OF p] parse_severity(2) [OF p] validate_Nil [of ast] tok by simp
qed

definition recipe_sample :: string where
  "recipe_sample = ''FROM scratch''"

lemma recipe_sample_tokens:
  "tokenize recipe_sample =
     ([\<lparr> tk_kind = TkKeyword KwFrom, tk_span = Span_new 0 4 \<rparr>,
       \<lparr> tk_kind = TkIdent ''scratch'', tk_span = Span_new 5 12 \<rparr>], [])"
  by code_simp

lemma recipe_sample_parses:
  "case parse recipe_sample [\<lparr> tk_kind = TkKeyword KwFrom, tk_span = Span_new 0 4 \<rparr>,
       \<lparr> tk_kind = TkIdent ''scratch'', tk_span = Span_new 5 12 \<rparr>] of
     Inr (ast, ws) \<Rightarrow> length (ast_stages ast) = 1 \<and> validate ast = [] | Inl _ \<Rightarrow> False"
  by code_simp

theorem recipe_sound_witness:
  "\<exists>ast ws. parse_with_warnings recipe_sample = Inr (ast, ws) \<and> ast_ok ast \<and> length (ast_stages ast) = 1"
proof -
  have "\<not> MAX_SOURCE_BYTES < length recipe_sample" by (simp add: MAX_SOURCE_BYTES_def recipe_sample_def)
  then obtain ast ws where "parse_with_warnings recipe_sample = Inr (ast, ws)" "length (ast_stages ast) = 1"
    using recipe_sample_parses
    by (auto simp: parse_with_warnings_def recipe_sample_tokens Let_def split: sum.splits prod.splits)
  with recipe_sound show ?thesis by blast
qed

text \<open>
  C16: a recipe that the pipeline rejects comes with at least one diagnostic, and each of them is an
  error, whichever phase found it.
\<close>

theorem recipe_rejected_with_errors:
  assumes "parse_with_warnings source = Inl ds"
  shows "ds \<noteq> [] \<and> list_all (\<lambda>d. dg_severity d = SevError) ds"
proof (cases "length source > MAX_SOURCE_BYTES")
  case True
  with assms have "ds = [oversized source]" by (simp add: parse_with_warnings_def)
  then show ?thesis by (simp add: oversized_def)
next
  case False
  obtain tokens es where tok: "tokenize source = (tokens, es)" by fastforce
  have es: "list_all (\<lambda>d. dg_severity d = SevError) es"
    using tokenize_errors [of source] tok by (auto simp: list_all_iff)
  show ?thesis
  proof (cases "parse source tokens")
    case (Inl ps)
    with assms False tok have "ds = es @ ps" by (simp add: parse_with_warnings_def)
    with es parse_severity(1) [OF Inl] show ?thesis by simp
  next
    case (Inr r)
    with assms False tok have "ds = es @ validate (fst r)" "ds \<noteq> []"
      by (auto simp: parse_with_warnings_def Let_def split: prod.splits if_splits)
    with es validate_severity show ?thesis by (auto simp: list_all_iff)
  qed
qed

theorem recipe_rejected_with_errors_witness:
  "\<exists>ds. parse_with_warnings ''='' = Inl ds \<and> ds \<noteq> [] \<and> list_all (\<lambda>d. dg_severity d = SevError) ds"
proof -
  have "tokenize ''='' = ([\<lparr> tk_kind = TkPunct PEquals, tk_span = Span_new 0 1 \<rparr>], [])" by code_simp
  moreover have "case parse ''='' [\<lparr> tk_kind = TkPunct PEquals, tk_span = Span_new 0 1 \<rparr>] of Inr _ \<Rightarrow> False | Inl _ \<Rightarrow> True"
    by code_simp
  ultimately obtain ds where "parse_with_warnings ''='' = Inl ds"
    by (auto simp: parse_with_warnings_def MAX_SOURCE_BYTES_def split: sum.splits)
  with recipe_rejected_with_errors show ?thesis by blast
qed

end
